theory Spec2Isabelle
  imports Main
begin

section \<open>The ELB reconciler of \<open>cloud/amazon/ec2_elb_lb.py\<close>\<close>

text \<open>
  The class \<open>ElbManager\<close> reconciles a declared load balancer against the live one
  through the boto connection. The embedding keeps the structure of the source:
  \<^item> the constructor arguments are the record \<open>config\<close> (never written after
    \<open>__init__\<close>);
  \<^item> what the runtime supplies (the boto capabilities probed by \<open>hasattr\<close>, the
    module's \<open>__file__\<close>, the fields of a fresh boto \<open>HealthCheck()\<close>) is the
    record \<open>env\<close>;
  \<^item> the mutable attributes \<open>changed\<close>, \<open>status\<close>, \<open>elb\<close> are the record
    \<open>manager\<close>, together with the list \<open>calls\<close> of the provider calls issued so
    far, in order;
  \<^item> \<open>module.fail_json\<close> (which exits the process) and the Python exceptions of the
    modelled code are values of \<open>error\<close>; a method that can fail returns
    \<open>Inl (e, m)\<close>, the error and the manager as it was when the error was raised,
    or \<open>Inr m\<close>.
  The methods drop the leading underscore of their Python names.
\<close>

subsection \<open>Strings\<close>

text \<open>\<open>str.upper()\<close> on a byte string: the letters a-z move to A-Z.\<close>

definition upper_char :: "char \<Rightarrow> char" where
  "upper_char c =
     (let n = (of_char c :: nat) in if 97 \<le> n \<and> n \<le> 122 then char_of (n - 32) else c)"

definition upper :: "string \<Rightarrow> string" where
  "upper s = map upper_char s"

text \<open>\<open>s.startswith(p)\<close>.\<close>

definition startswith :: "string \<Rightarrow> string \<Rightarrow> bool" where
  "startswith s p = (take (length p) s = p)"

subsection \<open>Listeners and listener tuples\<close>

text \<open>
  A desired listener is a dict with the keys \<open>load_balancer_port\<close>,
  \<open>instance_port\<close>, \<open>protocol\<close> and, optionally, \<open>instance_protocol\<close> and
  \<open>ssl_certificate_id\<close>. An optional key is an \<open>option\<close>: \<open>None\<close> is "key not in
  the dict". Ports are integers.
\<close>

record listener =
  load_balancer_port :: int
  instance_port :: int
  protocol :: string
  instance_protocol :: "string option"
  ssl_certificate_id :: "string option"

text \<open>
  A Python tuple of ports and strings: a list of elements. Two tuples are equal iff they
  have the same length and equal elements; an integer never equals a string.
\<close>

datatype elem = I int | S string

type_synonym ltuple = "elem list"

text \<open>
  A boto \<open>Listener\<close> of the live load balancer. \<open>existing_listener[0]\<close> is its
  \<open>load_balancer_port\<close>, \<open>existing_listener[2]\<close> its \<open>protocol\<close>, and
  \<open>get_complex_tuple()\<close> is the 4-tuple of the first four fields.
  \<open>api_policy_names\<close> are the policies attached to the listener.
\<close>

record api_listener =
  api_load_balancer_port :: int
  api_instance_port :: int
  api_protocol :: string
  api_instance_protocol :: string
  api_ssl_certificate_id :: "string option"
  api_policy_names :: "string list"

definition get_complex_tuple :: "api_listener \<Rightarrow> ltuple" where
  "get_complex_tuple l =
     [I (api_load_balancer_port l), I (api_instance_port l),
      S (api_protocol l), S (api_instance_protocol l)]"

text \<open>Truthiness of an optional string: \<open>None\<close> and the empty string are false.\<close>

definition truthy_str :: "string option \<Rightarrow> bool" where
  "truthy_str x = (case x of None \<Rightarrow> False | Some s \<Rightarrow> s \<noteq> [])"

text \<open>\<open>_api_listener_as_tuple\<close>, lines 561-566.\<close>

definition api_listener_as_tuple :: "api_listener \<Rightarrow> ltuple" where
  "api_listener_as_tuple l =
     (let base_tuple = get_complex_tuple l in
      if truthy_str (api_ssl_certificate_id l) \<and> length base_tuple < 5
      then base_tuple @ (case api_ssl_certificate_id l of None \<Rightarrow> [] | Some c \<Rightarrow> [S c])
      else base_tuple)"

text \<open>\<open>_listener_as_tuple\<close>, lines 568-589.\<close>

definition listener_as_tuple :: "listener \<Rightarrow> ltuple" where
  "listener_as_tuple l =
     (let listener_list =
            [I (load_balancer_port l), I (instance_port l), S (upper (protocol l))];
          listener_list =
            (case instance_protocol l of
               Some ip \<Rightarrow> listener_list @ [S (upper ip)]
             | None \<Rightarrow> listener_list @ [S (upper (protocol l))]);
          listener_list =
            (case ssl_certificate_id l of
               Some c \<Rightarrow> listener_list @ [S c]
             | None \<Rightarrow> listener_list)
      in listener_list)"

subsection \<open>The desired configuration\<close>

text \<open>
  The \<open>health_check\<close> dict. \<open>ping_path\<close> is optional
  (\<open>'ping_path' in self.health_check\<close>); the other keys are read unconditionally.
\<close>

record health_check_cfg =
  ping_protocol :: string
  ping_port :: int
  ping_path :: "string option"
  response_timeout :: int
  interval :: int
  unhealthy_threshold :: int
  healthy_threshold :: int

text \<open>
  The \<open>stickiness\<close> dict: \<open>type\<close> and \<open>enabled\<close> are read unconditionally,
  \<open>expiration\<close> and \<open>cookie\<close> are optional keys. The source compares their values
  after \<open>str()\<close>, so they are strings here.
\<close>

record stickiness_cfg =
  stickiness_type :: string
  enabled :: bool
  expiration :: "string option"
  cookie :: "string option"

text \<open>
  The constructor arguments of \<open>ElbManager\<close>. A list-valued argument that may be
  \<open>None\<close> is an \<open>option\<close>. \<open>main\<close> rejects a missing or empty \<open>listeners\<close> before
  \<open>ensure_ok\<close> runs, so \<open>listeners\<close> is a list.
\<close>

record config =
  name :: string
  listeners :: "listener list"
  purge_listeners :: bool
  zones :: "string list option"
  purge_zones :: bool
  security_group_ids :: "string list option"
  health_check :: "health_check_cfg option"
  subnets :: "string list option"
  purge_subnets :: bool
  scheme :: string
  connection_draining_timeout :: "int option"
  cross_az_load_balancing :: "bool option"
  stickiness :: "stickiness_cfg option"

text \<open>Truthiness of an optional list (\<open>if self.zones:\<close>) and of an optional flag.\<close>

definition truthy_list :: "'a list option \<Rightarrow> bool" where
  "truthy_list x = (case x of None \<Rightarrow> False | Some xs \<Rightarrow> xs \<noteq> [])"

definition truthy_bool :: "bool option \<Rightarrow> bool" where
  "truthy_bool x = (case x of None \<Rightarrow> False | Some b \<Rightarrow> b)"

subsection \<open>The live load balancer\<close>

text \<open>
  A boto \<open>HealthCheck\<close>: a fresh \<open>HealthCheck()\<close> has \<open>target = None\<close>, so the
  target is optional.
\<close>

record health_check_obj =
  target :: "string option"
  timeout :: int
  hc_interval :: int
  hc_unhealthy_threshold :: int
  hc_healthy_threshold :: int

text \<open>
  A stickiness policy of the live balancer: its name and its parameter
  (\<open>cookie_expiration_period\<close> or \<open>cookie_name\<close>) after \<open>str()\<close>.
\<close>

record policy =
  pol_policy_name :: string
  pol_param :: string

record connection_draining_attr =
  cd_enabled :: bool
  cd_timeout :: int

record elb =
  elb_name :: string
  availability_zones :: "string list"
  security_groups :: "string list"
  elb_listeners :: "api_listener list"
  elb_subnets :: "string list"
  elb_health_check :: "health_check_obj option"
  elb_scheme :: string
  lb_cookie_stickiness_policies :: "policy list"
  app_cookie_stickiness_policies :: "policy list"
  connection_draining :: connection_draining_attr
  cross_zone_load_balancing :: bool

subsection \<open>Provider calls\<close>

datatype attr_value = CrossZone bool | Draining connection_draining_attr

text \<open>
  One constructor per boto call the module issues, with the arguments it passes.
  \<open>CreateStickinessPolicy meth param elb_name policy_name\<close> is
  \<open>getattr(self.elb_conn, meth)(param, elb_name, policy_name)\<close>.
\<close>

datatype call =
    GetAllLoadBalancers "string option"
  | CreateLoadBalancer string "string list option" "string list option" "ltuple list"
      "string list option" string
  | DeleteLoadBalancer string
  | CreateLoadBalancerListeners string "ltuple list"
  | DeleteLoadBalancerListeners string "elem list"
  | EnableZones "string list"
  | DisableZones "string list"
  | AttachLbToSubnets string "string list"
  | DetachLbFromSubnets string "string list"
  | ApplySecurityGroupsToLb string "string list"
  | ConfigureHealthCheck health_check_obj
  | GetAttributes
  | ModifyLbAttribute string string attr_value
  | CreateStickinessPolicy string string string string
  | DeleteLbPolicy string string
  | SetLbPoliciesOfListener string int "string list"

text \<open>The calls that change the live resource: all but the two reads.\<close>

fun is_mutation :: "call \<Rightarrow> bool" where
  "is_mutation (GetAllLoadBalancers n) = False"
| "is_mutation GetAttributes = False"
| "is_mutation c = True"

subsection \<open>The provider\<close>

text \<open>
  boto and the service behind it are not part of the repository. \<open>provider\<close> is the
  contract the module relies on: what each call does to the load balancer it names.
  A call on an absent balancer does nothing, except \<open>create_load_balancer\<close>, which
  makes one with the zones, security groups, listeners, subnets and scheme it is given,
  no health check and no policies.
\<close>

definition the_list :: "'a list option \<Rightarrow> 'a list" where
  "the_list x = (case x of None \<Rightarrow> [] | Some xs \<Rightarrow> xs)"

text \<open>The listener the provider makes from a 4- or 5-tuple; it rejects any other shape.\<close>

definition tuple_listener :: "ltuple \<Rightarrow> api_listener option" where
  "tuple_listener t =
     (case t of
        [I p, I ip, S pr, S ipr] \<Rightarrow>
          Some \<lparr>api_load_balancer_port = p, api_instance_port = ip, api_protocol = pr,
                api_instance_protocol = ipr, api_ssl_certificate_id = None,
                api_policy_names = []\<rparr>
      | [I p, I ip, S pr, S ipr, S c] \<Rightarrow>
          Some \<lparr>api_load_balancer_port = p, api_instance_port = ip, api_protocol = pr,
                api_instance_protocol = ipr, api_ssl_certificate_id = Some c,
                api_policy_names = []\<rparr>
      | _ \<Rightarrow> None)"

fun apply_call :: "call \<Rightarrow> elb \<Rightarrow> elb" where
  "apply_call (EnableZones zs) e =
     e\<lparr>availability_zones :=
         availability_zones e @ [z \<leftarrow> remdups zs. z \<notin> set (availability_zones e)]\<rparr>"
| "apply_call (DisableZones zs) e =
     e\<lparr>availability_zones := [z \<leftarrow> availability_zones e. z \<notin> set zs]\<rparr>"
| "apply_call (AttachLbToSubnets n sns) e =
     e\<lparr>elb_subnets := elb_subnets e @ [z \<leftarrow> remdups sns. z \<notin> set (elb_subnets e)]\<rparr>"
| "apply_call (DetachLbFromSubnets n sns) e =
     e\<lparr>elb_subnets := [z \<leftarrow> elb_subnets e. z \<notin> set sns]\<rparr>"
| "apply_call (ApplySecurityGroupsToLb n sgs) e = e\<lparr>security_groups := sgs\<rparr>"
| "apply_call (DeleteLoadBalancerListeners n ports) e =
     e\<lparr>elb_listeners := [l \<leftarrow> elb_listeners e. I (api_load_balancer_port l) \<notin> set ports]\<rparr>"
| "apply_call (CreateLoadBalancerListeners n ts) e =
     e\<lparr>elb_listeners := elb_listeners e @ List.map_filter tuple_listener ts\<rparr>"
| "apply_call (ConfigureHealthCheck h) e = e\<lparr>elb_health_check := Some h\<rparr>"
| "apply_call (ModifyLbAttribute n k (CrossZone b)) e = e\<lparr>cross_zone_load_balancing := b\<rparr>"
| "apply_call (ModifyLbAttribute n k (Draining d)) e = e\<lparr>connection_draining := d\<rparr>"
| "apply_call (CreateStickinessPolicy meth param n pn) e =
     (if meth = ''create_lb_cookie_stickiness_policy''
      then e\<lparr>lb_cookie_stickiness_policies :=
               lb_cookie_stickiness_policies e @ [\<lparr>pol_policy_name = pn, pol_param = param\<rparr>]\<rparr>
      else if meth = ''create_app_cookie_stickiness_policy''
      then e\<lparr>app_cookie_stickiness_policies :=
               app_cookie_stickiness_policies e @ [\<lparr>pol_policy_name = pn, pol_param = param\<rparr>]\<rparr>
      else e)"
| "apply_call (DeleteLbPolicy n pn) e =
     e\<lparr>lb_cookie_stickiness_policies :=
         [p \<leftarrow> lb_cookie_stickiness_policies e. pol_policy_name p \<noteq> pn],
       app_cookie_stickiness_policies :=
         [p \<leftarrow> app_cookie_stickiness_policies e. pol_policy_name p \<noteq> pn]\<rparr>"
| "apply_call (SetLbPoliciesOfListener n port ps) e =
     e\<lparr>elb_listeners :=
         map (\<lambda>l. if api_load_balancer_port l = port then l\<lparr>api_policy_names := ps\<rparr> else l)
           (elb_listeners e)\<rparr>"
| "apply_call c e = e"

fun provider :: "call \<Rightarrow> elb option \<Rightarrow> elb option" where
  "provider (CreateLoadBalancer n zs sgs ls sns sch) w =
     Some \<lparr>elb_name = n, availability_zones = the_list zs, security_groups = the_list sgs,
           elb_listeners = List.map_filter tuple_listener ls, elb_subnets = the_list sns,
           elb_health_check = None, elb_scheme = sch,
           lb_cookie_stickiness_policies = [], app_cookie_stickiness_policies = [],
           connection_draining = \<lparr>cd_enabled = False, cd_timeout = 300\<rparr>,
           cross_zone_load_balancing = False\<rparr>"
| "provider (DeleteLoadBalancer n) w = None"
| "provider c None = None"
| "provider c (Some e) = Some (apply_call c e)"

subsection \<open>The manager\<close>

datatype error = FailJson string | AttributeError | IndexError

text \<open>
  \<open>supports_connection_draining\<close> and \<open>supports_cross_zone_load_balancing\<close> are
  \<open>_check_attribute_support\<close> at the two attribute names; \<open>module_file\<close> is
  \<open>__file__\<close>; \<open>fresh_health_check\<close> is boto's \<open>HealthCheck()\<close>;
  \<open>zones_error c\<close> is the message of the \<open>BotoServerError\<close> that the zone call
  \<open>c\<close> raises, if it raises. The other provider calls succeed (the module
  catches none of their exceptions).
\<close>

record env =
  supports_connection_draining :: bool
  supports_cross_zone_load_balancing :: bool
  module_file :: string
  fresh_health_check :: health_check_obj
  zones_error :: "call \<Rightarrow> string option"

text \<open>
  \<open>elb\<close> is \<open>self.elb\<close>: \<open>None\<close> when no balancer has the name. The model keeps one
  view of the balancer, updated by every call through \<open>provider\<close>; the source reads
  each collection of \<open>self.elb\<close> before the calls that change it, and reads the
  listeners and policies for stickiness from a fresh fetch. \<open>Changed\<close> is the attribute
  that line 655 assigns; \<open>None\<close> is "never assigned".
\<close>

record manager =
  changed :: bool
  Changed :: "bool option"
  status :: string
  elb :: "elb option"
  calls :: "call list"

definition issue :: "call \<Rightarrow> manager \<Rightarrow> manager" where
  "issue c m = m\<lparr>elb := provider c (elb m), calls := calls m @ [c]\<rparr>"

definition and_then :: "'e + 'a \<Rightarrow> ('a \<Rightarrow> 'e + 'b) \<Rightarrow> 'e + 'b" where
  "and_then r f = (case r of Inl e \<Rightarrow> Inl e | Inr x \<Rightarrow> f x)"

text \<open>\<open>__init__\<close>, lines 330-333, with \<open>_get_elb\<close>, lines 457-462.\<close>

definition init :: "elb option \<Rightarrow> manager" where
  "init live =
     \<lparr>changed = False, Changed = None,
      status = (if live \<noteq> None then ''ok'' else ''gone''),
      elb = live, calls = [GetAllLoadBalancers None]\<rparr>"

subsection \<open>Deleting and creating the balancer\<close>

text \<open>
  \<open>_delete_elb\<close>, lines 471-476: the call returns \<open>True\<close> or raises, so the branch
  on \<open>result\<close> is taken.
\<close>

definition delete_elb :: "config \<Rightarrow> manager \<Rightarrow> manager" where
  "delete_elb c m =
     (let m = issue (DeleteLoadBalancer (name c)) m; result = True
      in if result then m\<lparr>changed := True, status := ''deleted''\<rparr> else m)"

text \<open>\<open>ensure_gone\<close>, lines 356-359.\<close>

definition ensure_gone :: "config \<Rightarrow> manager \<Rightarrow> manager" where
  "ensure_gone c m = (if elb m \<noteq> None then delete_elb c m else m)"

text \<open>\<open>_create_elb\<close>, lines 478-488.\<close>

definition create_elb :: "config \<Rightarrow> manager \<Rightarrow> manager" where
  "create_elb c m =
     (let ls = map listener_as_tuple (listeners c);
          m = issue (CreateLoadBalancer (name c) (zones c) (security_group_ids c) ls
                       (subnets c) (scheme c)) m
      in if elb m \<noteq> None then m\<lparr>changed := True, status := ''created''\<rparr> else m)"

subsection \<open>Listeners\<close>

text \<open>
  \<open>_create_elb_listeners\<close>, lines 490-494: \<open>self.changed\<close> receives the result of
  the call, \<open>True\<close>.
\<close>

definition create_elb_listeners :: "config \<Rightarrow> ltuple list \<Rightarrow> manager \<Rightarrow> manager" where
  "create_elb_listeners c ls m =
     (issue (CreateLoadBalancerListeners (name c) ls) m)\<lparr>changed := True\<rparr>"

text \<open>\<open>[l[0] for l in listeners]\<close>: \<open>IndexError\<close> on an empty tuple.\<close>

fun items0 :: "ltuple list \<Rightarrow> error + elem list" where
  "items0 [] = Inr []"
| "items0 ([] # ts) = Inl IndexError"
| "items0 ((x # t) # ts) =
     (case items0 ts of Inl e \<Rightarrow> Inl e | Inr xs \<Rightarrow> Inr (x # xs))"

text \<open>\<open>_delete_elb_listeners\<close>, lines 496-502.\<close>

definition delete_elb_listeners :: "config \<Rightarrow> ltuple list \<Rightarrow> manager \<Rightarrow> error \<times> manager + manager" where
  "delete_elb_listeners c ls m =
     (case items0 ls of
        Inl e \<Rightarrow> Inl (e, m)
      | Inr ports \<Rightarrow>
          Inr ((issue (DeleteLoadBalancerListeners (name c) ports) m)\<lparr>changed := True\<rparr>))"

text \<open>
  The inner loop of lines 519-525: the tuple of the first live listener on the port,
  \<open>None\<close> when there is none.
\<close>

fun existing_listener_found :: "int \<Rightarrow> api_listener list \<Rightarrow> ltuple option" where
  "existing_listener_found port [] = None"
| "existing_listener_found port (existing_listener # rest) =
     (if api_load_balancer_port existing_listener = port
      then Some (api_listener_as_tuple existing_listener)
      else existing_listener_found port rest)"

text \<open>\<open>if existing_listener_found:\<close> is false for \<open>None\<close> and for the empty tuple.\<close>

definition truthy_tuple :: "ltuple option \<Rightarrow> bool" where
  "truthy_tuple x = (case x of None \<Rightarrow> False | Some t \<Rightarrow> t \<noteq> [])"

text \<open>
  The outer loop of lines 514-539 over \<open>self.listeners\<close>, with the three lists
  \<open>listeners_to_add\<close>, \<open>listeners_to_remove\<close>, \<open>listeners_to_keep\<close> as accumulators.
\<close>

fun scan_desired ::
  "api_listener list \<Rightarrow> listener list \<Rightarrow> ltuple list \<times> ltuple list \<times> ltuple list \<Rightarrow>
   ltuple list \<times> ltuple list \<times> ltuple list" where
  "scan_desired live [] acc = acc"
| "scan_desired live (l # ls) (to_add, to_remove, to_keep) =
     (let listener_tuple = listener_as_tuple l;
          found = existing_listener_found (load_balancer_port l) live
      in if truthy_tuple found then
           (if listener_tuple \<noteq> the_list found
            then scan_desired live ls
                   (to_add @ [listener_tuple], to_remove @ [the_list found], to_keep)
            else scan_desired live ls (to_add, to_remove, to_keep @ [the_list found]))
         else scan_desired live ls (to_add @ [listener_tuple], to_remove, to_keep))"

text \<open>The purge loop of lines 543-553.\<close>

fun scan_existing :: "api_listener list \<Rightarrow> ltuple list \<Rightarrow> ltuple list \<Rightarrow> ltuple list" where
  "scan_existing [] to_remove to_keep = to_remove"
| "scan_existing (existing_listener # rest) to_remove to_keep =
     (let existing_listener_tuple = api_listener_as_tuple existing_listener
      in if existing_listener_tuple \<in> set to_remove then scan_existing rest to_remove to_keep
         else if existing_listener_tuple \<in> set to_keep then scan_existing rest to_remove to_keep
         else scan_existing rest (to_remove @ [existing_listener_tuple]) to_keep)"

text \<open>The two lists that lines 509-553 compute: additions and removals.\<close>

definition listeners_to_add :: "config \<Rightarrow> api_listener list \<Rightarrow> ltuple list" where
  "listeners_to_add c live = fst (scan_desired live (listeners c) ([], [], []))"

definition listeners_to_remove :: "config \<Rightarrow> api_listener list \<Rightarrow> ltuple list" where
  "listeners_to_remove c live =
     (case scan_desired live (listeners c) ([], [], []) of
        (to_add, to_remove, to_keep) \<Rightarrow>
          if purge_listeners c then scan_existing live to_remove to_keep else to_remove)"

text \<open>
  \<open>_set_elb_listeners\<close>, lines 504-559. With no balancer, \<open>self.elb.listeners\<close>
  raises as soon as one of the loops reads it.
\<close>

definition set_elb_listeners :: "config \<Rightarrow> manager \<Rightarrow> error \<times> manager + manager" where
  "set_elb_listeners c m =
     (case elb m of
        None \<Rightarrow> if listeners c = [] \<and> \<not> purge_listeners c then Inr m else Inl (AttributeError, m)
      | Some e \<Rightarrow>
          (let to_add = listeners_to_add c (elb_listeners e);
               to_remove = listeners_to_remove c (elb_listeners e)
           in and_then
                (if to_remove \<noteq> [] then delete_elb_listeners c to_remove m else Inr m)
                (\<lambda>m. if to_add \<noteq> [] then Inr (create_elb_listeners c to_add m) else Inr m)))"

subsection \<open>Zones, subnets, security groups\<close>

text \<open>\<open>p in s\<close> for strings.\<close>

fun contains :: "string \<Rightarrow> string \<Rightarrow> bool" where
  "contains [] p = (p = [])"
| "contains (x # xs) p = (startswith (x # xs) p \<or> contains xs p)"

text \<open>The \<open>except\<close> branch of \<open>_enable_zones\<close> and \<open>_disable_zones\<close>.\<close>

definition zones_failure :: "string \<Rightarrow> error" where
  "zones_failure msg =
     (if contains msg ''Invalid Availability Zone'' then FailJson msg
      else FailJson ''an unknown server error occurred, please try again later'')"

text \<open>\<open>_enable_zones\<close>, lines 591-599, and \<open>_disable_zones\<close>, lines 601-609.\<close>

definition enable_zones :: "env \<Rightarrow> string list \<Rightarrow> manager \<Rightarrow> error \<times> manager + manager" where
  "enable_zones ev zs m =
     (case zones_error ev (EnableZones zs) of
        Some msg \<Rightarrow> Inl (zones_failure msg, m)
      | None \<Rightarrow> Inr ((issue (EnableZones zs) m)\<lparr>changed := True\<rparr>))"

definition disable_zones :: "env \<Rightarrow> string list \<Rightarrow> manager \<Rightarrow> error \<times> manager + manager" where
  "disable_zones ev zs m =
     (case zones_error ev (DisableZones zs) of
        Some msg \<Rightarrow> Inl (zones_failure msg, m)
      | None \<Rightarrow> Inr ((issue (DisableZones zs) m)\<lparr>changed := True\<rparr>))"

text \<open>\<open>_attach_subnets\<close>, lines 611-613, and \<open>_detach_subnets\<close>, lines 615-617.\<close>

definition attach_subnets :: "config \<Rightarrow> string list \<Rightarrow> manager \<Rightarrow> manager" where
  "attach_subnets c sns m = (issue (AttachLbToSubnets (name c) sns) m)\<lparr>changed := True\<rparr>"

definition detach_subnets :: "config \<Rightarrow> string list \<Rightarrow> manager \<Rightarrow> manager" where
  "detach_subnets c sns m = (issue (DetachLbFromSubnets (name c) sns) m)\<lparr>changed := True\<rparr>"

text \<open>
  \<open>list(set(xs) - set(ys))\<close>. Python leaves the order of the list open; the model lists
  the elements in the order of \<open>xs\<close>.
\<close>

definition set_diff :: "'a list \<Rightarrow> 'a list \<Rightarrow> 'a list" where
  "set_diff xs ys = remdups [x \<leftarrow> xs. x \<notin> set ys]"

text \<open>
  The two lists of lines 637-645 (zones) and 622-627 (subnets), as functions of the
  desired list, the purge flag and the live list. Without purge the second is \<open>None\<close>.
\<close>

definition to_enable :: "'a list \<Rightarrow> 'a list \<Rightarrow> 'a list" where
  "to_enable desired live = set_diff desired live"

definition to_disable :: "bool \<Rightarrow> 'a list \<Rightarrow> 'a list \<Rightarrow> 'a list option" where
  "to_disable purge desired live = (if purge then Some (set_diff live desired) else None)"

text \<open>\<open>_set_subnets\<close>, lines 619-632.\<close>

definition set_subnets :: "config \<Rightarrow> manager \<Rightarrow> error \<times> manager + manager" where
  "set_subnets c m =
     (if truthy_list (subnets c) then
        (case elb m of
           None \<Rightarrow> Inl (AttributeError, m)
         | Some e \<Rightarrow>
             (let subnets_to_detach =
                    to_disable (purge_subnets c) (the_list (subnets c)) (elb_subnets e);
                  subnets_to_attach = to_enable (the_list (subnets c)) (elb_subnets e);
                  m = (if subnets_to_attach \<noteq> [] then attach_subnets c subnets_to_attach m
                       else m);
                  m = (if truthy_list subnets_to_detach
                       then detach_subnets c (the_list subnets_to_detach) m else m)
              in Inr m))
      else Inr m)"

text \<open>\<open>_set_zones\<close>, lines 634-650.\<close>

definition set_zones :: "env \<Rightarrow> config \<Rightarrow> manager \<Rightarrow> error \<times> manager + manager" where
  "set_zones ev c m =
     (if truthy_list (zones c) then
        (case elb m of
           None \<Rightarrow> Inl (AttributeError, m)
         | Some e \<Rightarrow>
             (let zones_to_disable =
                    to_disable (purge_zones c) (the_list (zones c)) (availability_zones e);
                  zones_to_enable = to_enable (the_list (zones c)) (availability_zones e)
              in and_then
                   (if zones_to_enable \<noteq> [] then enable_zones ev zones_to_enable m else Inr m)
                   (\<lambda>m. if truthy_list zones_to_disable
                        then disable_zones ev (the_list zones_to_disable) m else Inr m)))
      else Inr m)"

text \<open>
  \<open>_set_security_groups\<close>, lines 652-655. The assignment of line 655 is to
  \<open>self.Changed\<close>.
\<close>

definition set_security_groups :: "config \<Rightarrow> manager \<Rightarrow> error \<times> manager + manager" where
  "set_security_groups c m =
     (case security_group_ids c of
        None \<Rightarrow> Inr m
      | Some sgs \<Rightarrow>
          (case elb m of
             None \<Rightarrow> Inl (AttributeError, m)
           | Some e \<Rightarrow>
               if set (security_groups e) \<noteq> set sgs
               then Inr ((issue (ApplySecurityGroupsToLb (name c) sgs) m)\<lparr>Changed := Some True\<rparr>)
               else Inr m))"

subsection \<open>Health check\<close>

text \<open>\<open>"%s" % n\<close> for an integer: its decimal digits.\<close>

fun show_nat :: "nat \<Rightarrow> string" where
  "show_nat n =
     (if n < 10 then [char_of (48 + n)]
      else show_nat (n div 10) @ [char_of (48 + n mod 10)])"

definition show_int :: "int \<Rightarrow> string" where
  "show_int i = (if i < 0 then CHR ''-'' # show_nat (nat (- i)) else show_nat (nat i))"

text \<open>\<open>_get_health_check_target\<close>, lines 806-814.\<close>

definition get_health_check_target :: "health_check_cfg \<Rightarrow> string" where
  "get_health_check_target hc =
     (let protocol = upper (ping_protocol hc);
          path = (if protocol \<in> set [''HTTP'', ''HTTPS'']
                  then (case ping_path hc of Some pp \<Rightarrow> pp | None \<Rightarrow> [])
                  else [])
      in protocol @ '':'' @ show_int (ping_port hc) @ path)"

text \<open>The dict \<open>health_check_config\<close> of lines 663-669, as the object it describes.\<close>

definition health_check_config :: "health_check_cfg \<Rightarrow> health_check_obj" where
  "health_check_config hc =
     \<lparr>target = Some (get_health_check_target hc),
      timeout = response_timeout hc,
      hc_interval = interval hc,
      hc_unhealthy_threshold = unhealthy_threshold hc,
      hc_healthy_threshold = healthy_threshold hc\<rparr>"

text \<open>
  One round of the loop of lines 678-681 for each of the five attributes: the state is
  the live object and the flag \<open>update_health_check\<close>. (The rounds touch different
  attributes, so the order in which the dict yields them does not matter.)
\<close>

definition compare_attrs ::
  "health_check_obj \<Rightarrow> health_check_obj \<times> bool \<Rightarrow> health_check_obj \<times> bool" where
  "compare_attrs desired st =
     (let st = (if target (fst st) \<noteq> target desired
                then ((fst st)\<lparr>target := target desired\<rparr>, True) else st);
          st = (if timeout (fst st) \<noteq> timeout desired
                then ((fst st)\<lparr>timeout := timeout desired\<rparr>, True) else st);
          st = (if hc_interval (fst st) \<noteq> hc_interval desired
                then ((fst st)\<lparr>hc_interval := hc_interval desired\<rparr>, True) else st);
          st = (if hc_unhealthy_threshold (fst st) \<noteq> hc_unhealthy_threshold desired
                then ((fst st)\<lparr>hc_unhealthy_threshold := hc_unhealthy_threshold desired\<rparr>, True)
                else st);
          st = (if hc_healthy_threshold (fst st) \<noteq> hc_healthy_threshold desired
                then ((fst st)\<lparr>hc_healthy_threshold := hc_healthy_threshold desired\<rparr>, True)
                else st)
      in st)"

text \<open>
  \<open>_set_health_check\<close>, lines 657-685. \<open>live_check\<close> is \<open>self.elb.health_check\<close>
  after lines 675-676 (a fresh \<open>HealthCheck()\<close> when the balancer has none).
\<close>

definition set_health_check :: "env \<Rightarrow> config \<Rightarrow> manager \<Rightarrow> error \<times> manager + manager" where
  "set_health_check ev c m =
     (case health_check c of
        None \<Rightarrow> Inr m
      | Some hc \<Rightarrow>
          (case elb m of
             None \<Rightarrow> Inl (AttributeError, m)
           | Some e \<Rightarrow>
               (let live_check = (case elb_health_check e of
                                    None \<Rightarrow> fresh_health_check ev | Some h \<Rightarrow> h);
                    (live_check, update_health_check) =
                       compare_attrs (health_check_config hc) (live_check, False)
                in if update_health_check
                   then Inr ((issue (ConfigureHealthCheck live_check) m)\<lparr>changed := True\<rparr>)
                   else Inr m)))"

subsection \<open>Attributes\<close>

text \<open>\<open>_check_attribute_support\<close>, lines 687-688, at the two names the module asks for.\<close>

definition check_attribute_support :: "env \<Rightarrow> string \<Rightarrow> bool" where
  "check_attribute_support ev attr =
     (if attr = ''connection_draining'' then supports_connection_draining ev
      else if attr = ''cross_zone_load_balancing'' then supports_cross_zone_load_balancing ev
      else False)"

text \<open>\<open>_set_cross_az_load_balancing\<close>, lines 690-697.\<close>

definition set_cross_az_load_balancing :: "config \<Rightarrow> manager \<Rightarrow> error \<times> manager + manager" where
  "set_cross_az_load_balancing c m =
     (case elb m of
        None \<Rightarrow> Inl (AttributeError, m)
      | Some e \<Rightarrow>
          (let m = issue GetAttributes m;
               cross_zone_enabled = (if truthy_bool (cross_az_load_balancing c) then True else False)
           in Inr (issue (ModifyLbAttribute (name c) ''CrossZoneLoadBalancing''
                            (CrossZone cross_zone_enabled)) m)))"

text \<open>\<open>_set_connection_draining_timeout\<close>, lines 699-707.\<close>

definition set_connection_draining_timeout :: "config \<Rightarrow> manager \<Rightarrow> error \<times> manager + manager" where
  "set_connection_draining_timeout c m =
     (case elb m of
        None \<Rightarrow> Inl (AttributeError, m)
      | Some e \<Rightarrow>
          (let m = issue GetAttributes m;
               attributes = connection_draining e
           in case connection_draining_timeout c of
                Some t \<Rightarrow>
                  Inr (issue (ModifyLbAttribute (name c) ''ConnectionDraining''
                                (Draining (attributes\<lparr>cd_enabled := True, cd_timeout := t\<rparr>))) m)
              | None \<Rightarrow>
                  Inr (issue (ModifyLbAttribute (name c) ''ConnectionDraining''
                                (Draining (attributes\<lparr>cd_enabled := False\<rparr>))) m)))"

subsection \<open>Stickiness policies\<close>

text \<open>\<open>s.split('/')[-1]\<close> and \<open>s.replace('_', '-')\<close>.\<close>

definition last_segment :: "string \<Rightarrow> string" where
  "last_segment s = rev (takeWhile (\<lambda>ch. ch \<noteq> CHR ''/'') (rev s))"

definition replace_underscores :: "string \<Rightarrow> string" where
  "replace_underscores s = map (\<lambda>ch. if ch = CHR ''_'' then CHR ''-'' else ch) s"

text \<open>\<open>_policy_name\<close>, lines 709-710.\<close>

definition policy_name :: "env \<Rightarrow> string \<Rightarrow> string" where
  "policy_name ev policy_type =
     replace_underscores (last_segment (module_file ev)) @ ''-'' @ policy_type"

text \<open>
  \<open>_create_policy\<close>, \<open>_delete_policy\<close>, \<open>_update_policy\<close>, lines 712-720.
  \<open>n\<close> is \<open>self.elb.name\<close>.
\<close>

definition create_policy :: "string \<Rightarrow> string \<Rightarrow> string \<Rightarrow> string \<Rightarrow> manager \<Rightarrow> manager" where
  "create_policy n policy_param policy_meth pol m =
     issue (CreateStickinessPolicy policy_meth policy_param n pol) m"

definition delete_policy :: "string \<Rightarrow> string \<Rightarrow> manager \<Rightarrow> manager" where
  "delete_policy n pol m = issue (DeleteLbPolicy n pol) m"

definition update_policy :: "string \<Rightarrow> string \<Rightarrow> string \<Rightarrow> string \<Rightarrow> manager \<Rightarrow> manager" where
  "update_policy n policy_param policy_meth pol m =
     create_policy n policy_param policy_meth pol (delete_policy n pol m)"

text \<open>
  The dict of lines 748-751, port to protocol, as an association list: a later listener
  on a port overwrites the protocol of an earlier one. Python leaves the order of the
  keys open; the model keeps the order of first insertion.
\<close>

fun dict_set :: "('k \<times> 'v) list \<Rightarrow> 'k \<Rightarrow> 'v \<Rightarrow> ('k \<times> 'v) list" where
  "dict_set [] k v = [(k, v)]"
| "dict_set ((k', v') # d) k v = (if k' = k then (k, v) # d else (k', v') # dict_set d k v)"

fun listeners_dict :: "api_listener list \<Rightarrow> (int \<times> string) list \<Rightarrow> (int \<times> string) list" where
  "listeners_dict [] d = d"
| "listeners_dict (l # ls) d =
     listeners_dict ls (dict_set d (api_load_balancer_port l) (api_protocol l))"

text \<open>\<open>_set_listener_policy\<close>, lines 722-725.\<close>

fun set_listener_policy ::
  "string \<Rightarrow> (int \<times> string) list \<Rightarrow> string list \<Rightarrow> manager \<Rightarrow> manager" where
  "set_listener_policy n [] pol m = m"
| "set_listener_policy n ((listener_port, proto) # d) pol m =
     set_listener_policy n d pol
       (if startswith proto ''HTTP'' then issue (SetLbPoliciesOfListener n listener_port pol) m
        else m)"

text \<open>
  \<open>_set_stickiness_policy\<close>, lines 727-739: \<open>pols\<close> is the list
  \<open>getattr(elb_info.policies, attr)\<close>, \<open>pol\<close> is \<open>policy[0]\<close>. The \<open>for\<close> loop stops
  at the first policy with the name; its \<open>else\<close> runs when there is none.
\<close>

definition set_stickiness_policy ::
  "string \<Rightarrow> policy list \<Rightarrow> (int \<times> string) list \<Rightarrow> string \<Rightarrow> string \<Rightarrow> string \<Rightarrow>
   manager \<Rightarrow> manager" where
  "set_stickiness_policy n pols d pol meth param_value m =
     (let m = (case find (\<lambda>p. pol_policy_name p = pol) pols of
                 Some p \<Rightarrow>
                   if pol_param p \<noteq> param_value
                   then (update_policy n param_value meth pol
                           (set_listener_policy n d [] m))\<lparr>changed := True\<rparr>
                   else m
               | None \<Rightarrow> (create_policy n param_value meth pol m)\<lparr>changed := True\<rparr>)
      in set_listener_policy n d [pol] m)"

text \<open>
  The \<open>enabled == False\<close> branches, lines 770-777 (\<open>loadbalancer\<close>) and 796-801
  (\<open>application\<close>). Only the first has the \<open>else\<close> of lines 774-775.
\<close>

definition disable_lb_stickiness ::
  "env \<Rightarrow> string \<Rightarrow> elb \<Rightarrow> (int \<times> string) list \<Rightarrow> manager \<Rightarrow> manager" where
  "disable_lb_stickiness ev n elb_info d m =
     (let policy_type = ''LBCookieStickinessPolicyType'';
          m = (case lb_cookie_stickiness_policies elb_info of
                 p # ps \<Rightarrow>
                   if pol_policy_name p = policy_name ev policy_type
                   then m\<lparr>changed := True\<rparr> else m
               | [] \<Rightarrow> m\<lparr>changed := False\<rparr>);
          m = set_listener_policy n d [] m
      in delete_policy n (policy_name ev policy_type) m)"

definition disable_app_stickiness ::
  "env \<Rightarrow> string \<Rightarrow> elb \<Rightarrow> (int \<times> string) list \<Rightarrow> manager \<Rightarrow> manager" where
  "disable_app_stickiness ev n elb_info d m =
     (let policy_type = ''AppCookieStickinessPolicyType'';
          m = (case app_cookie_stickiness_policies elb_info of
                 p # ps \<Rightarrow>
                   if pol_policy_name p = policy_name ev policy_type
                   then m\<lparr>changed := True\<rparr> else m
               | [] \<Rightarrow> m);
          m = set_listener_policy n d [] m
      in delete_policy n (policy_name ev policy_type) m)"

text \<open>The three messages of \<open>module.fail_json\<close> in lines 745, 759 and 785.\<close>

definition msg_cookie_and_expiration :: string where
  "msg_cookie_and_expiration =
     [CHR 0x27] @ ''cookie'' @ [CHR 0x27] @ '' and '' @ [CHR 0x27] @ ''expiration'' @ [CHR 0x27]
       @ '' can not be set at the same time''"

definition msg_expiration_missing :: string where
  "msg_expiration_missing = ''expiration must be set when type is loadbalancer''"

definition msg_cookie_missing :: string where
  "msg_cookie_missing = ''cookie must be set when type is application''"

text \<open>
  \<open>select_stickiness_policy\<close>, lines 741-804. \<open>elb_info\<close> is the balancer as the
  fetch of line 747 returns it.
\<close>

definition select_stickiness_policy :: "env \<Rightarrow> config \<Rightarrow> manager \<Rightarrow> error \<times> manager + manager" where
  "select_stickiness_policy ev c m =
     (case stickiness c of
        None \<Rightarrow> Inr m
      | Some st \<Rightarrow>
          if cookie st \<noteq> None \<and> expiration st \<noteq> None
          then Inl (FailJson msg_cookie_and_expiration, m)
          else
            (case elb m of
               None \<Rightarrow> Inl (AttributeError, m)
             | Some elb_info \<Rightarrow>
                 (let n = elb_name elb_info;
                      m = issue (GetAllLoadBalancers (Some n)) m;
                      d = listeners_dict (elb_listeners elb_info) []
                  in if stickiness_type st = ''loadbalancer'' then
                       (if enabled st then
                          (case expiration st of
                             None \<Rightarrow> Inl (FailJson msg_expiration_missing, m)
                           | Some ex \<Rightarrow>
                               Inr (set_stickiness_policy n
                                      (lb_cookie_stickiness_policies elb_info) d
                                      (policy_name ev ''LBCookieStickinessPolicyType'')
                                      ''create_lb_cookie_stickiness_policy'' ex m))
                        else Inr (disable_lb_stickiness ev n elb_info d m))
                     else if stickiness_type st = ''application'' then
                       (if enabled st then
                          (case cookie st of
                             None \<Rightarrow> Inl (FailJson msg_cookie_missing, m)
                           | Some ck \<Rightarrow>
                               Inr (set_stickiness_policy n
                                      (app_cookie_stickiness_policies elb_info) d
                                      (policy_name ev ''AppCookieStickinessPolicyType'')
                                      ''create_app_cookie_stickiness_policy'' ck m))
                        else Inr (disable_app_stickiness ev n elb_info d m))
                     else Inr (set_listener_policy n d [] m))))"

subsection \<open>The two entry points\<close>

text \<open>\<open>ensure_ok\<close>, lines 335-354; \<open>ensure_gone\<close> is above, with \<open>_delete_elb\<close>.\<close>

definition ensure_ok :: "env \<Rightarrow> config \<Rightarrow> manager \<Rightarrow> error \<times> manager + manager" where
  "ensure_ok ev c m =
     and_then
       (if elb m = None then Inr (create_elb c m)
        else and_then (set_zones ev c m) (\<lambda>m.
             and_then (set_security_groups c m) (\<lambda>m.
             and_then (set_elb_listeners c m) (\<lambda>m.
             set_subnets c m))))
       (\<lambda>m. and_then (set_health_check ev c m) (\<lambda>m.
            and_then (if check_attribute_support ev ''connection_draining''
                      then set_connection_draining_timeout c m else Inr m) (\<lambda>m.
            and_then (if check_attribute_support ev ''cross_zone_load_balancing''
                      then set_cross_az_load_balancing c m else Inr m) (\<lambda>m.
            select_stickiness_policy ev c m))))"

subsection \<open>Example values\<close>

text \<open>A balancer \<open>web\<close> with one HTTP listener, and a configuration for it.\<close>

definition ex_env :: env where
  "ex_env =
     \<lparr>supports_connection_draining = True, supports_cross_zone_load_balancing = True,
      module_file = ''/tmp/ansible/ec2_elb_lb'',
      fresh_health_check =
        \<lparr>target = None, timeout = 5, hc_interval = 30, hc_unhealthy_threshold = 5,
         hc_healthy_threshold = 3\<rparr>,
      zones_error = (\<lambda>k. None)\<rparr>"

definition ex_listener :: listener where
  "ex_listener =
     \<lparr>load_balancer_port = 80, instance_port = 8080, protocol = ''http'',
      instance_protocol = None, ssl_certificate_id = None\<rparr>"

definition ex_api_listener :: api_listener where
  "ex_api_listener =
     \<lparr>api_load_balancer_port = 80, api_instance_port = 8080, api_protocol = ''HTTP'',
      api_instance_protocol = ''HTTP'', api_ssl_certificate_id = None, api_policy_names = []\<rparr>"

definition ex_elb :: elb where
  "ex_elb =
     \<lparr>elb_name = ''web'', availability_zones = [''us-east-1a''], security_groups = [],
      elb_listeners = [ex_api_listener], elb_subnets = [], elb_health_check = None,
      elb_scheme = ''internet-facing'', lb_cookie_stickiness_policies = [],
      app_cookie_stickiness_policies = [],
      connection_draining = \<lparr>cd_enabled = False, cd_timeout = 300\<rparr>,
      cross_zone_load_balancing = False\<rparr>"

definition ex_config :: config where
  "ex_config =
     \<lparr>name = ''web'', listeners = [ex_listener], purge_listeners = True,
      zones = Some [''us-east-1a''], purge_zones = False, security_group_ids = None,
      health_check = None, subnets = None, purge_subnets = False,
      scheme = ''internet-facing'', connection_draining_timeout = None,
      cross_az_load_balancing = None, stickiness = None\<rparr>"

text \<open>
  A second desired listener (HTTPS on 443 with a certificate) and two more live ones:
  port 80 routed to another instance port, and an SSH listener nobody asked for.
\<close>

definition ex_listener_https :: listener where
  "ex_listener_https =
     \<lparr>load_balancer_port = 443, instance_port = 8443, protocol = ''https'',
      instance_protocol = Some ''http'', ssl_certificate_id = Some ''arn:cert''\<rparr>"

definition ex_api_listener_other :: api_listener where
  "ex_api_listener_other =
     \<lparr>api_load_balancer_port = 80, api_instance_port = 9090, api_protocol = ''HTTP'',
      api_instance_protocol = ''HTTP'', api_ssl_certificate_id = None, api_policy_names = []\<rparr>"

definition ex_api_listener_ssh :: api_listener where
  "ex_api_listener_ssh =
     \<lparr>api_load_balancer_port = 22, api_instance_port = 22, api_protocol = ''TCP'',
      api_instance_protocol = ''TCP'', api_ssl_certificate_id = None, api_policy_names = []\<rparr>"

definition ex_config_two :: config where
  "ex_config_two = ex_config\<lparr>listeners := [ex_listener, ex_listener_https]\<rparr>"

definition ex_elb_stale :: elb where
  "ex_elb_stale = ex_elb\<lparr>elb_listeners := [ex_api_listener_other, ex_api_listener_ssh]\<rparr>"

definition ex_config_sg :: config where
  "ex_config_sg = ex_config\<lparr>security_group_ids := Some [''sg-1'']\<rparr>"

definition ex_config_zones :: config where
  "ex_config_zones =
     ex_config\<lparr>zones := Some [''us-east-1d'', ''us-east-1e''], purge_zones := True\<rparr>"

definition ex_health_check :: health_check_cfg where
  "ex_health_check =
     \<lparr>ping_protocol = ''http'', ping_port = 80, ping_path = Some ''/index.html'',
      response_timeout = 5, interval = 30, unhealthy_threshold = 2, healthy_threshold = 10\<rparr>"

definition ex_config_hc :: config where
  "ex_config_hc = ex_config\<lparr>health_check := Some ex_health_check\<rparr>"

text \<open>
  How a run ended: \<open>final\<close> is the manager when it ended, by returning or by failing;
  \<open>failure\<close> is the error it failed with.
\<close>

definition final :: "error \<times> manager + manager \<Rightarrow> manager" where
  "final r = (case r of Inl (err, m) \<Rightarrow> m | Inr m \<Rightarrow> m)"

definition failure :: "error \<times> manager + manager \<Rightarrow> error option" where
  "failure r = (case r of Inl (err, m) \<Rightarrow> Some err | Inr m \<Rightarrow> None)"

definition ex_stickiness_conflict :: stickiness_cfg where
  "ex_stickiness_conflict =
     \<lparr>stickiness_type = ''loadbalancer'', enabled = True, expiration = Some ''300'',
      cookie = Some ''SESSIONID''\<rparr>"

definition ex_config_conflict :: config where
  "ex_config_conflict =
     ex_config\<lparr>zones := Some [''us-east-1a'', ''us-east-1d''],
               stickiness := Some ex_stickiness_conflict\<rparr>"

definition ex_stickiness_app_off :: stickiness_cfg where
  "ex_stickiness_app_off =
     \<lparr>stickiness_type = ''application'', enabled = False, expiration = None, cookie = None\<rparr>"

definition ex_config_app_off :: config where
  "ex_config_app_off = ex_config\<lparr>stickiness := Some ex_stickiness_app_off\<rparr>"

text \<open>
  The calls the module issues only when it has found a difference between the desired
  and the live state (the attribute calls and the detaching, attaching and deleting of
  policies are issued without such a test).
\<close>

fun is_delta_call :: "call \<Rightarrow> bool" where
  "is_delta_call (CreateLoadBalancer n zs sgs ls sns sch) = True"
| "is_delta_call (CreateLoadBalancerListeners n ts) = True"
| "is_delta_call (DeleteLoadBalancerListeners n ports) = True"
| "is_delta_call (EnableZones zs) = True"
| "is_delta_call (DisableZones zs) = True"
| "is_delta_call (AttachLbToSubnets n sns) = True"
| "is_delta_call (DetachLbFromSubnets n sns) = True"
| "is_delta_call (ApplySecurityGroupsToLb n sgs) = True"
| "is_delta_call (ConfigureHealthCheck h) = True"
| "is_delta_call (CreateStickinessPolicy meth param n pn) = True"
| "is_delta_call k = False"

text \<open>
  When a balancer needs nothing more from \<open>ensure_ok\<close>: one condition for each
  synchronised part.
\<close>

definition members_ok :: "string list option \<Rightarrow> bool \<Rightarrow> string list \<Rightarrow> bool" where
  "members_ok desired purge live \<longleftrightarrow>
     (truthy_list desired \<longrightarrow>
        set (the_list desired) \<subseteq> set live \<and> (purge \<longrightarrow> set live \<subseteq> set (the_list desired)))"

definition security_groups_ok :: "config \<Rightarrow> elb \<Rightarrow> bool" where
  "security_groups_ok c e \<longleftrightarrow>
     (case security_group_ids c of None \<Rightarrow> True | Some sgs \<Rightarrow> set (security_groups e) = set sgs)"

definition listeners_ok :: "config \<Rightarrow> api_listener list \<Rightarrow> bool" where
  "listeners_ok c live \<longleftrightarrow>
     (\<forall>l\<in>set (listeners c).
        existing_listener_found (load_balancer_port l) live = Some (listener_as_tuple l)) \<and>
     (purge_listeners c \<longrightarrow>
        (\<forall>x\<in>set live. api_listener_as_tuple x \<in> listener_as_tuple ` set (listeners c)))"

definition health_check_ok :: "env \<Rightarrow> config \<Rightarrow> elb \<Rightarrow> bool" where
  "health_check_ok ev c e \<longleftrightarrow>
     (case health_check c of
        None \<Rightarrow> True
      | Some hc \<Rightarrow>
          (case elb_health_check e of None \<Rightarrow> fresh_health_check ev | Some h \<Rightarrow> h)
            = health_check_config hc)"

definition policy_ok :: "bool \<Rightarrow> string option \<Rightarrow> string \<Rightarrow> policy list \<Rightarrow> bool" where
  "policy_ok on param_value pn pols \<longleftrightarrow>
     (if on
      then (case param_value of
              None \<Rightarrow> False
            | Some v \<Rightarrow>
                (case find (\<lambda>p. pol_policy_name p = pn) pols of
                   None \<Rightarrow> False | Some p \<Rightarrow> pol_param p = v))
      else (case pols of [] \<Rightarrow> True | p # ps \<Rightarrow> pol_policy_name p \<noteq> pn))"

definition stickiness_ok :: "env \<Rightarrow> config \<Rightarrow> elb \<Rightarrow> bool" where
  "stickiness_ok ev c e \<longleftrightarrow>
     (case stickiness c of
        None \<Rightarrow> True
      | Some st \<Rightarrow>
          (cookie st = None \<or> expiration st = None) \<and>
          (if stickiness_type st = ''loadbalancer''
           then policy_ok (enabled st) (expiration st)
                  (policy_name ev ''LBCookieStickinessPolicyType'')
                  (lb_cookie_stickiness_policies e)
           else if stickiness_type st = ''application''
           then policy_ok (enabled st) (cookie st)
                  (policy_name ev ''AppCookieStickinessPolicyType'')
                  (app_cookie_stickiness_policies e)
           else True))"

definition settled :: "env \<Rightarrow> config \<Rightarrow> elb \<Rightarrow> bool" where
  "settled ev c e \<longleftrightarrow>
     members_ok (zones c) (purge_zones c) (availability_zones e) \<and>
     security_groups_ok c e \<and>
     listeners_ok c (elb_listeners e) \<and>
     members_ok (subnets c) (purge_subnets c) (elb_subnets e) \<and>
     health_check_ok ev c e \<and>
     stickiness_ok ev c e"

text \<open>
  The calls that the source follows with \<open>self.changed = True\<close>: the delta calls
  but the one of \<open>_set_security_groups\<close>.
\<close>

fun is_reported_call :: "call \<Rightarrow> bool" where
  "is_reported_call (ApplySecurityGroupsToLb n sgs) = False"
| "is_reported_call k = is_delta_call k"

text \<open>
  What the provider makes of the tuple of a desired listener (\<open>tuple_listener\<close> at
  \<open>listener_as_tuple\<close>).
\<close>

definition created_listener :: "listener \<Rightarrow> api_listener" where
  "created_listener l =
     \<lparr>api_load_balancer_port = load_balancer_port l, api_instance_port = instance_port l,
      api_protocol = upper (protocol l),
      api_instance_protocol =
        upper (case instance_protocol l of None \<Rightarrow> protocol l | Some ip \<Rightarrow> ip),
      api_ssl_certificate_id = ssl_certificate_id l, api_policy_names = []\<rparr>"

text \<open>
  \<open>reports m m'\<close>: from \<open>m\<close> to \<open>m'\<close> calls were only added, and \<open>changed\<close> is
  set in \<open>m'\<close> if it was set in \<open>m\<close> or if one of the added calls is a reported one.
\<close>

definition reports :: "manager \<Rightarrow> manager \<Rightarrow> bool" where
  "reports m m' \<longleftrightarrow>
     (\<exists>cs. calls m' = calls m @ cs \<and>
           (changed m \<or> (\<exists>k\<in>set cs. is_reported_call k) \<longrightarrow> changed m'))"

text \<open>
  The case in which lines 774-775 run: stickiness of type \<open>loadbalancer\<close> is disabled
  and the balancer has no policy of that kind.
\<close>

definition resets_changed :: "config \<Rightarrow> policy list \<Rightarrow> bool" where
  "resets_changed c pols \<longleftrightarrow>
     (case stickiness c of
        None \<Rightarrow> False
      | Some st \<Rightarrow> stickiness_type st = ''loadbalancer'' \<and> \<not> enabled st \<and> pols = [])"

definition ex_config_drain :: config where
  "ex_config_drain = ex_config\<lparr>connection_draining_timeout := Some 60\<rparr>"

section \<open>Properties\<close>

subsection \<open>Listener tuples\<close>

lemma upper_char_idem: "upper_char (upper_char c) = upper_char c"
  by (auto simp: upper_char_def Let_def)

lemma upper_idem: "upper (upper s) = upper s"
  by (simp add: upper_def upper_char_idem)

lemma length_listener_as_tuple:
  "length (listener_as_tuple l) = (if ssl_certificate_id l = None then 4 else 5)"
  by (simp add: listener_as_tuple_def Let_def split: option.splits)

lemma listener_as_tuple_nth:
  "listener_as_tuple l ! 0 = I (load_balancer_port l)"
  "listener_as_tuple l ! 1 = I (instance_port l)"
  "listener_as_tuple l ! 2 = S (upper (protocol l))"
  "listener_as_tuple l ! 3 =
     S (upper (case instance_protocol l of None \<Rightarrow> protocol l | Some ip \<Rightarrow> ip))"
  by (simp_all add: listener_as_tuple_def Let_def split: option.splits)

lemma listener_as_tuple_cert:
  "ssl_certificate_id l = Some cert \<Longrightarrow> listener_as_tuple l ! 4 = S cert"
  by (simp add: listener_as_tuple_def Let_def split: option.splits)

lemma api_listener_as_tuple_Cons:
  "\<exists>t. api_listener_as_tuple x = I (api_load_balancer_port x) # t"
  by (simp add: api_listener_as_tuple_def get_complex_tuple_def Let_def)

lemma truthy_found:
  "truthy_tuple (existing_listener_found p live) \<longleftrightarrow> existing_listener_found p live \<noteq> None"
proof (induction live)
  case Nil
  show ?case by (simp add: truthy_tuple_def)
next
  case (Cons x xs)
  obtain t where "api_listener_as_tuple x = I (api_load_balancer_port x) # t"
    using api_listener_as_tuple_Cons by blast
  with Cons show ?case by (simp add: truthy_tuple_def)
qed

lemma found_None_iff:
  "existing_listener_found p live = None \<longleftrightarrow> (\<forall>x\<in>set live. api_load_balancer_port x \<noteq> p)"
  by (induction live) auto

lemma found_SomeD:
  "existing_listener_found p live = Some f \<Longrightarrow>
   \<exists>x\<in>set live. api_load_balancer_port x = p \<and> f = api_listener_as_tuple x"
  by (induction live) (auto split: if_splits)

lemma api_listener_as_tuple_nonempty: "api_listener_as_tuple x \<noteq> []"
  by (simp add: api_listener_as_tuple_def get_complex_tuple_def Let_def)

lemma found_nonempty: "existing_listener_found p live = Some f \<Longrightarrow> f \<noteq> []"
  by (auto dest!: found_SomeD simp: api_listener_as_tuple_nonempty)

lemma found_distinct:
  "distinct (map api_load_balancer_port live) \<Longrightarrow> x \<in> set live \<Longrightarrow>
   existing_listener_found (api_load_balancer_port x) live = Some (api_listener_as_tuple x)"
  by (induction live) (auto simp: rev_image_eqI)

lemma scan_desired_eq:
  "scan_desired live ls (a, r, k) =
     (a @ map listener_as_tuple
            [l \<leftarrow> ls. existing_listener_found (load_balancer_port l) live
                        \<noteq> Some (listener_as_tuple l)],
      r @ map (\<lambda>l. the_list (existing_listener_found (load_balancer_port l) live))
            [l \<leftarrow> ls. existing_listener_found (load_balancer_port l) live \<noteq> None \<and>
                      existing_listener_found (load_balancer_port l) live
                        \<noteq> Some (listener_as_tuple l)],
      k @ map listener_as_tuple
            [l \<leftarrow> ls. existing_listener_found (load_balancer_port l) live
                        = Some (listener_as_tuple l)])"
proof (induction ls arbitrary: a r k)
  case Nil
  show ?case by simp
next
  case (Cons l ls)
  show ?case
  proof (cases "existing_listener_found (load_balancer_port l) live")
    case None
    then show ?thesis by (simp add: Cons.IH truthy_tuple_def Let_def)
  next
    case (Some f)
    then have "f \<noteq> []" by (rule found_nonempty)
    with Some show ?thesis by (simp add: Cons.IH truthy_tuple_def Let_def the_list_def)
  qed
qed

lemma set_scan_existing:
  "set (scan_existing live r k) = set r \<union> (api_listener_as_tuple ` set live - set k)"
  by (induction live arbitrary: r) (auto simp: Let_def)


lemma found_set_eq:
  assumes "distinct (map api_load_balancer_port live)" and "set live' = set live"
  shows "existing_listener_found p live' = existing_listener_found p live"
proof (cases "existing_listener_found p live'")
  case None
  then have "\<forall>x\<in>set live. api_load_balancer_port x \<noteq> p"
    using assms(2) by (simp add: found_None_iff)
  then have "existing_listener_found p live = None" by (simp add: found_None_iff)
  with None show ?thesis by simp
next
  case (Some f)
  then obtain x where x: "x \<in> set live'" "api_load_balancer_port x = p"
    "f = api_listener_as_tuple x"
    by (auto dest: found_SomeD)
  from x(1) assms(2) have "x \<in> set live" by simp
  with assms(1) have "existing_listener_found (api_load_balancer_port x) live
    = Some (api_listener_as_tuple x)" by (rule found_distinct)
  with Some x show ?thesis by simp
qed

lemma tuple_eq_port:
  "listener_as_tuple l' = listener_as_tuple l \<Longrightarrow> load_balancer_port l' = load_balancer_port l"
  using listener_as_tuple_nth(1) [of l] listener_as_tuple_nth(1) [of l'] by simp

lemma set_listeners_to_add:
  "set (listeners_to_add c live) =
     listener_as_tuple `
       {l \<in> set (listeners c).
          existing_listener_found (load_balancer_port l) live \<noteq> Some (listener_as_tuple l)}"
  by (simp add: listeners_to_add_def scan_desired_eq)

lemma set_listeners_to_remove:
  "set (listeners_to_remove c live) =
     (\<lambda>l. the_list (existing_listener_found (load_balancer_port l) live)) `
       {l \<in> set (listeners c).
          existing_listener_found (load_balancer_port l) live \<noteq> None \<and>
          existing_listener_found (load_balancer_port l) live \<noteq> Some (listener_as_tuple l)}
     \<union> (if purge_listeners c
        then api_listener_as_tuple ` set live -
             listener_as_tuple `
               {l \<in> set (listeners c).
                  existing_listener_found (load_balancer_port l) live
                    = Some (listener_as_tuple l)}
        else {})"
  by (simp add: listeners_to_remove_def scan_desired_eq set_scan_existing)

lemma to_add_iff:
  assumes "l \<in> set (listeners c)"
  shows "listener_as_tuple l \<in> set (listeners_to_add c live) \<longleftrightarrow>
           (\<forall>x\<in>set live. api_load_balancer_port x \<noteq> load_balancer_port l) \<or>
           (\<exists>f. existing_listener_found (load_balancer_port l) live = Some f \<and>
                f \<noteq> listener_as_tuple l)"
proof -
  have "listener_as_tuple l \<in> set (listeners_to_add c live) \<longleftrightarrow>
          existing_listener_found (load_balancer_port l) live \<noteq> Some (listener_as_tuple l)"
  proof
    assume "listener_as_tuple l \<in> set (listeners_to_add c live)"
    then obtain l' where l': "listener_as_tuple l' = listener_as_tuple l"
      "existing_listener_found (load_balancer_port l') live \<noteq> Some (listener_as_tuple l')"
      by (auto simp: set_listeners_to_add)
    from l'(1) have "load_balancer_port l' = load_balancer_port l" by (rule tuple_eq_port)
    with l' show "existing_listener_found (load_balancer_port l) live
      \<noteq> Some (listener_as_tuple l)" by simp
  next
    assume "existing_listener_found (load_balancer_port l) live \<noteq> Some (listener_as_tuple l)"
    with assms show "listener_as_tuple l \<in> set (listeners_to_add c live)"
      by (simp add: set_listeners_to_add)
  qed
  also have "\<dots> \<longleftrightarrow>
          existing_listener_found (load_balancer_port l) live = None \<or>
          (\<exists>f. existing_listener_found (load_balancer_port l) live = Some f \<and>
               f \<noteq> listener_as_tuple l)"
    by (cases "existing_listener_found (load_balancer_port l) live") auto
  finally show ?thesis by (simp add: found_None_iff)
qed

lemma in_replaced_iff:
  "t \<in> (\<lambda>l. the_list (existing_listener_found (load_balancer_port l) live)) `
       {l \<in> set ls.
          existing_listener_found (load_balancer_port l) live \<noteq> None \<and>
          existing_listener_found (load_balancer_port l) live \<noteq> Some (listener_as_tuple l)}
   \<longleftrightarrow> (\<exists>l\<in>set ls. existing_listener_found (load_balancer_port l) live = Some t \<and>
                    t \<noteq> listener_as_tuple l)"
  (is "?L \<longleftrightarrow> ?R")
proof
  assume ?L
  then obtain l where l: "l \<in> set ls"
    "existing_listener_found (load_balancer_port l) live \<noteq> None"
    "existing_listener_found (load_balancer_port l) live \<noteq> Some (listener_as_tuple l)"
    "t = the_list (existing_listener_found (load_balancer_port l) live)"
    by blast
  from l(2) obtain f where f: "existing_listener_found (load_balancer_port l) live = Some f"
    by blast
  with l(4) have "t = f" by (simp add: the_list_def)
  with f l(1,3) show ?R by blast
next
  assume ?R
  then obtain l where l: "l \<in> set ls"
    "existing_listener_found (load_balancer_port l) live = Some t" "t \<noteq> listener_as_tuple l"
    by blast
  then have "t = the_list (existing_listener_found (load_balancer_port l) live)"
    by (simp add: the_list_def)
  moreover from l have "l \<in> {l \<in> set ls.
          existing_listener_found (load_balancer_port l) live \<noteq> None \<and>
          existing_listener_found (load_balancer_port l) live \<noteq> Some (listener_as_tuple l)}"
    by simp
  ultimately show ?L by (rule image_eqI)
qed

lemma in_kept_iff:
  "t \<in> listener_as_tuple `
       {l \<in> set ls. existing_listener_found (load_balancer_port l) live
                       = Some (listener_as_tuple l)}
   \<longleftrightarrow> (\<exists>l\<in>set ls. existing_listener_found (load_balancer_port l) live
                       = Some (listener_as_tuple l) \<and> listener_as_tuple l = t)"
  by blast

lemma to_remove_iff:
  "t \<in> set (listeners_to_remove c live) \<longleftrightarrow>
     (\<exists>l\<in>set (listeners c).
         existing_listener_found (load_balancer_port l) live = Some t \<and>
         t \<noteq> listener_as_tuple l) \<or>
     (purge_listeners c \<and> t \<in> api_listener_as_tuple ` set live \<and>
      \<not> (\<exists>l\<in>set (listeners c).
           existing_listener_found (load_balancer_port l) live = Some (listener_as_tuple l) \<and>
           listener_as_tuple l = t))"
  unfolding set_listeners_to_remove Un_iff in_replaced_iff
  by (cases "purge_listeners c") (simp_all only: if_True if_False Diff_iff in_kept_iff empty_iff simp_thms)

lemma to_remove_subset:
  "set (listeners_to_remove c live) \<subseteq> api_listener_as_tuple ` set live"
  by (auto simp: to_remove_iff dest!: found_SomeD)

lemma items0_nonempty:
  "\<forall>t\<in>set ts. t \<noteq> [] \<Longrightarrow> items0 ts = Inr (map hd ts)"
  by (induction ts rule: items0.induct) auto

lemma items0_to_remove:
  "items0 (listeners_to_remove c live) = Inr (map hd (listeners_to_remove c live))"
proof (rule items0_nonempty)
  show "\<forall>t\<in>set (listeners_to_remove c live). t \<noteq> []"
  proof
    fix t assume "t \<in> set (listeners_to_remove c live)"
    then have "t \<in> api_listener_as_tuple ` set live"
      using to_remove_subset [of c live] by blast
    then show "t \<noteq> []" by (auto simp: api_listener_as_tuple_nonempty)
  qed
qed

lemma calls_issue: "calls (issue k m) = calls m @ [k]"
  by (simp add: issue_def)

lemma set_elb_listeners_eq:
  assumes "elb m = Some e"
  shows "set_elb_listeners c m =
           Inr ((if listeners_to_add c (elb_listeners e) \<noteq> []
                 then create_elb_listeners c (listeners_to_add c (elb_listeners e))
                 else id)
                ((if listeners_to_remove c (elb_listeners e) \<noteq> []
                  then (\<lambda>m. (issue (DeleteLoadBalancerListeners (name c)
                                      (map hd (listeners_to_remove c (elb_listeners e)))) m)
                             \<lparr>changed := True\<rparr>)
                  else id) m))"
proof -
  have d: "delete_elb_listeners c (listeners_to_remove c (elb_listeners e)) m =
      Inr ((issue (DeleteLoadBalancerListeners (name c)
                     (map hd (listeners_to_remove c (elb_listeners e)))) m)\<lparr>changed := True\<rparr>)"
    by (simp add: delete_elb_listeners_def items0_to_remove)
  show ?thesis
    unfolding set_elb_listeners_def assms option.case Let_def d and_then_def
    by (cases "listeners_to_remove c (elb_listeners e) = []";
        cases "listeners_to_add c (elb_listeners e) = []") simp_all
qed

lemma set_elb_listeners_calls:
  assumes "elb m = Some e"
  shows "\<exists>m'. set_elb_listeners c m = Inr m' \<and>
           calls m' = calls m @
             (if listeners_to_remove c (elb_listeners e) \<noteq> []
              then [DeleteLoadBalancerListeners (name c)
                      (map hd (listeners_to_remove c (elb_listeners e)))]
              else []) @
             (if listeners_to_add c (elb_listeners e) \<noteq> []
              then [CreateLoadBalancerListeners (name c) (listeners_to_add c (elb_listeners e))]
              else [])"
  unfolding set_elb_listeners_eq [OF assms]
  by (cases "listeners_to_remove c (elb_listeners e) = []";
      cases "listeners_to_add c (elb_listeners e) = []")
     (simp_all add: create_elb_listeners_def calls_issue)

lemma listeners_order_independent:
  assumes "set (listeners c') = set (listeners c)" "purge_listeners c' = purge_listeners c"
    "set live' = set live" "distinct (map api_load_balancer_port live)"
  shows "set (listeners_to_add c' live') = set (listeners_to_add c live) \<and>
         set (listeners_to_remove c' live') = set (listeners_to_remove c live)"
proof -
  have f: "\<And>p. existing_listener_found p live' = existing_listener_found p live"
    using assms(4,3) by (rule found_set_eq)
  show ?thesis
    by (simp add: set_listeners_to_add set_listeners_to_remove f assms(1,2,3))
qed


lemma case_variant_tuple:
  assumes "upper p = upper (protocol l)"
    and "map_option upper ip = map_option upper (instance_protocol l)"
  shows "listener_as_tuple (l\<lparr>protocol := p, instance_protocol := ip\<rparr>) = listener_as_tuple l"
  using assms by (cases ip; cases "instance_protocol l") (simp_all add: listener_as_tuple_def)

lemma matching_live_tuple:
  assumes "api_load_balancer_port x = load_balancer_port l"
    and "api_instance_port x = instance_port l"
    and "api_protocol x = upper (protocol l)"
    and "api_instance_protocol x =
           upper (case instance_protocol l of None \<Rightarrow> protocol l | Some ip \<Rightarrow> ip)"
    and "api_ssl_certificate_id x = ssl_certificate_id l"
    and "ssl_certificate_id l \<noteq> Some []"
  shows "api_listener_as_tuple x = listener_as_tuple l"
  using assms
  by (cases "instance_protocol l"; cases "ssl_certificate_id l")
     (simp_all add: api_listener_as_tuple_def listener_as_tuple_def get_complex_tuple_def
        truthy_str_def)

lemma kept_not_added:
  assumes "existing_listener_found (load_balancer_port l) live = Some (listener_as_tuple l)"
  shows "listener_as_tuple l \<notin> set (listeners_to_add c live)"
proof
  assume "listener_as_tuple l \<in> set (listeners_to_add c live)"
  then obtain l' where l': "listener_as_tuple l' = listener_as_tuple l"
    "existing_listener_found (load_balancer_port l') live \<noteq> Some (listener_as_tuple l')"
    by (auto simp: set_listeners_to_add)
  from l'(1) have "load_balancer_port l' = load_balancer_port l" by (rule tuple_eq_port)
  with l' assms show False by simp
qed

subsection \<open>The canonical tuple of a desired listener\<close>

lemma ex_upper: "upper ''http'' = ''HTTP''" "upper ''Http'' = ''HTTP''" "upper ''hTTp'' = ''HTTP''"
  "upper ''https'' = ''HTTPS''" "upper ''HTTP'' = ''HTTP''"
  by (simp_all add: upper_def upper_char_def char_of_def bit_Suc_0_iff)

lemma ex_tuples:
  "listener_as_tuple ex_listener = [I 80, I 8080, S ''HTTP'', S ''HTTP'']"
  "listener_as_tuple (ex_listener\<lparr>protocol := ''Http'', instance_protocol := Some ''hTTp''\<rparr>)
     = [I 80, I 8080, S ''HTTP'', S ''HTTP'']"
  "listener_as_tuple ex_listener_https
     = [I 443, I 8443, S ''HTTPS'', S ''HTTP'', S ''arn:cert'']"
  "api_listener_as_tuple ex_api_listener = [I 80, I 8080, S ''HTTP'', S ''HTTP'']"
  "api_listener_as_tuple ex_api_listener_other = [I 80, I 9090, S ''HTTP'', S ''HTTP'']"
  "api_listener_as_tuple ex_api_listener_ssh = [I 22, I 22, S ''TCP'', S ''TCP'']"
  by (simp_all add: listener_as_tuple_def api_listener_as_tuple_def get_complex_tuple_def
      truthy_str_def ex_listener_def ex_listener_https_def ex_api_listener_def
      ex_api_listener_other_def ex_api_listener_ssh_def ex_upper)

text \<open>
  Claim C9. \<open>_listener_as_tuple\<close> returns a tuple of at least four elements; its
  third and fourth elements are upper-cased strings (fixed points of \<open>upper\<close>); the
  fourth is the upper-cased protocol when \<open>instance_protocol\<close> is omitted; there is a
  fifth element, the certificate id, iff the input has one. The tuple does not depend on
  the letter case of the two protocols, and a desired listener whose live partner on the
  port has the same fields up to that case has the partner's tuple and is not added.
\<close>

theorem listener_as_tuple_normalized:
  "4 \<le> length (listener_as_tuple l) \<and>
   listener_as_tuple l ! 2 = S (upper (protocol l)) \<and>
   upper (upper (protocol l)) = upper (protocol l) \<and>
   (\<exists>ip. listener_as_tuple l ! 3 = S (upper ip) \<and> upper (upper ip) = upper ip) \<and>
   (instance_protocol l = None \<longrightarrow> listener_as_tuple l ! 3 = S (upper (protocol l))) \<and>
   (length (listener_as_tuple l) = 5 \<longleftrightarrow> ssl_certificate_id l \<noteq> None) \<and>
   (\<forall>cert. ssl_certificate_id l = Some cert \<longrightarrow> listener_as_tuple l ! 4 = S cert) \<and>
   (\<forall>p ip. upper p = upper (protocol l) \<and>
      map_option upper ip = map_option upper (instance_protocol l) \<longrightarrow>
      listener_as_tuple (l\<lparr>protocol := p, instance_protocol := ip\<rparr>) = listener_as_tuple l) \<and>
   (\<forall>x c live.
      api_load_balancer_port x = load_balancer_port l \<and>
      api_instance_port x = instance_port l \<and>
      api_protocol x = upper (protocol l) \<and>
      api_instance_protocol x =
        upper (case instance_protocol l of None \<Rightarrow> protocol l | Some ip \<Rightarrow> ip) \<and>
      api_ssl_certificate_id x = ssl_certificate_id l \<and> ssl_certificate_id l \<noteq> Some [] \<and>
      existing_listener_found (load_balancer_port l) live = Some (api_listener_as_tuple x) \<longrightarrow>
      api_listener_as_tuple x = listener_as_tuple l \<and>
      listener_as_tuple l \<notin> set (listeners_to_add c live))"
proof -
  have a: "4 \<le> length (listener_as_tuple l)"
    by (simp add: length_listener_as_tuple)
  have b: "\<exists>ip. listener_as_tuple l ! 3 = S (upper ip) \<and> upper (upper ip) = upper ip"
    using listener_as_tuple_nth(4) [of l] upper_idem by blast
  have c: "instance_protocol l = None \<longrightarrow> listener_as_tuple l ! 3 = S (upper (protocol l))"
    by (simp add: listener_as_tuple_nth(4))
  have d: "length (listener_as_tuple l) = 5 \<longleftrightarrow> ssl_certificate_id l \<noteq> None"
    by (simp add: length_listener_as_tuple)
  have e: "\<forall>cert. ssl_certificate_id l = Some cert \<longrightarrow> listener_as_tuple l ! 4 = S cert"
    by (simp add: listener_as_tuple_cert)
  have f: "\<forall>p ip. upper p = upper (protocol l) \<and>
      map_option upper ip = map_option upper (instance_protocol l) \<longrightarrow>
      listener_as_tuple (l\<lparr>protocol := p, instance_protocol := ip\<rparr>) = listener_as_tuple l"
    using case_variant_tuple by blast
  have g: "\<forall>x c live.
      api_load_balancer_port x = load_balancer_port l \<and>
      api_instance_port x = instance_port l \<and>
      api_protocol x = upper (protocol l) \<and>
      api_instance_protocol x =
        upper (case instance_protocol l of None \<Rightarrow> protocol l | Some ip \<Rightarrow> ip) \<and>
      api_ssl_certificate_id x = ssl_certificate_id l \<and> ssl_certificate_id l \<noteq> Some [] \<and>
      existing_listener_found (load_balancer_port l) live = Some (api_listener_as_tuple x) \<longrightarrow>
      api_listener_as_tuple x = listener_as_tuple l \<and>
      listener_as_tuple l \<notin> set (listeners_to_add c live)"
  proof (intro allI impI, elim conjE)
    fix x c live
    assume h: "api_load_balancer_port x = load_balancer_port l"
      "api_instance_port x = instance_port l"
      "api_protocol x = upper (protocol l)"
      "api_instance_protocol x =
        upper (case instance_protocol l of None \<Rightarrow> protocol l | Some ip \<Rightarrow> ip)"
      "api_ssl_certificate_id x = ssl_certificate_id l" "ssl_certificate_id l \<noteq> Some []"
      and found: "existing_listener_found (load_balancer_port l) live
        = Some (api_listener_as_tuple x)"
    from h have eq: "api_listener_as_tuple x = listener_as_tuple l"
      by (rule matching_live_tuple)
    with found have "listener_as_tuple l \<notin> set (listeners_to_add c live)"
      by (simp add: kept_not_added)
    with eq show "api_listener_as_tuple x = listener_as_tuple l \<and>
      listener_as_tuple l \<notin> set (listeners_to_add c live)" by simp
  qed
  note n2 = listener_as_tuple_nth(3) [of l]
  note ui = upper_idem [of "protocol l"]
  show ?thesis
    by (rule conjI [OF a conjI [OF n2 conjI [OF ui conjI [OF b conjI [OF c conjI [OF d
         conjI [OF e conjI [OF f g]]]]]]]])
qed

theorem listener_as_tuple_normalized_witness:
  "instance_protocol ex_listener = None \<and>
   listener_as_tuple ex_listener ! 3 = S ''HTTP'' \<and>
   ssl_certificate_id ex_listener_https = Some ''arn:cert'' \<and>
   listener_as_tuple ex_listener_https ! 4 = S ''arn:cert'' \<and>
   upper ''Http'' = upper (protocol ex_listener) \<and>
   listener_as_tuple (ex_listener\<lparr>protocol := ''Http'', instance_protocol := None\<rparr>)
     = listener_as_tuple ex_listener \<and>
   existing_listener_found (load_balancer_port ex_listener) [ex_api_listener]
     = Some (api_listener_as_tuple ex_api_listener) \<and>
   api_listener_as_tuple ex_api_listener = listener_as_tuple ex_listener \<and>
   listener_as_tuple ex_listener \<notin> set (listeners_to_add ex_config [ex_api_listener])"
proof -
  note t = listener_as_tuple_normalized [of ex_listener]
  note t2 = listener_as_tuple_normalized [of ex_listener_https]
  have h1: "instance_protocol ex_listener = None" by (simp add: ex_listener_def)
  have h2: "ssl_certificate_id ex_listener_https = Some ''arn:cert''"
    by (simp add: ex_listener_https_def)
  have h3: "upper ''Http'' = upper (protocol ex_listener)"
    by (simp add: ex_listener_def ex_upper)
  have h4: "map_option upper None = map_option upper (instance_protocol ex_listener)"
    by (simp add: ex_listener_def)
  have h5: "existing_listener_found (load_balancer_port ex_listener) [ex_api_listener]
     = Some (api_listener_as_tuple ex_api_listener)"
    by (simp add: ex_listener_def ex_api_listener_def)
  have h6: "api_load_balancer_port ex_api_listener = load_balancer_port ex_listener \<and>
      api_instance_port ex_api_listener = instance_port ex_listener \<and>
      api_protocol ex_api_listener = upper (protocol ex_listener) \<and>
      api_instance_protocol ex_api_listener =
        upper (case instance_protocol ex_listener of None \<Rightarrow> protocol ex_listener
               | Some ip \<Rightarrow> ip) \<and>
      api_ssl_certificate_id ex_api_listener = ssl_certificate_id ex_listener \<and>
      ssl_certificate_id ex_listener \<noteq> Some []"
    by (simp add: ex_listener_def ex_api_listener_def ex_upper)
  from t have "instance_protocol ex_listener = None \<longrightarrow>
      listener_as_tuple ex_listener ! 3 = S (upper (protocol ex_listener))"
    by (elim conjE)
  with h1 have "listener_as_tuple ex_listener ! 3 = S (upper (protocol ex_listener))"
    by blast
  then have c1: "listener_as_tuple ex_listener ! 3 = S ''HTTP''"
    by (simp add: ex_listener_def ex_upper)
  from t2 have "\<forall>cert. ssl_certificate_id ex_listener_https = Some cert \<longrightarrow>
      listener_as_tuple ex_listener_https ! 4 = S cert"
    by (elim conjE)
  with h2 have c2: "listener_as_tuple ex_listener_https ! 4 = S ''arn:cert''" by simp
  from t have "\<forall>p ip. upper p = upper (protocol ex_listener) \<and>
      map_option upper ip = map_option upper (instance_protocol ex_listener) \<longrightarrow>
      listener_as_tuple (ex_listener\<lparr>protocol := p, instance_protocol := ip\<rparr>)
        = listener_as_tuple ex_listener"
    by (elim conjE)
  with h3 h4 have c3:
    "listener_as_tuple (ex_listener\<lparr>protocol := ''Http'', instance_protocol := None\<rparr>)
     = listener_as_tuple ex_listener" by blast
  from t have "\<forall>x c live.
      api_load_balancer_port x = load_balancer_port ex_listener \<and>
      api_instance_port x = instance_port ex_listener \<and>
      api_protocol x = upper (protocol ex_listener) \<and>
      api_instance_protocol x =
        upper (case instance_protocol ex_listener of None \<Rightarrow> protocol ex_listener
               | Some ip \<Rightarrow> ip) \<and>
      api_ssl_certificate_id x = ssl_certificate_id ex_listener \<and>
      ssl_certificate_id ex_listener \<noteq> Some [] \<and>
      existing_listener_found (load_balancer_port ex_listener) live
        = Some (api_listener_as_tuple x) \<longrightarrow>
      api_listener_as_tuple x = listener_as_tuple ex_listener \<and>
      listener_as_tuple ex_listener \<notin> set (listeners_to_add c live)"
    by (elim conjE)
  with h5 h6 have c4: "api_listener_as_tuple ex_api_listener = listener_as_tuple ex_listener \<and>
   listener_as_tuple ex_listener \<notin> set (listeners_to_add ex_config [ex_api_listener])"
    by blast
  show ?thesis
    by (rule conjI [OF h1 conjI [OF c1 conjI [OF h2 conjI [OF c2 conjI [OF h3 conjI [OF c3
         conjI [OF h5 c4]]]]]]])
qed

subsection \<open>Listener synchronisation\<close>

lemma to_remove_live_iff:
  assumes "x \<in> set live"
  shows "api_listener_as_tuple x \<in> set (listeners_to_remove c live) \<longleftrightarrow>
     (\<exists>l\<in>set (listeners c).
         existing_listener_found (load_balancer_port l) live = Some (api_listener_as_tuple x) \<and>
         api_listener_as_tuple x \<noteq> listener_as_tuple l) \<or>
     (purge_listeners c \<and>
      \<not> (\<exists>l\<in>set (listeners c).
           existing_listener_found (load_balancer_port l) live = Some (listener_as_tuple l) \<and>
           listener_as_tuple l = api_listener_as_tuple x) \<and>
      \<not> (\<exists>l\<in>set (listeners c).
           existing_listener_found (load_balancer_port l) live = Some (api_listener_as_tuple x) \<and>
           api_listener_as_tuple x \<noteq> listener_as_tuple l))"
proof -
  from assms have "api_listener_as_tuple x \<in> api_listener_as_tuple ` set live"
    by (rule imageI)
  then show ?thesis
    unfolding to_remove_iff [of "api_listener_as_tuple x" c live] by blast
qed

text \<open>
  Claim C1. With a balancer \<open>e\<close>, \<open>_set_elb_listeners\<close> computes the additions
  and removals that equality of tuples per port implies. A desired listener is added iff
  no live listener is on its port or the live listener found on the port has another
  tuple; every addition is the tuple of a desired listener. A live listener is removed
  iff it is the listener found for a desired one and differs from it, or purging is on
  and its tuple is neither kept nor already queued; every removal is the tuple of a live
  listener. The calls issued are the deletion of the removed ports, if any, followed by
  the creation of the additions, if any. When the live listeners have distinct ports,
  the two sets do not depend on the order of the desired or of the live listeners.
\<close>

theorem set_elb_listeners_diff:
  assumes "elb m = Some e"
  shows
   "(\<forall>l\<in>set (listeners c).
        listener_as_tuple l \<in> set (listeners_to_add c (elb_listeners e)) \<longleftrightarrow>
          (\<forall>x\<in>set (elb_listeners e). api_load_balancer_port x \<noteq> load_balancer_port l) \<or>
          (\<exists>f. existing_listener_found (load_balancer_port l) (elb_listeners e) = Some f \<and>
               f \<noteq> listener_as_tuple l)) \<and>
    set (listeners_to_add c (elb_listeners e)) \<subseteq> listener_as_tuple ` set (listeners c) \<and>
    (\<forall>x\<in>set (elb_listeners e).
        api_listener_as_tuple x \<in> set (listeners_to_remove c (elb_listeners e)) \<longleftrightarrow>
          (\<exists>l\<in>set (listeners c).
              existing_listener_found (load_balancer_port l) (elb_listeners e)
                = Some (api_listener_as_tuple x) \<and>
              api_listener_as_tuple x \<noteq> listener_as_tuple l) \<or>
          (purge_listeners c \<and>
           \<not> (\<exists>l\<in>set (listeners c).
                existing_listener_found (load_balancer_port l) (elb_listeners e)
                  = Some (listener_as_tuple l) \<and>
                listener_as_tuple l = api_listener_as_tuple x) \<and>
           \<not> (\<exists>l\<in>set (listeners c).
                existing_listener_found (load_balancer_port l) (elb_listeners e)
                  = Some (api_listener_as_tuple x) \<and>
                api_listener_as_tuple x \<noteq> listener_as_tuple l))) \<and>
    set (listeners_to_remove c (elb_listeners e))
      \<subseteq> api_listener_as_tuple ` set (elb_listeners e) \<and>
    (\<exists>m'. set_elb_listeners c m = Inr m' \<and>
          calls m' = calls m @
            (if listeners_to_remove c (elb_listeners e) \<noteq> []
             then [DeleteLoadBalancerListeners (name c)
                     (map hd (listeners_to_remove c (elb_listeners e)))]
             else []) @
            (if listeners_to_add c (elb_listeners e) \<noteq> []
             then [CreateLoadBalancerListeners (name c) (listeners_to_add c (elb_listeners e))]
             else [])) \<and>
    (\<forall>c' live'.
        set (listeners c') = set (listeners c) \<and> purge_listeners c' = purge_listeners c \<and>
        set live' = set (elb_listeners e) \<and>
        distinct (map api_load_balancer_port (elb_listeners e)) \<longrightarrow>
        set (listeners_to_add c' live') = set (listeners_to_add c (elb_listeners e)) \<and>
        set (listeners_to_remove c' live') = set (listeners_to_remove c (elb_listeners e)))"
proof (intro conjI)
  show "\<forall>l\<in>set (listeners c).
        listener_as_tuple l \<in> set (listeners_to_add c (elb_listeners e)) \<longleftrightarrow>
          (\<forall>x\<in>set (elb_listeners e). api_load_balancer_port x \<noteq> load_balancer_port l) \<or>
          (\<exists>f. existing_listener_found (load_balancer_port l) (elb_listeners e) = Some f \<and>
               f \<noteq> listener_as_tuple l)"
    using to_add_iff by blast
  show "set (listeners_to_add c (elb_listeners e)) \<subseteq> listener_as_tuple ` set (listeners c)"
    unfolding set_listeners_to_add by blast
  show "\<forall>x\<in>set (elb_listeners e).
        api_listener_as_tuple x \<in> set (listeners_to_remove c (elb_listeners e)) \<longleftrightarrow>
          (\<exists>l\<in>set (listeners c).
              existing_listener_found (load_balancer_port l) (elb_listeners e)
                = Some (api_listener_as_tuple x) \<and>
              api_listener_as_tuple x \<noteq> listener_as_tuple l) \<or>
          (purge_listeners c \<and>
           \<not> (\<exists>l\<in>set (listeners c).
                existing_listener_found (load_balancer_port l) (elb_listeners e)
                  = Some (listener_as_tuple l) \<and>
                listener_as_tuple l = api_listener_as_tuple x) \<and>
           \<not> (\<exists>l\<in>set (listeners c).
                existing_listener_found (load_balancer_port l) (elb_listeners e)
                  = Some (api_listener_as_tuple x) \<and>
                api_listener_as_tuple x \<noteq> listener_as_tuple l))"
    by (rule ballI) (rule to_remove_live_iff)
  show "set (listeners_to_remove c (elb_listeners e))
      \<subseteq> api_listener_as_tuple ` set (elb_listeners e)"
    by (rule to_remove_subset)
  show "\<exists>m'. set_elb_listeners c m = Inr m' \<and>
          calls m' = calls m @
            (if listeners_to_remove c (elb_listeners e) \<noteq> []
             then [DeleteLoadBalancerListeners (name c)
                     (map hd (listeners_to_remove c (elb_listeners e)))]
             else []) @
            (if listeners_to_add c (elb_listeners e) \<noteq> []
             then [CreateLoadBalancerListeners (name c) (listeners_to_add c (elb_listeners e))]
             else [])"
    using assms by (rule set_elb_listeners_calls)
  show "\<forall>c' live'.
        set (listeners c') = set (listeners c) \<and> purge_listeners c' = purge_listeners c \<and>
        set live' = set (elb_listeners e) \<and>
        distinct (map api_load_balancer_port (elb_listeners e)) \<longrightarrow>
        set (listeners_to_add c' live') = set (listeners_to_add c (elb_listeners e)) \<and>
        set (listeners_to_remove c' live') = set (listeners_to_remove c (elb_listeners e))"
    using listeners_order_independent by blast
qed


lemma ex_ports:
  "load_balancer_port ex_listener = 80" "load_balancer_port ex_listener_https = 443"
  "api_load_balancer_port ex_api_listener = 80"
  "api_load_balancer_port ex_api_listener_other = 80"
  "api_load_balancer_port ex_api_listener_ssh = 22"
  by (simp_all add: ex_listener_def ex_listener_https_def ex_api_listener_def
      ex_api_listener_other_def ex_api_listener_ssh_def)

lemma ex_config_two_fields:
  "listeners ex_config_two = [ex_listener, ex_listener_https]"
  "purge_listeners ex_config_two = True" "name ex_config_two = ''web''"
  by (simp_all add: ex_config_two_def ex_config_def)

lemma ex_elb_stale_listeners:
  "elb_listeners ex_elb_stale = [ex_api_listener_other, ex_api_listener_ssh]"
  by (simp add: ex_elb_stale_def ex_elb_def)

lemma ex_scan:
  "scan_desired [ex_api_listener_other, ex_api_listener_ssh] [ex_listener, ex_listener_https]
     ([], [], []) =
     ([[I 80, I 8080, S ''HTTP'', S ''HTTP''],
       [I 443, I 8443, S ''HTTPS'', S ''HTTP'', S ''arn:cert'']],
      [[I 80, I 9090, S ''HTTP'', S ''HTTP'']], [])"
  by (simp add: ex_ports ex_tuples truthy_tuple_def the_list_def)

lemma ex_to_add:
  "listeners_to_add ex_config_two [ex_api_listener_other, ex_api_listener_ssh] =
     [[I 80, I 8080, S ''HTTP'', S ''HTTP''],
      [I 443, I 8443, S ''HTTPS'', S ''HTTP'', S ''arn:cert'']]"
  unfolding listeners_to_add_def ex_config_two_fields ex_scan by simp

lemma ex_to_remove:
  "listeners_to_remove ex_config_two [ex_api_listener_other, ex_api_listener_ssh] =
     [[I 80, I 9090, S ''HTTP'', S ''HTTP''], [I 22, I 22, S ''TCP'', S ''TCP'']]"
  unfolding listeners_to_remove_def ex_config_two_fields ex_scan by (simp add: ex_tuples)

theorem set_elb_listeners_diff_witness:
  "elb (init (Some ex_elb_stale)) = Some ex_elb_stale \<and>
   ex_listener \<in> set (listeners ex_config_two) \<and>
   existing_listener_found (load_balancer_port ex_listener) (elb_listeners ex_elb_stale)
     = Some [I 80, I 9090, S ''HTTP'', S ''HTTP''] \<and>
   [I 80, I 9090, S ''HTTP'', S ''HTTP''] \<noteq> listener_as_tuple ex_listener \<and>
   listener_as_tuple ex_listener
     \<in> set (listeners_to_add ex_config_two (elb_listeners ex_elb_stale)) \<and>
   (case set_elb_listeners ex_config_two (init (Some ex_elb_stale)) of
      Inl err \<Rightarrow> [] | Inr m' \<Rightarrow> calls m') =
     [GetAllLoadBalancers None,
      DeleteLoadBalancerListeners ''web'' [I 80, I 22],
      CreateLoadBalancerListeners ''web''
        [[I 80, I 8080, S ''HTTP'', S ''HTTP''],
         [I 443, I 8443, S ''HTTPS'', S ''HTTP'', S ''arn:cert'']]] \<and>
   set (listeners_to_remove (ex_config_two\<lparr>listeners := [ex_listener_https, ex_listener]\<rparr>)
          [ex_api_listener_ssh, ex_api_listener_other])
     = set (listeners_to_remove ex_config_two (elb_listeners ex_elb_stale))"
proof -
  have h0: "elb (init (Some ex_elb_stale)) = Some ex_elb_stale" by (simp add: init_def)
  note t = set_elb_listeners_diff [OF h0, of ex_config_two]
  have h1: "ex_listener \<in> set (listeners ex_config_two)"
    by (simp add: ex_config_two_fields)
  have h2: "existing_listener_found (load_balancer_port ex_listener)
      (elb_listeners ex_elb_stale) = Some [I 80, I 9090, S ''HTTP'', S ''HTTP'']"
    by (simp add: ex_elb_stale_listeners ex_ports ex_tuples)
  have h3: "[I 80, I 9090, S ''HTTP'', S ''HTTP''] \<noteq> listener_as_tuple ex_listener"
    by (simp add: ex_tuples)
  from t have "\<forall>l\<in>set (listeners ex_config_two).
        listener_as_tuple l \<in> set (listeners_to_add ex_config_two (elb_listeners ex_elb_stale))
        \<longleftrightarrow>
          (\<forall>x\<in>set (elb_listeners ex_elb_stale).
              api_load_balancer_port x \<noteq> load_balancer_port l) \<or>
          (\<exists>f. existing_listener_found (load_balancer_port l) (elb_listeners ex_elb_stale)
                 = Some f \<and> f \<noteq> listener_as_tuple l)"
    by (elim conjE)
  with h1 h2 h3 have c1: "listener_as_tuple ex_listener
     \<in> set (listeners_to_add ex_config_two (elb_listeners ex_elb_stale))"
    by blast
  from t obtain m' where m': "set_elb_listeners ex_config_two (init (Some ex_elb_stale)) = Inr m'"
    "calls m' = calls (init (Some ex_elb_stale)) @
            (if listeners_to_remove ex_config_two (elb_listeners ex_elb_stale) \<noteq> []
             then [DeleteLoadBalancerListeners (name ex_config_two)
                     (map hd (listeners_to_remove ex_config_two (elb_listeners ex_elb_stale)))]
             else []) @
            (if listeners_to_add ex_config_two (elb_listeners ex_elb_stale) \<noteq> []
             then [CreateLoadBalancerListeners (name ex_config_two)
                     (listeners_to_add ex_config_two (elb_listeners ex_elb_stale))]
             else [])"
    by (elim conjE exE)
  have c2: "(case set_elb_listeners ex_config_two (init (Some ex_elb_stale)) of
      Inl err \<Rightarrow> [] | Inr m' \<Rightarrow> calls m') =
     [GetAllLoadBalancers None,
      DeleteLoadBalancerListeners ''web'' [I 80, I 22],
      CreateLoadBalancerListeners ''web''
        [[I 80, I 8080, S ''HTTP'', S ''HTTP''],
         [I 443, I 8443, S ''HTTPS'', S ''HTTP'', S ''arn:cert'']]]"
  proof -
    have "(case set_elb_listeners ex_config_two (init (Some ex_elb_stale)) of
      Inl err \<Rightarrow> [] | Inr m' \<Rightarrow> calls m') = calls m'"
      by (simp add: m'(1))
    also have "\<dots> = [GetAllLoadBalancers None,
      DeleteLoadBalancerListeners ''web'' [I 80, I 22],
      CreateLoadBalancerListeners ''web''
        [[I 80, I 8080, S ''HTTP'', S ''HTTP''],
         [I 443, I 8443, S ''HTTPS'', S ''HTTP'', S ''arn:cert'']]]"
      unfolding m'(2)
      by (simp add: ex_elb_stale_listeners ex_to_add ex_to_remove ex_config_two_fields
          init_def)
    finally show ?thesis .
  qed
  have h4: "set (listeners (ex_config_two\<lparr>listeners := [ex_listener_https, ex_listener]\<rparr>))
      = set (listeners ex_config_two) \<and>
    purge_listeners (ex_config_two\<lparr>listeners := [ex_listener_https, ex_listener]\<rparr>)
      = purge_listeners ex_config_two \<and>
    set [ex_api_listener_ssh, ex_api_listener_other] = set (elb_listeners ex_elb_stale) \<and>
    distinct (map api_load_balancer_port (elb_listeners ex_elb_stale))"
    by (auto simp add: ex_config_two_fields ex_elb_stale_listeners ex_ports)
  from t have "\<forall>c' live'.
        set (listeners c') = set (listeners ex_config_two) \<and>
        purge_listeners c' = purge_listeners ex_config_two \<and>
        set live' = set (elb_listeners ex_elb_stale) \<and>
        distinct (map api_load_balancer_port (elb_listeners ex_elb_stale)) \<longrightarrow>
        set (listeners_to_add c' live')
          = set (listeners_to_add ex_config_two (elb_listeners ex_elb_stale)) \<and>
        set (listeners_to_remove c' live')
          = set (listeners_to_remove ex_config_two (elb_listeners ex_elb_stale))"
    by (elim conjE)
  with h4 have c3:
    "set (listeners_to_remove (ex_config_two\<lparr>listeners := [ex_listener_https, ex_listener]\<rparr>)
          [ex_api_listener_ssh, ex_api_listener_other])
     = set (listeners_to_remove ex_config_two (elb_listeners ex_elb_stale))"
    by blast
  show ?thesis
    by (rule conjI [OF h0 conjI [OF h1 conjI [OF h2 conjI [OF h3 conjI [OF c1 conjI [OF c2 c3]]]]]])
qed

subsection \<open>Security groups\<close>

lemma changed_issue: "changed (issue k m) = changed m"
  by (simp add: issue_def)

lemma set_security_groups_differ:
  assumes "security_group_ids c = Some sgs" "elb m = Some e"
    "set (security_groups e) \<noteq> set sgs"
  shows "set_security_groups c m =
           Inr ((issue (ApplySecurityGroupsToLb (name c) sgs) m)\<lparr>Changed := Some True\<rparr>)"
  using assms by (simp add: set_security_groups_def)

lemma set_security_groups_same:
  assumes "security_group_ids c = None \<or>
           (\<exists>sgs e. security_group_ids c = Some sgs \<and> elb m = Some e \<and>
                    set (security_groups e) = set sgs)"
  shows "set_security_groups c m = Inr m"
  using assms by (auto simp add: set_security_groups_def)

text \<open>
  Claim C3. When \<open>security_group_ids\<close> is given and differs as a set from the
  balancer's groups, \<open>_set_security_groups\<close> issues the one call, but \<open>changed\<close>
  keeps its value: line 655 assigns \<open>Changed\<close>. Here the groups \<open>[sg-1]\<close> are
  wanted on a balancer that has none, after \<open>__init__\<close>.
\<close>

theorem set_security_groups_changed_unset:
  "\<exists>m'. set_security_groups ex_config_sg (init (Some ex_elb)) = Inr m' \<and>
        calls m' = [GetAllLoadBalancers None, ApplySecurityGroupsToLb ''web'' [''sg-1'']] \<and>
        changed m' = False \<and> Changed m' = Some True"
proof -
  have "set_security_groups ex_config_sg (init (Some ex_elb)) =
      Inr ((issue (ApplySecurityGroupsToLb (name ex_config_sg) [''sg-1''])
              (init (Some ex_elb)))\<lparr>Changed := Some True\<rparr>)"
    by (rule set_security_groups_differ [where e = ex_elb])
       (simp_all add: ex_config_sg_def ex_config_def init_def ex_elb_def)
  then show ?thesis
    by (simp add: calls_issue changed_issue init_def ex_config_sg_def ex_config_def)
qed

subsection \<open>Deleting the balancer\<close>

text \<open>
  Claim C8. When the balancer exists, \<open>ensure_gone\<close> issues the one deletion, sets
  \<open>changed\<close> and the status \<open>deleted\<close>; after \<open>__init__\<close> these are the only
  calls but the fetch. When it is absent, \<open>ensure_gone\<close> does nothing: after
  \<open>__init__\<close>, \<open>changed\<close> is false and no call that changes the resource was issued.
\<close>

theorem ensure_gone_deletes_iff_present:
  "(elb m \<noteq> None \<longrightarrow>
      changed (ensure_gone c m) \<and> status (ensure_gone c m) = ''deleted'' \<and>
      elb (ensure_gone c m) = None \<and>
      calls (ensure_gone c m) = calls m @ [DeleteLoadBalancer (name c)]) \<and>
   (elb m = None \<longrightarrow> ensure_gone c m = m) \<and>
   (live \<noteq> None \<longrightarrow>
      changed (ensure_gone c (init live)) \<and>
      status (ensure_gone c (init live)) = ''deleted'' \<and>
      calls (ensure_gone c (init live))
        = [GetAllLoadBalancers None, DeleteLoadBalancer (name c)]) \<and>
   (live = None \<longrightarrow>
      \<not> changed (ensure_gone c (init live)) \<and>
      status (ensure_gone c (init live)) = ''gone'' \<and>
      filter is_mutation (calls (ensure_gone c (init live))) = [])"
  by (simp add: ensure_gone_def delete_elb_def issue_def init_def)

theorem ensure_gone_deletes_iff_present_witness:
  "elb (init (Some ex_elb)) \<noteq> None \<and>
   changed (ensure_gone ex_config (init (Some ex_elb))) \<and>
   status (ensure_gone ex_config (init (Some ex_elb))) = ''deleted'' \<and>
   calls (ensure_gone ex_config (init (Some ex_elb)))
     = [GetAllLoadBalancers None, DeleteLoadBalancer ''web''] \<and>
   elb (init None) = None \<and>
   ensure_gone ex_config (init None) = init None \<and>
   \<not> changed (ensure_gone ex_config (init None))"
proof -
  note t = ensure_gone_deletes_iff_present
    [of "init (Some ex_elb)" ex_config "Some ex_elb"]
  note u = ensure_gone_deletes_iff_present [of "init None" ex_config None]
  have h1: "elb (init (Some ex_elb)) \<noteq> None" by (simp add: init_def)
  have h2: "elb (init None) = None" by (simp add: init_def)
  have n: "name ex_config = ''web''" by (simp add: ex_config_def)
  from t h1 have c1: "changed (ensure_gone ex_config (init (Some ex_elb)))"
    and c2: "status (ensure_gone ex_config (init (Some ex_elb))) = ''deleted''"
    by blast+
  from t have c3: "calls (ensure_gone ex_config (init (Some ex_elb)))
     = [GetAllLoadBalancers None, DeleteLoadBalancer ''web'']"
    unfolding n by blast
  from u h2 have c4: "ensure_gone ex_config (init None) = init None" by blast
  from u have c5: "\<not> changed (ensure_gone ex_config (init None))" by blast
  show ?thesis
    by (rule conjI [OF h1 conjI [OF c1 conjI [OF c2 conjI [OF c3 conjI [OF h2 conjI [OF c4 c5]]]]]])
qed

subsection \<open>Attributes\<close>

text \<open>
  Claim C10. With a balancer, each of the two attribute steps issues its read and then
  one \<open>modify_lb_attribute\<close> call, whatever the live value of the attribute is (so
  also when it already equals the desired one), and leaves \<open>changed\<close> as it was.
\<close>

theorem attribute_steps_unconditional:
  assumes "elb m = Some e"
  shows
    "(\<exists>m'. set_cross_az_load_balancing c m = Inr m' \<and>
           calls m' = calls m @
             [GetAttributes,
              ModifyLbAttribute (name c) ''CrossZoneLoadBalancing''
                (CrossZone (truthy_bool (cross_az_load_balancing c)))] \<and>
           changed m' = changed m) \<and>
     (\<exists>m'. set_connection_draining_timeout c m = Inr m' \<and>
           calls m' = calls m @
             [GetAttributes,
              ModifyLbAttribute (name c) ''ConnectionDraining''
                (Draining (case connection_draining_timeout c of
                             Some t \<Rightarrow> \<lparr>cd_enabled = True, cd_timeout = t\<rparr>
                           | None \<Rightarrow> (connection_draining e)\<lparr>cd_enabled := False\<rparr>))] \<and>
           changed m' = changed m)"
  using assms
  by (cases "connection_draining_timeout c")
     (simp_all add: set_cross_az_load_balancing_def set_connection_draining_timeout_def
        issue_def Let_def)

theorem attribute_steps_unconditional_witness:
  "elb (init (Some ex_elb)) = Some ex_elb \<and>
   cross_zone_load_balancing ex_elb = truthy_bool (cross_az_load_balancing ex_config) \<and>
   (\<exists>m'. set_cross_az_load_balancing ex_config (init (Some ex_elb)) = Inr m' \<and>
         calls m' = [GetAllLoadBalancers None, GetAttributes,
           ModifyLbAttribute ''web'' ''CrossZoneLoadBalancing'' (CrossZone False)] \<and>
         changed m' = False)"
proof -
  have h: "elb (init (Some ex_elb)) = Some ex_elb" by (simp add: init_def)
  have e: "cross_zone_load_balancing ex_elb = truthy_bool (cross_az_load_balancing ex_config)"
    by (simp add: ex_elb_def ex_config_def truthy_bool_def)
  from attribute_steps_unconditional [OF h, of ex_config]
  obtain m' where "set_cross_az_load_balancing ex_config (init (Some ex_elb)) = Inr m'"
    "calls m' = calls (init (Some ex_elb)) @
             [GetAttributes,
              ModifyLbAttribute (name ex_config) ''CrossZoneLoadBalancing''
                (CrossZone (truthy_bool (cross_az_load_balancing ex_config)))]"
    "changed m' = changed (init (Some ex_elb))"
    by blast
  then have "\<exists>m'. set_cross_az_load_balancing ex_config (init (Some ex_elb)) = Inr m' \<and>
         calls m' = [GetAllLoadBalancers None, GetAttributes,
           ModifyLbAttribute ''web'' ''CrossZoneLoadBalancing'' (CrossZone False)] \<and>
         changed m' = False"
    by (simp add: init_def ex_config_def truthy_bool_def)
  with h e show ?thesis by blast
qed

subsection \<open>Zones and subnets\<close>

lemma set_set_diff: "set (set_diff xs ys) = set xs - set ys"
  by (auto simp: set_diff_def)

lemma set_zones_eq:
  assumes "elb m = Some e" "truthy_list (zones c)"
    "zones_error ev (EnableZones (to_enable (the_list (zones c)) (availability_zones e))) = None"
    "zones_error ev (DisableZones (the_list
        (to_disable (purge_zones c) (the_list (zones c)) (availability_zones e)))) = None"
  shows "\<exists>m'. set_zones ev c m = Inr m' \<and>
     calls m' = calls m @
       (if to_enable (the_list (zones c)) (availability_zones e) \<noteq> []
        then [EnableZones (to_enable (the_list (zones c)) (availability_zones e))] else []) @
       (if the_list (to_disable (purge_zones c) (the_list (zones c)) (availability_zones e)) \<noteq> []
        then [DisableZones (the_list
               (to_disable (purge_zones c) (the_list (zones c)) (availability_zones e)))]
        else [])"
  using assms
  by (cases "purge_zones c")
     (simp_all add: set_zones_def and_then_def enable_zones_def disable_zones_def
        to_disable_def truthy_list_def the_list_def calls_issue Let_def)

lemma set_subnets_eq:
  assumes "elb m = Some e" "truthy_list (subnets c)"
  shows "\<exists>m'. set_subnets c m = Inr m' \<and>
     calls m' = calls m @
       (if to_enable (the_list (subnets c)) (elb_subnets e) \<noteq> []
        then [AttachLbToSubnets (name c) (to_enable (the_list (subnets c)) (elb_subnets e))]
        else []) @
       (if the_list (to_disable (purge_subnets c) (the_list (subnets c)) (elb_subnets e)) \<noteq> []
        then [DetachLbFromSubnets (name c) (the_list
               (to_disable (purge_subnets c) (the_list (subnets c)) (elb_subnets e)))]
        else [])"
  using assms
  by (cases "purge_subnets c")
     (simp_all add: set_subnets_def attach_subnets_def detach_subnets_def
        to_disable_def truthy_list_def the_list_def calls_issue Let_def)

text \<open>
  Claim C6. For zones and for subnets alike: the list to enable holds the desired
  elements that are not live; the list to disable holds, with the purge flag, the live
  elements that are not desired, and is \<open>None\<close> (empty) without it; the two are
  disjoint. With a balancer and a non-empty desired list, the step issues the enabling
  call, if that list is not empty, and then the disabling call, if that list is not
  empty (for zones: when the provider raises on neither call).
\<close>

theorem zone_subnet_diff:
  "set (to_enable desired live) \<inter> set (the_list (to_disable purge desired live)) = {} \<and>
   set (to_enable desired live) = set desired - set live \<and>
   set (the_list (to_disable purge desired live)) = (if purge then set live - set desired else {}) \<and>
   (\<not> purge \<longrightarrow> to_disable purge desired live = None) \<and>
   (elb m = Some e \<and> truthy_list (zones c) \<and>
    zones_error ev (EnableZones (to_enable (the_list (zones c)) (availability_zones e))) = None \<and>
    zones_error ev (DisableZones (the_list
        (to_disable (purge_zones c) (the_list (zones c)) (availability_zones e)))) = None \<longrightarrow>
    (\<exists>m'. set_zones ev c m = Inr m' \<and>
       calls m' = calls m @
         (if to_enable (the_list (zones c)) (availability_zones e) \<noteq> []
          then [EnableZones (to_enable (the_list (zones c)) (availability_zones e))] else []) @
         (if the_list (to_disable (purge_zones c) (the_list (zones c)) (availability_zones e))
               \<noteq> []
          then [DisableZones (the_list
                 (to_disable (purge_zones c) (the_list (zones c)) (availability_zones e)))]
          else []))) \<and>
   (elb m = Some e \<and> truthy_list (subnets c) \<longrightarrow>
    (\<exists>m'. set_subnets c m = Inr m' \<and>
       calls m' = calls m @
         (if to_enable (the_list (subnets c)) (elb_subnets e) \<noteq> []
          then [AttachLbToSubnets (name c) (to_enable (the_list (subnets c)) (elb_subnets e))]
          else []) @
         (if the_list (to_disable (purge_subnets c) (the_list (subnets c)) (elb_subnets e)) \<noteq> []
          then [DetachLbFromSubnets (name c) (the_list
                 (to_disable (purge_subnets c) (the_list (subnets c)) (elb_subnets e)))]
          else [])))"
proof (intro conjI)
  show "set (to_enable desired live) \<inter> set (the_list (to_disable purge desired live)) = {}"
    by (auto simp: to_enable_def to_disable_def the_list_def set_set_diff)
  show "set (to_enable desired live) = set desired - set live"
    by (simp add: to_enable_def set_set_diff)
  show "set (the_list (to_disable purge desired live))
      = (if purge then set live - set desired else {})"
    by (auto simp: to_disable_def the_list_def set_set_diff)
  show "\<not> purge \<longrightarrow> to_disable purge desired live = None"
    by (simp add: to_disable_def)
qed (use set_zones_eq set_subnets_eq in blast)+

lemma ex_zone_lists:
  "to_enable [''us-east-1d'', ''us-east-1e''] [''us-east-1a''] = [''us-east-1d'', ''us-east-1e'']"
  "to_disable True [''us-east-1d'', ''us-east-1e''] [''us-east-1a''] = Some [''us-east-1a'']"
  by (simp_all add: to_enable_def to_disable_def set_diff_def)

theorem zone_subnet_diff_witness:
  "elb (init (Some ex_elb)) = Some ex_elb \<and> truthy_list (zones ex_config_zones) \<and>
   (\<exists>m'. set_zones ex_env ex_config_zones (init (Some ex_elb)) = Inr m' \<and>
      calls m' = [GetAllLoadBalancers None, EnableZones [''us-east-1d'', ''us-east-1e''],
                  DisableZones [''us-east-1a'']]) \<and>
   to_disable False [''us-east-1d''] [''us-east-1a''] = None"
proof -
  have h1: "elb (init (Some ex_elb)) = Some ex_elb" by (simp add: init_def)
  have h2: "truthy_list (zones ex_config_zones)"
    by (simp add: ex_config_zones_def truthy_list_def)
  have f: "the_list (zones ex_config_zones) = [''us-east-1d'', ''us-east-1e'']"
    "availability_zones ex_elb = [''us-east-1a'']" "purge_zones ex_config_zones = True"
    by (simp_all add: ex_config_zones_def ex_elb_def the_list_def)
  have h3: "zones_error ex_env (EnableZones (to_enable (the_list (zones ex_config_zones))
      (availability_zones ex_elb))) = None"
    "zones_error ex_env (DisableZones (the_list (to_disable (purge_zones ex_config_zones)
      (the_list (zones ex_config_zones)) (availability_zones ex_elb)))) = None"
    by (simp_all add: ex_env_def)
  note t = zone_subnet_diff [of "[''us-east-1d'']" "[''us-east-1a'']" False
      "init (Some ex_elb)" ex_elb ex_config_zones ex_env]
  from t h1 h2 h3 obtain m' where m':
    "set_zones ex_env ex_config_zones (init (Some ex_elb)) = Inr m'"
    "calls m' = calls (init (Some ex_elb)) @
         (if to_enable (the_list (zones ex_config_zones)) (availability_zones ex_elb) \<noteq> []
          then [EnableZones (to_enable (the_list (zones ex_config_zones))
                  (availability_zones ex_elb))] else []) @
         (if the_list (to_disable (purge_zones ex_config_zones)
                (the_list (zones ex_config_zones)) (availability_zones ex_elb)) \<noteq> []
          then [DisableZones (the_list (to_disable (purge_zones ex_config_zones)
                  (the_list (zones ex_config_zones)) (availability_zones ex_elb)))]
          else [])"
    by blast
  from m'(2) have "calls m' = [GetAllLoadBalancers None,
      EnableZones [''us-east-1d'', ''us-east-1e''], DisableZones [''us-east-1a'']]"
    unfolding f ex_zone_lists by (simp add: init_def the_list_def)
  with m'(1) have c1: "\<exists>m'. set_zones ex_env ex_config_zones (init (Some ex_elb)) = Inr m' \<and>
      calls m' = [GetAllLoadBalancers None, EnableZones [''us-east-1d'', ''us-east-1e''],
                  DisableZones [''us-east-1a'']]"
    by blast
  from t have c2: "to_disable False [''us-east-1d''] [''us-east-1a''] = None" by blast
  from h1 h2 c1 c2 show ?thesis by blast
qed


subsection \<open>Health check\<close>

lemma compare_attrs_eq:
  "compare_attrs desired (live, False) =
     (if target live \<noteq> target desired \<or> timeout live \<noteq> timeout desired \<or>
         hc_interval live \<noteq> hc_interval desired \<or>
         hc_unhealthy_threshold live \<noteq> hc_unhealthy_threshold desired \<or>
         hc_healthy_threshold live \<noteq> hc_healthy_threshold desired
      then (desired, True) else (live, False))"
  by (cases live; cases desired) (simp add: compare_attrs_def Let_def)

lemma set_health_check_eq:
  assumes "health_check c = Some hc" "elb m = Some e"
  shows "set_health_check ev c m =
     (let live = (case elb_health_check e of None \<Rightarrow> fresh_health_check ev | Some h \<Rightarrow> h);
          desired = health_check_config hc
      in if target live \<noteq> target desired \<or> timeout live \<noteq> timeout desired \<or>
            hc_interval live \<noteq> hc_interval desired \<or>
            hc_unhealthy_threshold live \<noteq> hc_unhealthy_threshold desired \<or>
            hc_healthy_threshold live \<noteq> hc_healthy_threshold desired
         then Inr ((issue (ConfigureHealthCheck desired) m)\<lparr>changed := True\<rparr>)
         else Inr m)"
  unfolding set_health_check_def assms option.case Let_def compare_attrs_eq
  by simp

text \<open>
  Claim C7. With a desired health check and a balancer, \<open>_set_health_check\<close> builds
  the descriptor with the target \<open>PROTO:port\<close> (followed by the path for HTTP and
  HTTPS), the timeout, the interval and the two thresholds, and compares it with the live
  descriptor, a fresh \<open>HealthCheck()\<close> when the balancer has none. It issues
  \<open>configure_health_check\<close> with the desired descriptor and sets \<open>changed\<close> iff
  one of the five fields differs; otherwise it issues nothing and changes nothing.
\<close>

theorem set_health_check_iff_differs:
  assumes "health_check c = Some hc" and "elb m = Some e"
    and "live = (case elb_health_check e of None \<Rightarrow> fresh_health_check ev | Some h \<Rightarrow> h)"
  shows
   "health_check_config hc =
      \<lparr>target = Some (upper (ping_protocol hc) @ '':'' @ show_int (ping_port hc) @
                 (if upper (ping_protocol hc) = ''HTTP'' \<or> upper (ping_protocol hc) = ''HTTPS''
                  then (case ping_path hc of None \<Rightarrow> [] | Some pp \<Rightarrow> pp) else [])),
       timeout = response_timeout hc, hc_interval = interval hc,
       hc_unhealthy_threshold = unhealthy_threshold hc,
       hc_healthy_threshold = healthy_threshold hc\<rparr> \<and>
    ((target live \<noteq> target (health_check_config hc) \<or>
      timeout live \<noteq> timeout (health_check_config hc) \<or>
      hc_interval live \<noteq> hc_interval (health_check_config hc) \<or>
      hc_unhealthy_threshold live \<noteq> hc_unhealthy_threshold (health_check_config hc) \<or>
      hc_healthy_threshold live \<noteq> hc_healthy_threshold (health_check_config hc)) \<longrightarrow>
     set_health_check ev c m =
       Inr ((issue (ConfigureHealthCheck (health_check_config hc)) m)\<lparr>changed := True\<rparr>)) \<and>
    (target live = target (health_check_config hc) \<and>
     timeout live = timeout (health_check_config hc) \<and>
     hc_interval live = hc_interval (health_check_config hc) \<and>
     hc_unhealthy_threshold live = hc_unhealthy_threshold (health_check_config hc) \<and>
     hc_healthy_threshold live = hc_healthy_threshold (health_check_config hc) \<longrightarrow>
     set_health_check ev c m = Inr m)"
proof (intro conjI)
  show "health_check_config hc =
      \<lparr>target = Some (upper (ping_protocol hc) @ '':'' @ show_int (ping_port hc) @
                 (if upper (ping_protocol hc) = ''HTTP'' \<or> upper (ping_protocol hc) = ''HTTPS''
                  then (case ping_path hc of None \<Rightarrow> [] | Some pp \<Rightarrow> pp) else [])),
       timeout = response_timeout hc, hc_interval = interval hc,
       hc_unhealthy_threshold = unhealthy_threshold hc,
       hc_healthy_threshold = healthy_threshold hc\<rparr>"
    by (simp add: health_check_config_def get_health_check_target_def Let_def)
qed (simp_all add: set_health_check_eq [OF assms(1,2)] assms(3) Let_def)

lemma ex_target: "get_health_check_target ex_health_check = ''HTTP:80/index.html''"
  by (simp add: get_health_check_target_def ex_health_check_def ex_upper show_int_def
      char_of_def bit_Suc_0_iff)

theorem set_health_check_iff_differs_witness:
  "health_check ex_config_hc = Some ex_health_check \<and>
   elb (init (Some ex_elb)) = Some ex_elb \<and>
   target (fresh_health_check ex_env) \<noteq> target (health_check_config ex_health_check) \<and>
   set_health_check ex_env ex_config_hc (init (Some ex_elb)) =
     Inr ((issue (ConfigureHealthCheck
             \<lparr>target = Some ''HTTP:80/index.html'', timeout = 5, hc_interval = 30,
              hc_unhealthy_threshold = 2, hc_healthy_threshold = 10\<rparr>)
            (init (Some ex_elb)))\<lparr>changed := True\<rparr>) \<and>
   set_health_check ex_env ex_config_hc
     (init (Some (ex_elb\<lparr>elb_health_check := Some (health_check_config ex_health_check)\<rparr>)))
   = Inr (init (Some (ex_elb\<lparr>elb_health_check := Some (health_check_config ex_health_check)\<rparr>)))"
proof -
  have h1: "health_check ex_config_hc = Some ex_health_check"
    by (simp add: ex_config_hc_def)
  have h2: "elb (init (Some ex_elb)) = Some ex_elb" by (simp add: init_def)
  have h3: "fresh_health_check ex_env =
      (case elb_health_check ex_elb of None \<Rightarrow> fresh_health_check ex_env | Some h \<Rightarrow> h)"
    by (simp add: ex_elb_def)
  have h4: "target (fresh_health_check ex_env) \<noteq> target (health_check_config ex_health_check)"
    by (simp add: ex_env_def health_check_config_def)
  have v: "health_check_config ex_health_check =
      \<lparr>target = Some ''HTTP:80/index.html'', timeout = 5, hc_interval = 30,
       hc_unhealthy_threshold = 2, hc_healthy_threshold = 10\<rparr>"
    by (simp add: health_check_config_def ex_target) (simp add: ex_health_check_def)
  from set_health_check_iff_differs [OF h1 h2 h3] h4
  have "set_health_check ex_env ex_config_hc (init (Some ex_elb)) =
       Inr ((issue (ConfigureHealthCheck (health_check_config ex_health_check))
               (init (Some ex_elb)))\<lparr>changed := True\<rparr>)"
    by blast
  then have c1: "set_health_check ex_env ex_config_hc (init (Some ex_elb)) =
     Inr ((issue (ConfigureHealthCheck
             \<lparr>target = Some ''HTTP:80/index.html'', timeout = 5, hc_interval = 30,
              hc_unhealthy_threshold = 2, hc_healthy_threshold = 10\<rparr>)
            (init (Some ex_elb)))\<lparr>changed := True\<rparr>)"
    unfolding v .
  have k2: "elb (init (Some (ex_elb\<lparr>elb_health_check :=
      Some (health_check_config ex_health_check)\<rparr>)))
    = Some (ex_elb\<lparr>elb_health_check := Some (health_check_config ex_health_check)\<rparr>)"
    by (simp add: init_def)
  have k3: "health_check_config ex_health_check =
      (case elb_health_check
         (ex_elb\<lparr>elb_health_check := Some (health_check_config ex_health_check)\<rparr>) of
         None \<Rightarrow> fresh_health_check ex_env | Some h \<Rightarrow> h)"
    by simp
  from set_health_check_iff_differs [OF h1 k2 k3]
  have c2: "set_health_check ex_env ex_config_hc
     (init (Some (ex_elb\<lparr>elb_health_check := Some (health_check_config ex_health_check)\<rparr>)))
   = Inr (init (Some (ex_elb\<lparr>elb_health_check := Some (health_check_config ex_health_check)\<rparr>)))"
    by blast
  show ?thesis
    by (rule conjI [OF h1 conjI [OF h2 conjI [OF h4 conjI [OF c1 c2]]]])
qed

subsection \<open>Conflicting stickiness parameters\<close>

lemma select_stickiness_policy_conflict:
  assumes "stickiness c = Some st" "cookie st \<noteq> None" "expiration st \<noteq> None"
  shows "select_stickiness_policy ev c m = Inl (FailJson msg_cookie_and_expiration, m)"
  using assms by (simp add: select_stickiness_policy_def)

lemma helpers_ignore_stickiness:
  "listeners_to_add (c\<lparr>stickiness := s\<rparr>) = listeners_to_add c"
  "listeners_to_remove (c\<lparr>stickiness := s\<rparr>) = listeners_to_remove c"
  "delete_elb_listeners (c\<lparr>stickiness := s\<rparr>) = delete_elb_listeners c"
  "create_elb_listeners (c\<lparr>stickiness := s\<rparr>) = create_elb_listeners c"
  "attach_subnets (c\<lparr>stickiness := s\<rparr>) = attach_subnets c"
  "detach_subnets (c\<lparr>stickiness := s\<rparr>) = detach_subnets c"
  by (simp_all add: fun_eq_iff listeners_to_add_def listeners_to_remove_def
      delete_elb_listeners_def create_elb_listeners_def attach_subnets_def detach_subnets_def
      cong: sum.case_cong)

lemma steps_ignore_stickiness:
  "set_zones ev (c\<lparr>stickiness := s\<rparr>) m = set_zones ev c m"
  "set_security_groups (c\<lparr>stickiness := s\<rparr>) m = set_security_groups c m"
  "set_elb_listeners (c\<lparr>stickiness := s\<rparr>) m = set_elb_listeners c m"
  "set_subnets (c\<lparr>stickiness := s\<rparr>) m = set_subnets c m"
  "set_health_check ev (c\<lparr>stickiness := s\<rparr>) m = set_health_check ev c m"
  "set_connection_draining_timeout (c\<lparr>stickiness := s\<rparr>) m
     = set_connection_draining_timeout c m"
  "set_cross_az_load_balancing (c\<lparr>stickiness := s\<rparr>) m = set_cross_az_load_balancing c m"
  "create_elb (c\<lparr>stickiness := s\<rparr>) m = create_elb c m"
  unfolding set_zones_def set_security_groups_def set_elb_listeners_def
      set_subnets_def set_health_check_def set_connection_draining_timeout_def
      set_cross_az_load_balancing_def create_elb_def helpers_ignore_stickiness
  by (simp_all cong: option.case_cong if_cong)

text \<open>\<open>ensure_ok\<close> is its first seven steps followed by \<open>select_stickiness_policy\<close>.\<close>

lemma ensure_ok_split:
  "ensure_ok ev c m =
     and_then (ensure_ok ev (c\<lparr>stickiness := None\<rparr>) m) (select_stickiness_policy ev c)"
proof -
  have n: "\<And>m. select_stickiness_policy ev (c\<lparr>stickiness := None\<rparr>) m = Inr m"
    by (simp add: select_stickiness_policy_def)
  have a: "\<And>r. and_then r Inr = (r :: error \<times> manager + manager)"
    by (simp add: and_then_def split: sum.splits)
  have b: "\<And>(r :: error \<times> manager + manager) f g.
      and_then (and_then r f) g = and_then r (\<lambda>x. and_then (f x) g)"
    by (simp add: and_then_def split: sum.splits)
  show ?thesis
    unfolding ensure_ok_def steps_ignore_stickiness n b
    by (simp add: a [unfolded and_then_def] and_then_def cong: sum.case_cong)
qed


lemma ex_conflict_run:
  "calls (final (ensure_ok ex_env (ex_config_conflict\<lparr>stickiness := None\<rparr>) (init (Some ex_elb))))
   = [GetAllLoadBalancers None, EnableZones [''us-east-1d''], GetAttributes,
      ModifyLbAttribute ''web'' ''ConnectionDraining''
        (Draining \<lparr>cd_enabled = False, cd_timeout = 300\<rparr>),
      GetAttributes,
      ModifyLbAttribute ''web'' ''CrossZoneLoadBalancing'' (CrossZone False)]"
  by (simp add: ensure_ok_def init_def ex_config_conflict_def ex_config_def ex_elb_def ex_env_def
      and_then_def set_zones_def enable_zones_def disable_zones_def to_enable_def to_disable_def
      set_diff_def truthy_list_def the_list_def set_security_groups_def
      set_elb_listeners_def listeners_to_add_def listeners_to_remove_def
      ex_ports ex_tuples truthy_tuple_def
      set_subnets_def set_health_check_def check_attribute_support_def
      set_connection_draining_timeout_def set_cross_az_load_balancing_def truthy_bool_def
      select_stickiness_policy_def issue_def final_def Let_def)


text \<open>
  Claim C5, as stated, fails: \<open>ensure_ok\<close> checks the stickiness parameters last.
  With both keys given and a zone to enable, the run fails with the configuration error
  after it has enabled the zone and modified the two attributes.
\<close>

theorem stickiness_conflict_after_calls:
  "failure (ensure_ok ex_env ex_config_conflict (init (Some ex_elb)))
     = Some (FailJson msg_cookie_and_expiration) \<and>
   filter is_mutation
     (calls (final (ensure_ok ex_env ex_config_conflict (init (Some ex_elb)))))
     = [EnableZones [''us-east-1d''],
        ModifyLbAttribute ''web'' ''ConnectionDraining''
          (Draining \<lparr>cd_enabled = False, cd_timeout = 300\<rparr>),
        ModifyLbAttribute ''web'' ''CrossZoneLoadBalancing'' (CrossZone False)]"
proof -
  have s: "stickiness ex_config_conflict = Some ex_stickiness_conflict"
    "cookie ex_stickiness_conflict \<noteq> None" "expiration ex_stickiness_conflict \<noteq> None"
    by (simp_all add: ex_config_conflict_def ex_stickiness_conflict_def)
  obtain r where r: "ensure_ok ex_env (ex_config_conflict\<lparr>stickiness := None\<rparr>)
      (init (Some ex_elb)) = r"
    by simp
  have c: "calls (final r) = [GetAllLoadBalancers None, EnableZones [''us-east-1d''], GetAttributes,
      ModifyLbAttribute ''web'' ''ConnectionDraining''
        (Draining \<lparr>cd_enabled = False, cd_timeout = 300\<rparr>),
      GetAttributes,
      ModifyLbAttribute ''web'' ''CrossZoneLoadBalancing'' (CrossZone False)]"
    using ex_conflict_run r by simp
  have f: "failure (and_then r (select_stickiness_policy ex_env ex_config_conflict))
        = Some (FailJson msg_cookie_and_expiration) \<or> failure r \<noteq> None"
    by (cases r) (auto simp: and_then_def failure_def select_stickiness_policy_conflict [OF s])
  have g: "final (and_then r (select_stickiness_policy ex_env ex_config_conflict)) = final r"
    by (cases r) (auto simp: and_then_def final_def select_stickiness_policy_conflict [OF s])
  have "failure r = None"
    unfolding r [symmetric]
    by (simp add: ensure_ok_def init_def ex_config_conflict_def ex_config_def ex_elb_def
      ex_env_def and_then_def set_zones_def enable_zones_def disable_zones_def to_enable_def
      to_disable_def set_diff_def truthy_list_def the_list_def set_security_groups_def
      set_elb_listeners_def listeners_to_add_def listeners_to_remove_def
      ex_ports ex_tuples truthy_tuple_def
      set_subnets_def set_health_check_def check_attribute_support_def
      set_connection_draining_timeout_def set_cross_az_load_balancing_def truthy_bool_def
      select_stickiness_policy_def issue_def failure_def Let_def)
  with f g c show ?thesis
    unfolding ensure_ok_split [of ex_env ex_config_conflict] r by simp
qed

text \<open>
  Claim C5, amended. With both \<open>cookie\<close> and \<open>expiration\<close> given,
  \<open>select_stickiness_policy\<close> fails with the configuration error before it issues a
  call of its own, and \<open>ensure_ok\<close> always fails; but it fails where the run without
  any stickiness would have ended, so every call of the earlier steps has been issued.
  When those steps raise nothing, the failure is the configuration error.
\<close>

theorem stickiness_conflict_fails_last:
  assumes "stickiness c = Some st" and "cookie st \<noteq> None" and "expiration st \<noteq> None"
  shows "select_stickiness_policy ev c m = Inl (FailJson msg_cookie_and_expiration, m) \<and>
    failure (ensure_ok ev c m) \<noteq> None \<and>
    final (ensure_ok ev c m) = final (ensure_ok ev (c\<lparr>stickiness := None\<rparr>) m) \<and>
    (failure (ensure_ok ev (c\<lparr>stickiness := None\<rparr>) m) = None \<longrightarrow>
       failure (ensure_ok ev c m) = Some (FailJson msg_cookie_and_expiration))"
proof -
  note s = select_stickiness_policy_conflict [OF assms]
  show ?thesis
    unfolding ensure_ok_split [of ev c]
    by (cases "ensure_ok ev (c\<lparr>stickiness := None\<rparr>) m")
       (auto simp: s and_then_def failure_def final_def)
qed

theorem stickiness_conflict_fails_last_witness:
  "stickiness ex_config_conflict = Some ex_stickiness_conflict \<and>
   cookie ex_stickiness_conflict \<noteq> None \<and> expiration ex_stickiness_conflict \<noteq> None \<and>
   select_stickiness_policy ex_env ex_config_conflict (init (Some ex_elb))
     = Inl (FailJson msg_cookie_and_expiration, init (Some ex_elb)) \<and>
   calls (final (ensure_ok ex_env ex_config_conflict (init (Some ex_elb))))
     = [GetAllLoadBalancers None, EnableZones [''us-east-1d''], GetAttributes,
        ModifyLbAttribute ''web'' ''ConnectionDraining''
          (Draining \<lparr>cd_enabled = False, cd_timeout = 300\<rparr>),
        GetAttributes,
        ModifyLbAttribute ''web'' ''CrossZoneLoadBalancing'' (CrossZone False)]"
proof -
  have s: "stickiness ex_config_conflict = Some ex_stickiness_conflict"
    "cookie ex_stickiness_conflict \<noteq> None" "expiration ex_stickiness_conflict \<noteq> None"
    by (simp_all add: ex_config_conflict_def ex_stickiness_conflict_def)
  note t = stickiness_conflict_fails_last [OF s, of ex_env "init (Some ex_elb)"]
  from t have c1: "select_stickiness_policy ex_env ex_config_conflict (init (Some ex_elb))
     = Inl (FailJson msg_cookie_and_expiration, init (Some ex_elb))"
    by (elim conjE)
  from t have "final (ensure_ok ex_env ex_config_conflict (init (Some ex_elb)))
    = final (ensure_ok ex_env (ex_config_conflict\<lparr>stickiness := None\<rparr>) (init (Some ex_elb)))"
    by (elim conjE)
  then have c2: "calls (final (ensure_ok ex_env ex_config_conflict (init (Some ex_elb))))
     = [GetAllLoadBalancers None, EnableZones [''us-east-1d''], GetAttributes,
        ModifyLbAttribute ''web'' ''ConnectionDraining''
          (Draining \<lparr>cd_enabled = False, cd_timeout = 300\<rparr>),
        GetAttributes,
        ModifyLbAttribute ''web'' ''CrossZoneLoadBalancing'' (CrossZone False)]"
    by (simp only: ex_conflict_run)
  show ?thesis
    by (rule conjI [OF s(1) conjI [OF s(2) conjI [OF s(3) conjI [OF c1 c2]]]])
qed

subsection \<open>Disabling stickiness\<close>

lemma calls_set_listener_policy:
  "calls (set_listener_policy n d pol m) =
     calls m @ [SetLbPoliciesOfListener n (fst kv) pol. kv \<leftarrow> d, startswith (snd kv) ''HTTP'']"
  by (induction n d pol m rule: set_listener_policy.induct) (simp_all add: calls_issue)

lemma changed_set_listener_policy: "changed (set_listener_policy n d pol m) = changed m"
  by (induction n d pol m rule: set_listener_policy.induct) (simp_all add: changed_issue)

lemma dict_set_fresh: "k \<notin> fst ` set d \<Longrightarrow> dict_set d k v = d @ [(k, v)]"
  by (induction d k v rule: dict_set.induct) auto

lemma listeners_dict_distinct:
  "distinct (map fst d @ map api_load_balancer_port ls) \<Longrightarrow>
   listeners_dict ls d = d @ map (\<lambda>l. (api_load_balancer_port l, api_protocol l)) ls"
proof (induction ls arbitrary: d)
  case Nil
  show ?case by simp
next
  case (Cons l ls)
  from Cons.prems have fresh: "api_load_balancer_port l \<notin> fst ` set d" by auto
  from Cons.prems have
    "distinct (map fst (d @ [(api_load_balancer_port l, api_protocol l)])
               @ map api_load_balancer_port ls)"
    by auto
  then show ?case by (simp add: dict_set_fresh [OF fresh] Cons.IH)
qed

lemma disable_app_stickiness_calls:
  "calls (disable_app_stickiness ev n e d m) =
     calls m @ [SetLbPoliciesOfListener n (fst kv) []. kv \<leftarrow> d, startswith (snd kv) ''HTTP'']
       @ [DeleteLbPolicy n (policy_name ev ''AppCookieStickinessPolicyType'')]"
  by (simp add: disable_app_stickiness_def delete_policy_def calls_issue
      calls_set_listener_policy Let_def split: list.split)

lemma disable_lb_stickiness_calls:
  "calls (disable_lb_stickiness ev n e d m) =
     calls m @ [SetLbPoliciesOfListener n (fst kv) []. kv \<leftarrow> d, startswith (snd kv) ''HTTP'']
       @ [DeleteLbPolicy n (policy_name ev ''LBCookieStickinessPolicyType'')]"
  by (simp add: disable_lb_stickiness_def delete_policy_def calls_issue
      calls_set_listener_policy Let_def split: list.split)

lemma disable_app_stickiness_changed:
  "changed (disable_app_stickiness ev n e d m) =
     (changed m \<or> (\<exists>p ps. app_cookie_stickiness_policies e = p # ps \<and>
        pol_policy_name p = policy_name ev ''AppCookieStickinessPolicyType''))"
  by (simp add: disable_app_stickiness_def delete_policy_def changed_issue
      changed_set_listener_policy Let_def split: list.split)

lemma disable_lb_stickiness_changed:
  "lb_cookie_stickiness_policies e = p # ps \<Longrightarrow>
   changed (disable_lb_stickiness ev n e d m) =
     (changed m \<or> pol_policy_name p = policy_name ev ''LBCookieStickinessPolicyType'')"
  by (simp add: disable_lb_stickiness_def delete_policy_def changed_issue
      changed_set_listener_policy Let_def)

lemma select_stickiness_policy_disabled:
  assumes "stickiness c = Some st" "\<not> enabled st" "cookie st = None \<or> expiration st = None"
    "elb m = Some e"
  shows "select_stickiness_policy ev c m =
     Inr ((if stickiness_type st = ''loadbalancer'' then disable_lb_stickiness ev (elb_name e) e
           else if stickiness_type st = ''application''
           then disable_app_stickiness ev (elb_name e) e
           else (\<lambda>d. set_listener_policy (elb_name e) d []))
          (listeners_dict (elb_listeners e) [])
          (issue (GetAllLoadBalancers (Some (elb_name e))) m))"
  using assms by (auto simp add: select_stickiness_policy_def Let_def)


text \<open>
  Only the \<open>loadbalancer\<close> branch has the \<open>else\<close> of lines 774-775: with no
  policy of that kind on the balancer it sets \<open>changed\<close> to false, whatever the earlier
  steps made it.
\<close>

lemma disable_lb_stickiness_resets_changed:
  "lb_cookie_stickiness_policies e = [] \<Longrightarrow> \<not> changed (disable_lb_stickiness ev n e d m)"
  by (simp add: disable_lb_stickiness_def delete_policy_def changed_issue
      changed_set_listener_policy Let_def)

lemma ex_policy_names:
  "policy_name ex_env ''AppCookieStickinessPolicyType''
     = ''ec2-elb-lb-AppCookieStickinessPolicyType''"
  "policy_name ex_env ''LBCookieStickinessPolicyType''
     = ''ec2-elb-lb-LBCookieStickinessPolicyType''"
  by (simp_all add: policy_name_def ex_env_def last_segment_def replace_underscores_def)

lemma ex_listeners_dict: "listeners_dict (elb_listeners ex_elb) [] = [(80, ''HTTP'')]"
  by (simp add: ex_elb_def ex_api_listener_def)

text \<open>
  Claim C4, as stated, fails: the deletion is not conditional. With stickiness of type
  \<open>application\<close> disabled on a balancer that has no policy at all,
  \<open>select_stickiness_policy\<close> still issues \<open>delete_lb_policy\<close> for the name.
\<close>

theorem disable_stickiness_deletes_absent_policy:
  "app_cookie_stickiness_policies ex_elb = [] \<and> lb_cookie_stickiness_policies ex_elb = [] \<and>
   calls (final (select_stickiness_policy ex_env ex_config_app_off (init (Some ex_elb)))) =
     [GetAllLoadBalancers None, GetAllLoadBalancers (Some ''web''),
      SetLbPoliciesOfListener ''web'' 80 [],
      DeleteLbPolicy ''web'' ''ec2-elb-lb-AppCookieStickinessPolicyType'']"
proof -
  have "select_stickiness_policy ex_env ex_config_app_off (init (Some ex_elb)) =
      Inr (disable_app_stickiness ex_env (elb_name ex_elb) ex_elb
             (listeners_dict (elb_listeners ex_elb) [])
             (issue (GetAllLoadBalancers (Some (elb_name ex_elb))) (init (Some ex_elb))))"
    by (subst select_stickiness_policy_disabled [where st = ex_stickiness_app_off and e = ex_elb])
       (simp_all add: ex_config_app_off_def ex_stickiness_app_off_def init_def)
  then have "calls (final (select_stickiness_policy ex_env ex_config_app_off
      (init (Some ex_elb)))) =
     [GetAllLoadBalancers None, GetAllLoadBalancers (Some ''web''),
      SetLbPoliciesOfListener ''web'' 80 [],
      DeleteLbPolicy ''web'' ''ec2-elb-lb-AppCookieStickinessPolicyType'']"
    by (simp add: final_def disable_app_stickiness_calls calls_issue ex_listeners_dict
        ex_policy_names startswith_def) (simp add: init_def ex_elb_def)
  then show ?thesis by (simp add: ex_elb_def)
qed

text \<open>
  Claim C4, amended. With stickiness of type \<open>loadbalancer\<close> or \<open>application\<close>
  disabled and a balancer, \<open>select_stickiness_policy\<close> fetches the balancer, detaches
  the policies of every port whose protocol in the port dict starts with \<open>HTTP\<close>
  (with distinct ports: of every such listener), and then issues \<open>delete_lb_policy\<close>
  for the fixed name, whether or not a policy has it. \<open>changed\<close> becomes true when the
  first policy of the kind has that name; otherwise it keeps its value, for
  \<open>application\<close> always, for \<open>loadbalancer\<close> when the balancer has a policy of
  the kind.
\<close>

theorem disable_stickiness_calls_and_flag:
  assumes "stickiness c = Some st" and "\<not> enabled st"
    and "cookie st = None \<or> expiration st = None" and "elb m = Some e"
    and "stickiness_type st = ''loadbalancer'' \<or> stickiness_type st = ''application''"
  shows "\<exists>m'. select_stickiness_policy ev c m = Inr m' \<and>
    calls m' = calls m @ [GetAllLoadBalancers (Some (elb_name e))] @
      [SetLbPoliciesOfListener (elb_name e) (fst kv) [].
         kv \<leftarrow> listeners_dict (elb_listeners e) [], startswith (snd kv) ''HTTP''] @
      [DeleteLbPolicy (elb_name e)
         (policy_name ev (if stickiness_type st = ''loadbalancer''
                          then ''LBCookieStickinessPolicyType''
                          else ''AppCookieStickinessPolicyType''))] \<and>
    (distinct (map api_load_balancer_port (elb_listeners e)) \<longrightarrow>
       [fst kv. kv \<leftarrow> listeners_dict (elb_listeners e) [], startswith (snd kv) ''HTTP''] =
       [api_load_balancer_port l. l \<leftarrow> elb_listeners e, startswith (api_protocol l) ''HTTP'']) \<and>
    (stickiness_type st = ''application'' \<longrightarrow>
       changed m' =
         (changed m \<or> (\<exists>p ps. app_cookie_stickiness_policies e = p # ps \<and>
            pol_policy_name p = policy_name ev ''AppCookieStickinessPolicyType''))) \<and>
    (stickiness_type st = ''loadbalancer'' \<longrightarrow>
       (\<forall>p ps. lb_cookie_stickiness_policies e = p # ps \<longrightarrow>
          changed m' =
            (changed m \<or> pol_policy_name p = policy_name ev ''LBCookieStickinessPolicyType'')))"
proof -
  have d: "distinct (map api_load_balancer_port (elb_listeners e)) \<longrightarrow>
       [fst kv. kv \<leftarrow> listeners_dict (elb_listeners e) [], startswith (snd kv) ''HTTP''] =
       [api_load_balancer_port l. l \<leftarrow> elb_listeners e, startswith (api_protocol l) ''HTTP'']"
  proof
    assume "distinct (map api_load_balancer_port (elb_listeners e))"
    then have "listeners_dict (elb_listeners e) [] =
        map (\<lambda>l. (api_load_balancer_port l, api_protocol l)) (elb_listeners e)"
      using listeners_dict_distinct [of "[]" "elb_listeners e"] by simp
    then show "[fst kv. kv \<leftarrow> listeners_dict (elb_listeners e) [], startswith (snd kv) ''HTTP'']
      = [api_load_balancer_port l. l \<leftarrow> elb_listeners e, startswith (api_protocol l) ''HTTP'']"
      by (simp add: comp_def cong: if_cong)
  qed
  note r = select_stickiness_policy_disabled [OF assms(1-4), of ev]
  from assms(5) show ?thesis
  proof
    assume t: "stickiness_type st = ''loadbalancer''"
    show ?thesis
      unfolding r
      by (intro exI conjI d, rule refl)
         (simp_all add: t disable_lb_stickiness_calls calls_issue changed_issue
            disable_lb_stickiness_changed)
  next
    assume t: "stickiness_type st = ''application''"
    show ?thesis
      unfolding r
      by (intro exI conjI d, rule refl)
         (simp_all add: t disable_app_stickiness_calls calls_issue changed_issue
            disable_app_stickiness_changed)
  qed
qed

theorem disable_stickiness_calls_and_flag_witness:
  "stickiness ex_config_app_off = Some ex_stickiness_app_off \<and>
   \<not> enabled ex_stickiness_app_off \<and> cookie ex_stickiness_app_off = None \<and>
   elb (init (Some ex_elb)) = Some ex_elb \<and>
   stickiness_type ex_stickiness_app_off = ''application'' \<and>
   distinct (map api_load_balancer_port (elb_listeners ex_elb)) \<and>
   (\<exists>m'. select_stickiness_policy ex_env ex_config_app_off (init (Some ex_elb)) = Inr m' \<and>
      changed m' = False)"
proof -
  have h: "stickiness ex_config_app_off = Some ex_stickiness_app_off"
    "\<not> enabled ex_stickiness_app_off"
    "cookie ex_stickiness_app_off = None \<or> expiration ex_stickiness_app_off = None"
    "elb (init (Some ex_elb)) = Some ex_elb"
    "stickiness_type ex_stickiness_app_off = ''loadbalancer'' \<or>
     stickiness_type ex_stickiness_app_off = ''application''"
    by (simp_all add: ex_config_app_off_def ex_stickiness_app_off_def init_def)
  have h3: "cookie ex_stickiness_app_off = None"
    and h5: "stickiness_type ex_stickiness_app_off = ''application''"
    and h6: "distinct (map api_load_balancer_port (elb_listeners ex_elb))"
    by (simp_all add: ex_stickiness_app_off_def ex_elb_def)
  from disable_stickiness_calls_and_flag [OF h, of ex_env]
  obtain m' where m': "select_stickiness_policy ex_env ex_config_app_off (init (Some ex_elb))
      = Inr m'"
    "stickiness_type ex_stickiness_app_off = ''application'' \<longrightarrow>
       changed m' =
         (changed (init (Some ex_elb)) \<or>
          (\<exists>p ps. app_cookie_stickiness_policies ex_elb = p # ps \<and>
            pol_policy_name p = policy_name ex_env ''AppCookieStickinessPolicyType''))"
    by blast
  from m'(2) h5 have "changed m' = False" by (simp add: init_def ex_elb_def)
  with m'(1) have c: "\<exists>m'. select_stickiness_policy ex_env ex_config_app_off
      (init (Some ex_elb)) = Inr m' \<and> changed m' = False"
    by blast
  show ?thesis
    by (rule conjI [OF h(1) conjI [OF h(2) conjI [OF h3 conjI [OF h(4) conjI [OF h5
         conjI [OF h6 c]]]]]])
qed

subsection \<open>A settled balancer is left alone\<close>

lemma set_diff_empty: "set xs \<subseteq> set ys \<Longrightarrow> set_diff xs ys = []"
  by (auto simp: set_diff_def filter_empty_conv)

lemma set_zones_settled:
  assumes "members_ok (zones c) (purge_zones c) (availability_zones e)" "elb m = Some e"
  shows "set_zones ev c m = Inr m"
  using assms
  by (cases "purge_zones c")
     (simp_all add: set_zones_def members_ok_def to_enable_def to_disable_def
        set_diff_empty and_then_def truthy_list_def the_list_def)

lemma set_subnets_settled:
  assumes "members_ok (subnets c) (purge_subnets c) (elb_subnets e)" "elb m = Some e"
  shows "set_subnets c m = Inr m"
  using assms
  by (cases "purge_subnets c")
     (simp_all add: set_subnets_def members_ok_def to_enable_def to_disable_def
        set_diff_empty truthy_list_def the_list_def)

lemma set_security_groups_settled:
  assumes "security_groups_ok c e" "elb m = Some e"
  shows "set_security_groups c m = Inr m"
  using assms
  by (simp add: set_security_groups_def security_groups_ok_def split: option.splits)

lemma scan_existing_kept:
  "\<forall>x\<in>set live. api_listener_as_tuple x \<in> set k \<Longrightarrow> scan_existing live r k = r"
  by (induction live arbitrary: r) (simp_all add: Let_def)

lemma listeners_settled_lists:
  assumes "listeners_ok c live"
  shows "listeners_to_add c live = []" and "listeners_to_remove c live = []"
proof -
  from assms have f: "\<forall>l\<in>set (listeners c).
      existing_listener_found (load_balancer_port l) live = Some (listener_as_tuple l)"
    by (simp add: listeners_ok_def)
  then have a: "[l \<leftarrow> listeners c. existing_listener_found (load_balancer_port l) live
      \<noteq> Some (listener_as_tuple l)] = []"
    by (simp add: filter_empty_conv)
  from f have r: "[l \<leftarrow> listeners c. existing_listener_found (load_balancer_port l) live \<noteq> None \<and>
      existing_listener_found (load_balancer_port l) live \<noteq> Some (listener_as_tuple l)] = []"
    by (simp add: filter_empty_conv)
  from f have k: "[l \<leftarrow> listeners c. existing_listener_found (load_balancer_port l) live
      = Some (listener_as_tuple l)] = listeners c"
    by (simp add: filter_id_conv)
  show "listeners_to_add c live = []"
    unfolding listeners_to_add_def scan_desired_eq a by simp
  show "listeners_to_remove c live = []"
  proof (cases "purge_listeners c")
    case True
    with assms have "\<forall>x\<in>set live.
        api_listener_as_tuple x \<in> set (map listener_as_tuple (listeners c))"
      by (simp add: listeners_ok_def)
    then have "scan_existing live [] (map listener_as_tuple (listeners c)) = []"
      by (rule scan_existing_kept)
    with True show ?thesis
      unfolding listeners_to_remove_def scan_desired_eq r k by simp
  next
    case False
    then show ?thesis
      unfolding listeners_to_remove_def scan_desired_eq r by simp
  qed
qed

lemma set_elb_listeners_settled:
  assumes "listeners_ok c (elb_listeners e)" "elb m = Some e"
  shows "set_elb_listeners c m = Inr m"
  using assms(2) listeners_settled_lists [OF assms(1)]
  by (simp add: set_elb_listeners_def and_then_def)

lemma set_health_check_settled:
  assumes "health_check_ok ev c e" "elb m = Some e"
  shows "set_health_check ev c m = Inr m"
proof (cases "health_check c")
  case None
  then show ?thesis by (simp add: set_health_check_def)
next
  case (Some hc)
  with assms(1) have "(case elb_health_check e of None \<Rightarrow> fresh_health_check ev | Some h \<Rightarrow> h)
      = health_check_config hc"
    by (simp add: health_check_ok_def)
  then show ?thesis
    by (simp add: set_health_check_eq [OF Some assms(2)])
qed


lemma delta_calls_set_listener_policy:
  "filter is_delta_call (calls (set_listener_policy n d pol m)) = filter is_delta_call (calls m)"
  by (induction n d pol m rule: set_listener_policy.induct) (simp_all add: calls_issue)

lemma set_stickiness_policy_settled:
  assumes "find (\<lambda>p. pol_policy_name p = pn) pols = Some p" "pol_param p = v"
  shows "set_stickiness_policy n pols d pn meth v m = set_listener_policy n d [pn] m"
  using assms by (simp add: set_stickiness_policy_def)

lemma disable_lb_stickiness_settled:
  assumes "policy_ok False v (policy_name ev ''LBCookieStickinessPolicyType'')
             (lb_cookie_stickiness_policies e)" "\<not> changed m"
  shows "\<not> changed (disable_lb_stickiness ev n e d m)"
    and "filter is_delta_call (calls (disable_lb_stickiness ev n e d m))
          = filter is_delta_call (calls m)"
  using assms
  by (auto simp add: disable_lb_stickiness_def policy_ok_def delete_policy_def changed_issue
      calls_issue changed_set_listener_policy delta_calls_set_listener_policy Let_def
      split: list.splits)

lemma disable_app_stickiness_settled:
  assumes "policy_ok False v (policy_name ev ''AppCookieStickinessPolicyType'')
             (app_cookie_stickiness_policies e)" "\<not> changed m"
  shows "\<not> changed (disable_app_stickiness ev n e d m)"
    and "filter is_delta_call (calls (disable_app_stickiness ev n e d m))
          = filter is_delta_call (calls m)"
  using assms
  by (auto simp add: disable_app_stickiness_def policy_ok_def delete_policy_def changed_issue
      calls_issue changed_set_listener_policy delta_calls_set_listener_policy Let_def
      split: list.splits)

lemma policy_ok_enabledD:
  assumes "policy_ok True param_value pn pols"
  obtains v p where "param_value = Some v" "find (\<lambda>p. pol_policy_name p = pn) pols = Some p"
    "pol_param p = v"
  using assms by (auto simp: policy_ok_def split: option.splits)

lemma select_stickiness_policy_settled:
  assumes ok: "stickiness_ok ev c e" and e: "elb m = Some e" and ch: "\<not> changed m"
  shows "\<exists>m'. select_stickiness_policy ev c m = Inr m' \<and> \<not> changed m' \<and>
           filter is_delta_call (calls m') = filter is_delta_call (calls m)"
proof (cases "stickiness c")
  case None
  with ch show ?thesis by (simp add: select_stickiness_policy_def)
next
  case (Some st)
  with ok have excl: "cookie st = None \<or> expiration st = None"
    by (simp add: stickiness_ok_def)
  let ?m = "issue (GetAllLoadBalancers (Some (elb_name e))) m"
  let ?d = "listeners_dict (elb_listeners e) []"
  have ch': "\<not> changed ?m" using ch by (simp add: changed_issue)
  have dc: "filter is_delta_call (calls ?m) = filter is_delta_call (calls m)"
    by (simp add: calls_issue)
  consider (lb) "stickiness_type st = ''loadbalancer''"
    | (app) "stickiness_type st = ''application''"
    | (other) "stickiness_type st \<noteq> ''loadbalancer''" "stickiness_type st \<noteq> ''application''"
    by blast
  then show ?thesis
  proof cases
    case lb
    with ok Some have p: "policy_ok (enabled st) (expiration st)
        (policy_name ev ''LBCookieStickinessPolicyType'') (lb_cookie_stickiness_policies e)"
      by (simp add: stickiness_ok_def)
    show ?thesis
    proof (cases "enabled st")
      case True
      with p obtain v q where v: "expiration st = Some v"
        "find (\<lambda>p. pol_policy_name p = policy_name ev ''LBCookieStickinessPolicyType'')
           (lb_cookie_stickiness_policies e) = Some q" "pol_param q = v"
        by (auto elim: policy_ok_enabledD)
      from excl v(1) have nc: "cookie st = None" by simp
      have "select_stickiness_policy ev c m =
          Inr (set_listener_policy (elb_name e) ?d
                 [policy_name ev ''LBCookieStickinessPolicyType''] ?m)"
        using Some e lb True v(1) nc
        by (simp add: select_stickiness_policy_def Let_def
            set_stickiness_policy_settled [OF v(2,3)])
      with ch' dc show ?thesis
        by (simp add: changed_set_listener_policy delta_calls_set_listener_policy)
    next
      case False
      have "select_stickiness_policy ev c m =
          Inr (disable_lb_stickiness ev (elb_name e) e ?d ?m)"
        using select_stickiness_policy_disabled [OF Some False excl e, of ev] lb by simp
      with False p ch' dc show ?thesis
        by (simp add: disable_lb_stickiness_settled)
    qed
  next
    case app
    with ok Some have p: "policy_ok (enabled st) (cookie st)
        (policy_name ev ''AppCookieStickinessPolicyType'') (app_cookie_stickiness_policies e)"
      by (simp add: stickiness_ok_def)
    show ?thesis
    proof (cases "enabled st")
      case True
      with p obtain v q where v: "cookie st = Some v"
        "find (\<lambda>p. pol_policy_name p = policy_name ev ''AppCookieStickinessPolicyType'')
           (app_cookie_stickiness_policies e) = Some q" "pol_param q = v"
        by (auto elim: policy_ok_enabledD)
      from excl v(1) have nc: "expiration st = None" by simp
      have "select_stickiness_policy ev c m =
          Inr (set_listener_policy (elb_name e) ?d
                 [policy_name ev ''AppCookieStickinessPolicyType''] ?m)"
        using Some e app True v(1) nc
        by (simp add: select_stickiness_policy_def Let_def
            set_stickiness_policy_settled [OF v(2,3)])
      with ch' dc show ?thesis
        by (simp add: changed_set_listener_policy delta_calls_set_listener_policy)
    next
      case False
      have "select_stickiness_policy ev c m =
          Inr (disable_app_stickiness ev (elb_name e) e ?d ?m)"
        using select_stickiness_policy_disabled [OF Some False excl e, of ev] app by simp
      with False p ch' dc show ?thesis
        by (simp add: disable_app_stickiness_settled)
    qed
  next
    case other
    have "select_stickiness_policy ev c m = Inr (set_listener_policy (elb_name e) ?d [] ?m)"
      using Some e other excl by (auto simp add: select_stickiness_policy_def Let_def)
    with ch' dc show ?thesis
      by (simp add: changed_set_listener_policy delta_calls_set_listener_policy)
  qed
qed


lemma and_then_Inr: "and_then (Inr x) f = f x"
  by (simp add: and_then_def)

lemma and_then_Inl: "and_then (Inl err) f = Inl err"
  by (simp add: and_then_def)

lemma connection_draining_step:
  assumes "elb m = Some e"
  shows "\<exists>m1 cd cs1.
    (if check_attribute_support ev ''connection_draining''
     then set_connection_draining_timeout c m else Inr m) = Inr m1 \<and>
    elb m1 = Some (e\<lparr>connection_draining := cd\<rparr>) \<and> changed m1 = changed m \<and>
    calls m1 = calls m @ cs1 \<and> filter is_delta_call cs1 = []"
proof (cases "check_attribute_support ev ''connection_draining''")
  case True
  show ?thesis
  proof (cases "connection_draining_timeout c")
    case None
    show ?thesis
      by (intro exI [of _ "(connection_draining e)\<lparr>cd_enabled := False\<rparr>"]
            exI [of _ "[GetAttributes, ModifyLbAttribute (name c) ''ConnectionDraining''
                 (Draining ((connection_draining e)\<lparr>cd_enabled := False\<rparr>))]"]
            exI [of _ "issue (ModifyLbAttribute (name c) ''ConnectionDraining''
                 (Draining ((connection_draining e)\<lparr>cd_enabled := False\<rparr>)))
                 (issue GetAttributes m)"])
         (simp add: True None assms set_connection_draining_timeout_def issue_def Let_def)
  next
    case (Some t)
    show ?thesis
      by (intro exI [of _ "(connection_draining e)\<lparr>cd_enabled := True, cd_timeout := t\<rparr>"]
            exI [of _ "[GetAttributes, ModifyLbAttribute (name c) ''ConnectionDraining''
               (Draining ((connection_draining e)\<lparr>cd_enabled := True, cd_timeout := t\<rparr>))]"]
            exI [of _ "issue (ModifyLbAttribute (name c) ''ConnectionDraining''
               (Draining ((connection_draining e)\<lparr>cd_enabled := True, cd_timeout := t\<rparr>)))
               (issue GetAttributes m)"])
         (simp add: True Some assms set_connection_draining_timeout_def issue_def Let_def)
  qed
next
  case False
  show ?thesis
    by (intro exI [of _ m] exI [of _ "connection_draining e"] exI [of _ "[]"])
       (simp add: False assms)
qed

lemma cross_zone_step:
  assumes "elb m = Some e"
  shows "\<exists>m2 cz cs2.
    (if check_attribute_support ev ''cross_zone_load_balancing''
     then set_cross_az_load_balancing c m else Inr m) = Inr m2 \<and>
    elb m2 = Some (e\<lparr>cross_zone_load_balancing := cz\<rparr>) \<and> changed m2 = changed m \<and>
    calls m2 = calls m @ cs2 \<and> filter is_delta_call cs2 = []"
proof (cases "check_attribute_support ev ''cross_zone_load_balancing''")
  case True
  show ?thesis
    by (intro exI [of _ "truthy_bool (cross_az_load_balancing c)"]
          exI [of _ "[GetAttributes, ModifyLbAttribute (name c) ''CrossZoneLoadBalancing''
               (CrossZone (truthy_bool (cross_az_load_balancing c)))]"]
          exI [of _ "issue (ModifyLbAttribute (name c) ''CrossZoneLoadBalancing''
               (CrossZone (truthy_bool (cross_az_load_balancing c)))) (issue GetAttributes m)"])
       (simp add: True assms set_cross_az_load_balancing_def issue_def)
next
  case False
  show ?thesis
    by (intro exI [of _ m] exI [of _ "cross_zone_load_balancing e"] exI [of _ "[]"])
       (simp add: False assms)
qed

lemma attribute_steps:
  assumes "elb m = Some e"
  shows "\<exists>m' cd cz cs.
    and_then (if check_attribute_support ev ''connection_draining''
              then set_connection_draining_timeout c m else Inr m)
      (\<lambda>m. and_then (if check_attribute_support ev ''cross_zone_load_balancing''
                      then set_cross_az_load_balancing c m else Inr m) f) = f m' \<and>
    elb m' = Some (e\<lparr>connection_draining := cd, cross_zone_load_balancing := cz\<rparr>) \<and>
    changed m' = changed m \<and> calls m' = calls m @ cs \<and> filter is_delta_call cs = []"
proof -
  from connection_draining_step [OF assms, of ev c]
  obtain m1 cd cs1 where m1:
    "(if check_attribute_support ev ''connection_draining''
      then set_connection_draining_timeout c m else Inr m) = Inr m1"
    "elb m1 = Some (e\<lparr>connection_draining := cd\<rparr>)" "changed m1 = changed m"
    "calls m1 = calls m @ cs1" "filter is_delta_call cs1 = []"
    by blast
  from cross_zone_step [OF m1(2), of ev c]
  obtain m2 cz cs2 where m2:
    "(if check_attribute_support ev ''cross_zone_load_balancing''
      then set_cross_az_load_balancing c m1 else Inr m1) = Inr m2"
    "elb m2 = Some (e\<lparr>connection_draining := cd, cross_zone_load_balancing := cz\<rparr>)"
    "changed m2 = changed m1" "calls m2 = calls m1 @ cs2" "filter is_delta_call cs2 = []"
    by blast
  have "and_then (if check_attribute_support ev ''connection_draining''
              then set_connection_draining_timeout c m else Inr m)
      (\<lambda>m. and_then (if check_attribute_support ev ''cross_zone_load_balancing''
                      then set_cross_az_load_balancing c m else Inr m) f) = f m2"
    unfolding m1(1) and_then_def sum.case m2(1) ..
  moreover have "calls m2 = calls m @ (cs1 @ cs2)" "filter is_delta_call (cs1 @ cs2) = []"
    "changed m2 = changed m"
    using m1 m2 by simp_all
  ultimately show ?thesis using m2(2) by blast
qed

lemma settled_attributes:
  "settled ev c (e\<lparr>connection_draining := cd, cross_zone_load_balancing := cz\<rparr>)
     = settled ev c e"
  by (simp add: settled_def security_groups_ok_def health_check_ok_def stickiness_ok_def
      cong: option.case_cong if_cong)

lemma settled_run:
  assumes "settled ev c e" "elb m = Some e" "\<not> changed m"
  shows "\<exists>m2. ensure_ok ev c m = Inr m2 \<and> \<not> changed m2 \<and>
           filter is_delta_call (calls m2) = filter is_delta_call (calls m)"
proof -
  from assms(1) have ok:
    "members_ok (zones c) (purge_zones c) (availability_zones e)"
    "security_groups_ok c e" "listeners_ok c (elb_listeners e)"
    "members_ok (subnets c) (purge_subnets c) (elb_subnets e)"
    "health_check_ok ev c e"
    by (simp_all add: settled_def)
  have first: "and_then (set_zones ev c m) (\<lambda>m.
             and_then (set_security_groups c m) (\<lambda>m.
             and_then (set_elb_listeners c m) (\<lambda>m.
             set_subnets c m))) = Inr m"
    by (simp add: and_then_Inr set_zones_settled [OF ok(1) assms(2)]
        set_security_groups_settled [OF ok(2) assms(2)]
        set_elb_listeners_settled [OF ok(3) assms(2)]
        set_subnets_settled [OF ok(4) assms(2)])
  from attribute_steps [OF assms(2), of ev c "select_stickiness_policy ev c"]
  obtain m' cd cz cs where m':
    "and_then (if check_attribute_support ev ''connection_draining''
              then set_connection_draining_timeout c m else Inr m)
      (\<lambda>m. and_then (if check_attribute_support ev ''cross_zone_load_balancing''
                      then set_cross_az_load_balancing c m else Inr m)
             (select_stickiness_policy ev c)) = select_stickiness_policy ev c m'"
    "elb m' = Some (e\<lparr>connection_draining := cd, cross_zone_load_balancing := cz\<rparr>)"
    "changed m' = changed m" "calls m' = calls m @ cs" "filter is_delta_call cs = []"
    by blast
  have run: "ensure_ok ev c m = select_stickiness_policy ev c m'"
    unfolding ensure_ok_def using assms(2)
    by (simp add: first and_then_Inr set_health_check_settled [OF ok(5) assms(2)] m'(1))
  from assms(1) have "settled ev c
      (e\<lparr>connection_draining := cd, cross_zone_load_balancing := cz\<rparr>)"
    by (simp only: settled_attributes)
  then have "stickiness_ok ev c
      (e\<lparr>connection_draining := cd, cross_zone_load_balancing := cz\<rparr>)"
    by (simp only: settled_def)
  from select_stickiness_policy_settled [OF this m'(2)] m'(3) assms(3)
  obtain m2 where "select_stickiness_policy ev c m' = Inr m2" "\<not> changed m2"
    "filter is_delta_call (calls m2) = filter is_delta_call (calls m')"
    by auto
  with run m'(4,5) show ?thesis by simp
qed

subsection \<open>What each step leaves behind\<close>

lemma elb_issue: "elb (issue k m) = provider k (elb m)"
  by (simp add: issue_def)

lemma set_zones_post:
  assumes "set_zones ev c m = Inr m'" "elb m = Some e"
  shows "\<exists>az cs. elb m' = Some (e\<lparr>availability_zones := az\<rparr>) \<and>
     members_ok (zones c) (purge_zones c) az \<and> calls m' = calls m @ cs \<and>
     (changed m \<or> (\<exists>k\<in>set cs. is_reported_call k) \<longrightarrow> changed m')"
proof (cases "truthy_list (zones c)")
  case False
  with assms have "m' = m" by (simp add: set_zones_def)
  with assms(2) False show ?thesis
    by (intro exI [of _ "availability_zones e"] exI [of _ "[]"]) (simp add: members_ok_def)
next
  case True
  define desired where "desired = the_list (zones c)"
  define en where "en = to_enable desired (availability_zones e)"
  define dis where "dis = to_disable (purge_zones c) desired (availability_zones e)"
  define m1 where "m1 = (if en \<noteq> [] then (issue (EnableZones en) m)\<lparr>changed := True\<rparr> else m)"
  define m2 where "m2 = (if truthy_list dis
      then (issue (DisableZones (the_list dis)) m1)\<lparr>changed := True\<rparr> else m1)"
  from assms(1) have r: "and_then
      (if en \<noteq> [] then enable_zones ev en m else Inr m)
      (\<lambda>m. if truthy_list dis then disable_zones ev (the_list dis) m else Inr m) = Inr m'"
    unfolding set_zones_def Let_def desired_def en_def dis_def assms(2) option.case
    using True by (simp only: if_True)
  then have s1: "(if en \<noteq> [] then enable_zones ev en m else Inr m) = Inr m1"
    by (auto simp: and_then_def m1_def enable_zones_def split: sum.splits if_splits option.splits)
  with r have "(if truthy_list dis then disable_zones ev (the_list dis) m1 else Inr m1) = Inr m'"
    by (simp add: and_then_Inr)
  then have m': "m' = m2"
    by (auto simp: m2_def disable_zones_def split: if_splits option.splits)
  define az1 where "az1 = (if en \<noteq> [] then availability_zones e @
      [z \<leftarrow> remdups en. z \<notin> set (availability_zones e)] else availability_zones e)"
  define az2 where "az2 = (if truthy_list dis then [z \<leftarrow> az1. z \<notin> set (the_list dis)] else az1)"
  have e1: "elb m1 = Some (e\<lparr>availability_zones := az1\<rparr>)"
    using assms(2) by (simp add: m1_def az1_def elb_issue)
  have e2: "elb m2 = Some (e\<lparr>availability_zones := az2\<rparr>)"
    using e1 by (simp add: m2_def az2_def elb_issue)
  have en_set: "set en = set desired - set (availability_zones e)"
    by (simp add: en_def to_enable_def set_set_diff)
  have dis_set: "set (the_list dis)
      = (if purge_zones c then set (availability_zones e) - set desired else {})"
    by (auto simp: dis_def to_disable_def the_list_def set_set_diff)
  have az1_set: "set az1 = set (availability_zones e) \<union> set desired"
    using en_set by (auto simp: az1_def)
  have az2_set: "set az2 = set az1 - set (the_list dis)"
    by (auto simp: az2_def truthy_list_def the_list_def split: option.splits)
  have ok: "members_ok (zones c) (purge_zones c) az2"
    unfolding members_ok_def desired_def [symmetric] az2_set az1_set dis_set by auto
  define cs where "cs = (if en \<noteq> [] then [EnableZones en] else []) @
      (if truthy_list dis then [DisableZones (the_list dis)] else [])"
  have c: "calls m2 = calls m @ cs"
    by (simp add: m2_def m1_def cs_def calls_issue)
  have ch: "changed m \<or> (\<exists>k\<in>set cs. is_reported_call k) \<longrightarrow> changed m2"
    by (auto simp: m2_def m1_def cs_def changed_issue split: if_splits)
  from e2 ok c ch show ?thesis unfolding m' by blast
qed


lemma set_subnets_post:
  assumes "set_subnets c m = Inr m'" "elb m = Some e"
  shows "\<exists>sn cs. elb m' = Some (e\<lparr>elb_subnets := sn\<rparr>) \<and>
     members_ok (subnets c) (purge_subnets c) sn \<and> calls m' = calls m @ cs \<and>
     (changed m \<or> (\<exists>k\<in>set cs. is_reported_call k) \<longrightarrow> changed m')"
proof (cases "truthy_list (subnets c)")
  case False
  with assms have "m' = m" by (simp add: set_subnets_def)
  with assms(2) False show ?thesis
    by (intro exI [of _ "elb_subnets e"] exI [of _ "[]"]) (simp add: members_ok_def)
next
  case True
  define desired where "desired = the_list (subnets c)"
  define en where "en = to_enable desired (elb_subnets e)"
  define dis where "dis = to_disable (purge_subnets c) desired (elb_subnets e)"
  define m1 where "m1 = (if en \<noteq> [] then attach_subnets c en m else m)"
  define m2 where "m2 = (if truthy_list dis then detach_subnets c (the_list dis) m1 else m1)"
  from assms(1) have m': "m' = m2"
    unfolding set_subnets_def Let_def desired_def en_def dis_def m1_def m2_def assms(2)
      option.case
    using True by (simp only: if_True sum.inject)
  define sn1 where "sn1 = (if en \<noteq> [] then elb_subnets e @
      [z \<leftarrow> remdups en. z \<notin> set (elb_subnets e)] else elb_subnets e)"
  define sn2 where "sn2 = (if truthy_list dis then [z \<leftarrow> sn1. z \<notin> set (the_list dis)] else sn1)"
  have e1: "elb m1 = Some (e\<lparr>elb_subnets := sn1\<rparr>)"
    using assms(2) by (simp add: m1_def sn1_def attach_subnets_def elb_issue)
  have e2: "elb m2 = Some (e\<lparr>elb_subnets := sn2\<rparr>)"
    using e1 by (simp add: m2_def sn2_def detach_subnets_def elb_issue)
  have en_set: "set en = set desired - set (elb_subnets e)"
    by (simp add: en_def to_enable_def set_set_diff)
  have dis_set: "set (the_list dis)
      = (if purge_subnets c then set (elb_subnets e) - set desired else {})"
    by (auto simp: dis_def to_disable_def the_list_def set_set_diff)
  have sn1_set: "set sn1 = set (elb_subnets e) \<union> set desired"
    using en_set by (auto simp: sn1_def)
  have sn2_set: "set sn2 = set sn1 - set (the_list dis)"
    by (auto simp: sn2_def truthy_list_def the_list_def split: option.splits)
  have ok: "members_ok (subnets c) (purge_subnets c) sn2"
    unfolding members_ok_def desired_def [symmetric] sn2_set sn1_set dis_set by auto
  define cs where "cs = (if en \<noteq> [] then [AttachLbToSubnets (name c) en] else []) @
      (if truthy_list dis then [DetachLbFromSubnets (name c) (the_list dis)] else [])"
  have c: "calls m2 = calls m @ cs"
    by (simp add: m2_def m1_def cs_def calls_issue attach_subnets_def detach_subnets_def)
  have ch: "changed m \<or> (\<exists>k\<in>set cs. is_reported_call k) \<longrightarrow> changed m2"
    by (auto simp: m2_def m1_def cs_def changed_issue attach_subnets_def detach_subnets_def
        split: if_splits)
  from e2 ok c ch show ?thesis unfolding m' by blast
qed

lemma set_security_groups_post:
  assumes "set_security_groups c m = Inr m'" "elb m = Some e"
  shows "\<exists>sg cs. elb m' = Some (e\<lparr>security_groups := sg\<rparr>) \<and>
     security_groups_ok c (e\<lparr>security_groups := sg\<rparr>) \<and> calls m' = calls m @ cs \<and>
     (changed m \<or> (\<exists>k\<in>set cs. is_reported_call k) \<longrightarrow> changed m')"
proof (cases "security_group_ids c")
  case None
  with assms have "m' = m" by (simp add: set_security_groups_def)
  with assms(2) None show ?thesis
    by (intro exI [of _ "security_groups e"] exI [of _ "[]"])
       (simp add: security_groups_ok_def)
next
  case (Some sgs)
  show ?thesis
  proof (cases "set (security_groups e) = set sgs")
    case True
    with assms Some have "m' = m" by (simp add: set_security_groups_def)
    with assms(2) Some True show ?thesis
      by (intro exI [of _ "security_groups e"] exI [of _ "[]"])
         (simp add: security_groups_ok_def)
  next
    case False
    with assms Some have
      "m' = (issue (ApplySecurityGroupsToLb (name c) sgs) m)\<lparr>Changed := Some True\<rparr>"
      by (simp add: set_security_groups_def)
    with assms(2) Some show ?thesis
      by (intro exI [of _ sgs] exI [of _ "[ApplySecurityGroupsToLb (name c) sgs]"])
         (simp add: security_groups_ok_def elb_issue calls_issue changed_issue)
  qed
qed

lemma health_check_obj_eqI:
  fixes a b :: health_check_obj
  assumes "target a = target b" "timeout a = timeout b" "hc_interval a = hc_interval b"
    "hc_unhealthy_threshold a = hc_unhealthy_threshold b"
    "hc_healthy_threshold a = hc_healthy_threshold b"
  shows "a = b"
  using assms by (cases a; cases b) simp

lemma set_health_check_post:
  assumes "set_health_check ev c m = Inr m'" "elb m = Some e"
  shows "\<exists>h cs. elb m' = Some (e\<lparr>elb_health_check := h\<rparr>) \<and>
     health_check_ok ev c (e\<lparr>elb_health_check := h\<rparr>) \<and> calls m' = calls m @ cs \<and>
     (changed m \<or> (\<exists>k\<in>set cs. is_reported_call k) \<longrightarrow> changed m')"
proof (cases "health_check c")
  case None
  with assms have "m' = m" by (simp add: set_health_check_def)
  with assms(2) None show ?thesis
    by (intro exI [of _ "elb_health_check e"] exI [of _ "[]"])
       (simp add: health_check_ok_def)
next
  case (Some hc)
  define live where
    "live = (case elb_health_check e of None \<Rightarrow> fresh_health_check ev | Some h \<Rightarrow> h)"
  show ?thesis
  proof (cases "live = health_check_config hc")
    case True
    with assms have "m' = m"
      by (simp add: set_health_check_eq [OF Some assms(2)] live_def)
    with assms(2) Some True show ?thesis
      by (intro exI [of _ "elb_health_check e"] exI [of _ "[]"])
         (simp add: health_check_ok_def live_def)
  next
    case False
    then have "target live \<noteq> target (health_check_config hc) \<or>
        timeout live \<noteq> timeout (health_check_config hc) \<or>
        hc_interval live \<noteq> hc_interval (health_check_config hc) \<or>
        hc_unhealthy_threshold live \<noteq> hc_unhealthy_threshold (health_check_config hc) \<or>
        hc_healthy_threshold live \<noteq> hc_healthy_threshold (health_check_config hc)"
      using health_check_obj_eqI [of live "health_check_config hc"] by blast
    with assms have
      "m' = (issue (ConfigureHealthCheck (health_check_config hc)) m)\<lparr>changed := True\<rparr>"
      unfolding set_health_check_eq [OF Some assms(2)] live_def [symmetric] Let_def
      by (simp only: if_True sum.inject)
    with assms(2) Some show ?thesis
      by (intro exI [of _ "Some (health_check_config hc)"]
            exI [of _ "[ConfigureHealthCheck (health_check_config hc)]"])
         (simp add: health_check_ok_def elb_issue calls_issue)
  qed
qed


subsection \<open>The listeners after the listener step\<close>

lemma tuple_listener_created: "tuple_listener (listener_as_tuple l) = Some (created_listener l)"
  by (cases "instance_protocol l"; cases "ssl_certificate_id l")
     (simp_all add: tuple_listener_def listener_as_tuple_def created_listener_def)

lemma map_filter_created:
  "List.map_filter tuple_listener (map listener_as_tuple ls) = map created_listener ls"
  by (induction ls) (simp_all add: List.map_filter_simps tuple_listener_created)

lemma created_listener_tuple:
  "ssl_certificate_id l \<noteq> Some [] \<Longrightarrow>
   api_listener_as_tuple (created_listener l) = listener_as_tuple l"
  by (rule matching_live_tuple) (simp_all add: created_listener_def)

lemma found_append:
  "existing_listener_found p (xs @ ys) =
     (case existing_listener_found p xs of
        Some t \<Rightarrow> Some t | None \<Rightarrow> existing_listener_found p ys)"
  by (induction xs) simp_all

lemma found_filter_None:
  "\<forall>x\<in>set xs. api_load_balancer_port x = p \<longrightarrow> \<not> P x \<Longrightarrow>
   existing_listener_found p (filter P xs) = None"
  by (simp add: found_None_iff) blast

lemma found_filter_keep:
  assumes "distinct (map api_load_balancer_port xs)" "x \<in> set xs" "P x"
  shows "existing_listener_found (api_load_balancer_port x) (filter P xs)
           = Some (api_listener_as_tuple x)"
proof (rule found_distinct)
  show "distinct (map api_load_balancer_port (filter P xs))"
    using assms(1) by (rule distinct_map_filter)
  show "x \<in> set (filter P xs)" using assms(2,3) by simp
qed

lemma found_created:
  assumes "distinct (map load_balancer_port ls)" "l \<in> set ls" "ssl_certificate_id l \<noteq> Some []"
  shows "existing_listener_found (load_balancer_port l) (map created_listener ls)
           = Some (listener_as_tuple l)"
proof -
  have p: "api_load_balancer_port \<circ> created_listener = load_balancer_port"
    by (simp add: fun_eq_iff created_listener_def)
  have "existing_listener_found (api_load_balancer_port (created_listener l))
      (map created_listener ls) = Some (api_listener_as_tuple (created_listener l))"
  proof (rule found_distinct)
    show "distinct (map api_load_balancer_port (map created_listener ls))"
      using assms(1) by (simp add: p)
    show "created_listener l \<in> set (map created_listener ls)"
      using assms(2) by simp
  qed
  then show ?thesis
    by (simp add: created_listener_tuple [OF assms(3)]) (simp add: created_listener_def)
qed

lemma distinct_map_eq:
  "distinct (map f xs) \<Longrightarrow> a \<in> set xs \<Longrightarrow> b \<in> set xs \<Longrightarrow> f a = f b \<Longrightarrow> a = b"
  by (meson distinct_map inj_onD)

lemma api_tuple_port:
  "api_listener_as_tuple x = api_listener_as_tuple y \<Longrightarrow>
   api_load_balancer_port x = api_load_balancer_port y"
  using api_listener_as_tuple_Cons [of x] api_listener_as_tuple_Cons [of y] by auto

lemma hd_api_tuple: "hd (api_listener_as_tuple x) = I (api_load_balancer_port x)"
  using api_listener_as_tuple_Cons [of x] by auto


lemma listeners_after_sync:
  assumes dl: "distinct (map api_load_balancer_port live)"
    and dd: "distinct (map load_balancer_port (listeners c))"
    and cert: "\<forall>l\<in>set (listeners c). ssl_certificate_id l \<noteq> Some []"
  shows "listeners_ok c
     ([x \<leftarrow> live. I (api_load_balancer_port x) \<notin> set (map hd (listeners_to_remove c live))] @
      map created_listener
        [l \<leftarrow> listeners c. existing_listener_found (load_balancer_port l) live
                            \<noteq> Some (listener_as_tuple l)])"
    (is "listeners_ok c (filter ?P live @ map created_listener ?A)")
proof -
  let ?R = "listeners_to_remove c live"
  have F1: "?P x \<longleftrightarrow> api_listener_as_tuple x \<notin> set ?R" if "x \<in> set live" for x
  proof -
    have "I (api_load_balancer_port x) \<in> set (map hd ?R) \<longleftrightarrow> api_listener_as_tuple x \<in> set ?R"
    proof
      assume "I (api_load_balancer_port x) \<in> set (map hd ?R)"
      then obtain t where t: "t \<in> set ?R" "hd t = I (api_load_balancer_port x)" by auto
      from t(1) obtain y where y: "y \<in> set live" "t = api_listener_as_tuple y"
        using to_remove_subset [of c live] by blast
      from t(2) y(2) have "api_load_balancer_port y = api_load_balancer_port x"
        by (simp add: hd_api_tuple)
      with dl y(1) that have "y = x" by (rule distinct_map_eq)
      with t(1) y(2) show "api_listener_as_tuple x \<in> set ?R" by simp
    next
      assume "api_listener_as_tuple x \<in> set ?R"
      then have "hd (api_listener_as_tuple x) \<in> hd ` set ?R" by (rule imageI)
      then show "I (api_load_balancer_port x) \<in> set (map hd ?R)"
        by (simp add: hd_api_tuple)
    qed
    then show ?thesis by blast
  qed
  have dA: "distinct (map load_balancer_port ?A)"
    using dd by (rule distinct_map_filter)
  have found_ok: "existing_listener_found (load_balancer_port d)
      (filter ?P live @ map created_listener ?A) = Some (listener_as_tuple d)"
    if d: "d \<in> set (listeners c)" for d
  proof (cases "existing_listener_found (load_balancer_port d) live = Some (listener_as_tuple d)")
    case True
    then obtain x where x: "x \<in> set live" "api_load_balancer_port x = load_balancer_port d"
      "listener_as_tuple d = api_listener_as_tuple x"
      by (auto dest: found_SomeD)
    have "api_listener_as_tuple x \<notin> set ?R"
    proof
      assume "api_listener_as_tuple x \<in> set ?R"
      then consider
        (replaced) l where "l \<in> set (listeners c)"
          "existing_listener_found (load_balancer_port l) live = Some (api_listener_as_tuple x)"
          "api_listener_as_tuple x \<noteq> listener_as_tuple l"
        | (purged) "\<not> (\<exists>l\<in>set (listeners c).
            existing_listener_found (load_balancer_port l) live = Some (listener_as_tuple l) \<and>
            listener_as_tuple l = api_listener_as_tuple x)"
        unfolding to_remove_iff by blast
      then show False
      proof cases
        case replaced
        from replaced(2) obtain y where y: "y \<in> set live"
          "api_load_balancer_port y = load_balancer_port l"
          "api_listener_as_tuple x = api_listener_as_tuple y"
          by (auto dest: found_SomeD)
        from y(3) have "api_load_balancer_port x = api_load_balancer_port y"
          by (rule api_tuple_port)
        with y(2) x(2) have "load_balancer_port l = load_balancer_port d" by simp
        with dd replaced(1) d have "l = d" by (rule distinct_map_eq)
        with replaced(3) x(3) show False by simp
      next
        case purged
        with d True x(3) show False by auto
      qed
    qed
    with x(1) have "?P x" using F1 [of x] by blast
    with dl x(1) have "existing_listener_found (api_load_balancer_port x) (filter ?P live)
        = Some (api_listener_as_tuple x)"
      by (rule found_filter_keep)
    then show ?thesis by (simp add: found_append x(2,3))
  next
    case False
    have "\<forall>y\<in>set live. api_load_balancer_port y = load_balancer_port d \<longrightarrow> \<not> ?P y"
    proof (intro ballI impI)
      fix y assume y: "y \<in> set live" "api_load_balancer_port y = load_balancer_port d"
      from dl y(1) have "existing_listener_found (api_load_balancer_port y) live
          = Some (api_listener_as_tuple y)"
        by (rule found_distinct)
      with y(2) False d have "api_listener_as_tuple y \<in> set ?R"
        unfolding to_remove_iff by auto
      with y(1) show "\<not> ?P y" using F1 [of y] by blast
    qed
    then have n: "existing_listener_found (load_balancer_port d) (filter ?P live) = None"
      by (rule found_filter_None)
    from d False have "d \<in> set ?A" by simp
    with dA have "existing_listener_found (load_balancer_port d) (map created_listener ?A)
        = Some (listener_as_tuple d)"
      using cert d by (intro found_created) auto
    with n show ?thesis by (simp add: found_append)
  qed
  have purge_ok: "api_listener_as_tuple x \<in> listener_as_tuple ` set (listeners c)"
    if p: "purge_listeners c" and x: "x \<in> set (filter ?P live @ map created_listener ?A)" for x
  proof -
    from x consider (old) "x \<in> set live" "?P x" | (new) l where "l \<in> set ?A" "x = created_listener l"
      by auto
    then show ?thesis
    proof cases
      case old
      then have "api_listener_as_tuple x \<notin> set ?R" using F1 [of x] by blast
      with p old(1) have "\<exists>l\<in>set (listeners c).
          existing_listener_found (load_balancer_port l) live = Some (listener_as_tuple l) \<and>
          listener_as_tuple l = api_listener_as_tuple x"
        unfolding to_remove_iff by blast
      then show ?thesis by force
    next
      case new
      then have "l \<in> set (listeners c)" by simp
      with cert new(2) show ?thesis by (simp add: created_listener_tuple)
    qed
  qed
  show ?thesis
    unfolding listeners_ok_def using found_ok purge_ok by blast
qed


lemma listeners_to_add_eq:
  "listeners_to_add c live =
     map listener_as_tuple
       [l \<leftarrow> listeners c. existing_listener_found (load_balancer_port l) live
                           \<noteq> Some (listener_as_tuple l)]"
  by (simp add: listeners_to_add_def scan_desired_eq)

lemma set_elb_listeners_post:
  assumes r: "set_elb_listeners c m = Inr m'" and e: "elb m = Some e"
    and dl: "distinct (map api_load_balancer_port (elb_listeners e))"
    and dd: "distinct (map load_balancer_port (listeners c))"
    and cert: "\<forall>l\<in>set (listeners c). ssl_certificate_id l \<noteq> Some []"
  shows "\<exists>ls cs. elb m' = Some (e\<lparr>elb_listeners := ls\<rparr>) \<and> listeners_ok c ls \<and>
     calls m' = calls m @ cs \<and>
     (changed m \<or> (\<exists>k\<in>set cs. is_reported_call k) \<longrightarrow> changed m')"
proof -
  let ?live = "elb_listeners e"
  let ?R = "listeners_to_remove c ?live"
  let ?A = "[l \<leftarrow> listeners c. existing_listener_found (load_balancer_port l) ?live
                           \<noteq> Some (listener_as_tuple l)]"
  let ?ls = "[x \<leftarrow> ?live. I (api_load_balancer_port x) \<notin> set (map hd ?R)] @
      map created_listener ?A"
  let ?cs = "(if ?R \<noteq> [] then [DeleteLoadBalancerListeners (name c) (map hd ?R)] else []) @
      (if listeners_to_add c ?live \<noteq> []
       then [CreateLoadBalancerListeners (name c) (listeners_to_add c ?live)] else [])"
  from r have m': "m' = (if listeners_to_add c ?live \<noteq> []
                 then create_elb_listeners c (listeners_to_add c ?live) else id)
                ((if ?R \<noteq> []
                  then (\<lambda>m. (issue (DeleteLoadBalancerListeners (name c) (map hd ?R)) m)
                             \<lparr>changed := True\<rparr>)
                  else id) m)"
    unfolding set_elb_listeners_eq [OF e] by simp
  have ok: "listeners_ok c ?ls"
    using dl dd cert by (rule listeners_after_sync)
  have el: "elb m' = Some (e\<lparr>elb_listeners := ?ls\<rparr>)"
    unfolding m'
    by (cases "?R = []"; cases "?A = []")
       (simp_all add: listeners_to_add_eq create_elb_listeners_def elb_issue e
          map_filter_created)
  have c: "calls m' = calls m @ ?cs"
    unfolding m'
    by (cases "?R = []"; cases "listeners_to_add c ?live = []")
       (simp_all add: create_elb_listeners_def calls_issue)
  have ch: "changed m \<or> (\<exists>k\<in>set ?cs. is_reported_call k) \<longrightarrow> changed m'"
    unfolding m'
    by (cases "?R = []"; cases "listeners_to_add c ?live = []")
       (simp_all add: create_elb_listeners_def changed_issue)
  from el ok c ch show ?thesis by blast
qed

lemma set_listener_policy_elb:
  "elb m = Some e \<Longrightarrow>
   \<exists>g. elb (set_listener_policy n d pol m) =
         Some (e\<lparr>elb_listeners := map (\<lambda>l. l\<lparr>api_policy_names := g l\<rparr>) (elb_listeners e)\<rparr>)"
proof (induction n d pol m arbitrary: e rule: set_listener_policy.induct)
  case (1 n pol m)
  then show ?case
    by (intro exI [of _ api_policy_names]) simp
next
  case (2 n listener_port proto d pol m)
  show ?case
  proof (cases "startswith proto ''HTTP''")
    case False
    with 2 show ?thesis by simp
  next
    case True
    let ?h = "\<lambda>l. if api_load_balancer_port l = listener_port then pol else api_policy_names l"
    have "elb (issue (SetLbPoliciesOfListener n listener_port pol) m) =
        Some (e\<lparr>elb_listeners := map (\<lambda>l. l\<lparr>api_policy_names := ?h l\<rparr>) (elb_listeners e)\<rparr>)"
      using "2.prems" by (simp add: elb_issue)
    moreover have "\<And>e'. elb (issue (SetLbPoliciesOfListener n listener_port pol) m) = Some e'
        \<Longrightarrow> \<exists>g. elb (set_listener_policy n d pol
                       (issue (SetLbPoliciesOfListener n listener_port pol) m)) =
                Some (e'\<lparr>elb_listeners :=
                  map (\<lambda>l. l\<lparr>api_policy_names := g l\<rparr>) (elb_listeners e')\<rparr>)"
      using "2.IH" True by simp
    ultimately obtain g where
      "elb (set_listener_policy n d pol (issue (SetLbPoliciesOfListener n listener_port pol) m))
        = Some (e\<lparr>elb_listeners := map (\<lambda>l. l\<lparr>api_policy_names := g l\<rparr>)
             (map (\<lambda>l. l\<lparr>api_policy_names := ?h l\<rparr>) (elb_listeners e))\<rparr>)"
      by auto
    then show ?thesis
      using True
      by (intro exI [of _ "\<lambda>l. g (l\<lparr>api_policy_names := ?h l\<rparr>)"]) (simp add: comp_def)
  qed
qed

lemma api_tuple_policy_names:
  "api_listener_as_tuple (l\<lparr>api_policy_names := v\<rparr>) = api_listener_as_tuple l"
  by (simp add: api_listener_as_tuple_def get_complex_tuple_def Let_def cong: if_cong)

lemma found_policy_names:
  "existing_listener_found p (map (\<lambda>l. l\<lparr>api_policy_names := g l\<rparr>) ls)
     = existing_listener_found p ls"
  by (induction ls) (simp_all add: api_tuple_policy_names)

lemma listeners_ok_policy_names:
  "listeners_ok c (map (\<lambda>l. l\<lparr>api_policy_names := g l\<rparr>) ls) = listeners_ok c ls"
  by (simp add: listeners_ok_def found_policy_names api_tuple_policy_names)

subsection \<open>The stickiness step\<close>

lemma reports_refl: "reports m m"
  by (simp add: reports_def)

lemma reports_trans: "reports m m' \<Longrightarrow> reports m' m'' \<Longrightarrow> reports m m''"
  unfolding reports_def by (elim exE conjE) (rule exI [of _ "_ @ _"], auto)

lemma reports_issue: "\<not> is_reported_call k \<Longrightarrow> reports m (issue k m)"
  by (simp add: reports_def calls_issue changed_issue)

lemma reports_issue_changed: "reports m ((issue k m)\<lparr>changed := True\<rparr>)"
  by (simp add: reports_def calls_issue)

lemma reports_changed: "reports m m' \<Longrightarrow> reports m (m'\<lparr>changed := True\<rparr>)"
  by (auto simp: reports_def)

lemma reports_set_listener_policy: "reports m (set_listener_policy n d pol m)"
proof (induction n d pol m rule: set_listener_policy.induct)
  case (1 n pol m)
  show ?case by (simp add: reports_refl)
next
  case (2 n listener_port proto d pol m)
  show ?case
  proof (cases "startswith proto ''HTTP''")
    case True
    have "reports m (issue (SetLbPoliciesOfListener n listener_port pol) m)"
      by (rule reports_issue) simp
    moreover have "reports (issue (SetLbPoliciesOfListener n listener_port pol) m)
        (set_listener_policy n d pol (issue (SetLbPoliciesOfListener n listener_port pol) m))"
      using "2.IH" True by simp
    ultimately show ?thesis using True by (simp add: reports_trans)
  next
    case False
    with "2.IH" show ?thesis by simp
  qed
qed

lemmas [trans] = reports_trans

lemma find_append_None:
  "find P xs = None \<Longrightarrow> find P (xs @ ys) = find P ys"
  by (induction xs) (auto split: if_splits)

lemma find_filter_not: "find P (filter (\<lambda>x. \<not> P x) xs) = None"
  by (simp add: find_None_iff)

lemma set_stickiness_policy_lb_post:
  fixes n d pn v
  assumes e: "elb m = Some e"
  defines "m' \<equiv> set_stickiness_policy n (lb_cookie_stickiness_policies e) d pn
      ''create_lb_cookie_stickiness_policy'' v m"
  shows "\<exists>lbp appp g.
     elb m' = Some (e\<lparr>elb_listeners :=
                        map (\<lambda>l. l\<lparr>api_policy_names := g l\<rparr>) (elb_listeners e),
                      lb_cookie_stickiness_policies := lbp,
                      app_cookie_stickiness_policies := appp\<rparr>) \<and>
     policy_ok True (Some v) pn lbp \<and> reports m m'"
proof (cases "find (\<lambda>p. pol_policy_name p = pn) (lb_cookie_stickiness_policies e)")
  case None
  let ?new = "\<lparr>pol_policy_name = pn, pol_param = v\<rparr>"
  let ?lbp = "lb_cookie_stickiness_policies e @ [?new]"
  let ?m1 = "(create_policy n v ''create_lb_cookie_stickiness_policy'' pn m)\<lparr>changed := True\<rparr>"
  have m': "m' = set_listener_policy n d [pn] ?m1"
    by (simp add: m'_def set_stickiness_policy_def None)
  have e1: "elb ?m1 = Some (e\<lparr>lb_cookie_stickiness_policies := ?lbp\<rparr>)"
    by (simp add: create_policy_def elb_issue e)
  from set_listener_policy_elb [OF e1, of n d "[pn]"] obtain g where
    g: "elb (set_listener_policy n d [pn] ?m1) =
      Some (e\<lparr>lb_cookie_stickiness_policies := ?lbp,
             elb_listeners := map (\<lambda>l. l\<lparr>api_policy_names := g l\<rparr>)
               (elb_listeners (e\<lparr>lb_cookie_stickiness_policies := ?lbp\<rparr>))\<rparr>)"
    by blast
  have "elb m' = Some (e\<lparr>elb_listeners :=
                        map (\<lambda>l. l\<lparr>api_policy_names := g l\<rparr>) (elb_listeners e),
                      lb_cookie_stickiness_policies := ?lbp,
                      app_cookie_stickiness_policies := app_cookie_stickiness_policies e\<rparr>)"
    unfolding m' g by simp
  moreover have "policy_ok True (Some v) pn ?lbp"
    by (simp add: policy_ok_def find_append_None [OF None])
  moreover have "reports m m'"
    unfolding m' create_policy_def
    by (rule reports_trans [OF reports_issue_changed reports_set_listener_policy])
  ultimately show ?thesis by blast
next
  case (Some p)
  show ?thesis
  proof (cases "pol_param p = v")
    case True
    have m': "m' = set_listener_policy n d [pn] m"
      by (simp add: m'_def set_stickiness_policy_def Some True)
    from set_listener_policy_elb [OF e, of n d "[pn]"] obtain g where
      g: "elb (set_listener_policy n d [pn] m) =
        Some (e\<lparr>elb_listeners := map (\<lambda>l. l\<lparr>api_policy_names := g l\<rparr>)
                 (elb_listeners e)\<rparr>)"
      by blast
    have "elb m' = Some (e\<lparr>elb_listeners :=
                        map (\<lambda>l. l\<lparr>api_policy_names := g l\<rparr>) (elb_listeners e),
                      lb_cookie_stickiness_policies := lb_cookie_stickiness_policies e,
                      app_cookie_stickiness_policies := app_cookie_stickiness_policies e\<rparr>)"
      unfolding m' g by simp
    moreover have "policy_ok True (Some v) pn (lb_cookie_stickiness_policies e)"
      by (simp add: policy_ok_def Some True)
    moreover have "reports m m'"
      unfolding m' by (rule reports_set_listener_policy)
    ultimately show ?thesis by blast
  next
    case False
    let ?new = "\<lparr>pol_policy_name = pn, pol_param = v\<rparr>"
    let ?lbp = "[p \<leftarrow> lb_cookie_stickiness_policies e. pol_policy_name p \<noteq> pn] @ [?new]"
    let ?appp = "[p \<leftarrow> app_cookie_stickiness_policies e. pol_policy_name p \<noteq> pn]"
    let ?m0 = "set_listener_policy n d [] m"
    let ?m1 = "(update_policy n v ''create_lb_cookie_stickiness_policy'' pn ?m0)
                 \<lparr>changed := True\<rparr>"
    have m': "m' = set_listener_policy n d [pn] ?m1"
      by (simp add: m'_def set_stickiness_policy_def Some False)
    from set_listener_policy_elb [OF e, of n d "[]"] obtain g0 where
      e0: "elb ?m0 = Some (e\<lparr>elb_listeners :=
                        map (\<lambda>l. l\<lparr>api_policy_names := g0 l\<rparr>) (elb_listeners e)\<rparr>)"
      by blast
    have e1: "elb ?m1 = Some (e\<lparr>elb_listeners :=
                        map (\<lambda>l. l\<lparr>api_policy_names := g0 l\<rparr>) (elb_listeners e),
                      lb_cookie_stickiness_policies := ?lbp,
                      app_cookie_stickiness_policies := ?appp\<rparr>)"
      by (simp add: update_policy_def create_policy_def delete_policy_def elb_issue e0)
    let ?e1 = "e\<lparr>elb_listeners :=
                        map (\<lambda>l. l\<lparr>api_policy_names := g0 l\<rparr>) (elb_listeners e),
                      lb_cookie_stickiness_policies := ?lbp,
                      app_cookie_stickiness_policies := ?appp\<rparr>"
    from set_listener_policy_elb [OF e1, of n d "[pn]"] obtain g1 where
      g1: "elb (set_listener_policy n d [pn] ?m1) =
        Some (?e1\<lparr>elb_listeners := map (\<lambda>l. l\<lparr>api_policy_names := g1 l\<rparr>)
                 (elb_listeners ?e1)\<rparr>)"
      by blast
    have "elb m' = Some (e\<lparr>elb_listeners :=
                        map (\<lambda>l. l\<lparr>api_policy_names := g1 (l\<lparr>api_policy_names := g0 l\<rparr>)\<rparr>)
                          (elb_listeners e),
                      lb_cookie_stickiness_policies := ?lbp,
                      app_cookie_stickiness_policies := ?appp\<rparr>)"
      unfolding m' g1 by (simp add: comp_def)
    moreover have "policy_ok True (Some v) pn ?lbp"
      by (simp add: policy_ok_def find_append_None [OF find_filter_not])
    moreover have "reports m m'"
    proof -
      have "reports m ?m0" by (rule reports_set_listener_policy)
      also have "reports ?m0 (delete_policy n pn ?m0)"
        unfolding delete_policy_def by (rule reports_issue) simp
      also have "reports (delete_policy n pn ?m0) ?m1"
        unfolding update_policy_def create_policy_def by (rule reports_issue_changed)
      also have "reports ?m1 m'"
        unfolding m' by (rule reports_set_listener_policy)
      finally show ?thesis .
    qed
    ultimately show ?thesis
      by (intro exI [of _ ?lbp] exI [of _ ?appp]
            exI [of _ "\<lambda>l. g1 (l\<lparr>api_policy_names := g0 l\<rparr>)"] conjI)
  qed
qed

lemma set_stickiness_policy_app_post:
  fixes n d pn v
  assumes e: "elb m = Some e"
  defines "m' \<equiv> set_stickiness_policy n (app_cookie_stickiness_policies e) d pn
      ''create_app_cookie_stickiness_policy'' v m"
  shows "\<exists>appp lbp g.
     elb m' = Some (e\<lparr>elb_listeners :=
                        map (\<lambda>l. l\<lparr>api_policy_names := g l\<rparr>) (elb_listeners e),
                      app_cookie_stickiness_policies := appp,
                      lb_cookie_stickiness_policies := lbp\<rparr>) \<and>
     policy_ok True (Some v) pn appp \<and> reports m m'"
proof (cases "find (\<lambda>p. pol_policy_name p = pn) (app_cookie_stickiness_policies e)")
  case None
  let ?new = "\<lparr>pol_policy_name = pn, pol_param = v\<rparr>"
  let ?appp = "app_cookie_stickiness_policies e @ [?new]"
  let ?m1 = "(create_policy n v ''create_app_cookie_stickiness_policy'' pn m)\<lparr>changed := True\<rparr>"
  have m': "m' = set_listener_policy n d [pn] ?m1"
    by (simp add: m'_def set_stickiness_policy_def None)
  have e1: "elb ?m1 = Some (e\<lparr>app_cookie_stickiness_policies := ?appp\<rparr>)"
    by (simp add: create_policy_def elb_issue e)
  from set_listener_policy_elb [OF e1, of n d "[pn]"] obtain g where
    g: "elb (set_listener_policy n d [pn] ?m1) =
      Some (e\<lparr>app_cookie_stickiness_policies := ?appp,
             elb_listeners := map (\<lambda>l. l\<lparr>api_policy_names := g l\<rparr>)
               (elb_listeners (e\<lparr>app_cookie_stickiness_policies := ?appp\<rparr>))\<rparr>)"
    by blast
  have "elb m' = Some (e\<lparr>elb_listeners :=
                        map (\<lambda>l. l\<lparr>api_policy_names := g l\<rparr>) (elb_listeners e),
                      app_cookie_stickiness_policies := ?appp,
                      lb_cookie_stickiness_policies := lb_cookie_stickiness_policies e\<rparr>)"
    unfolding m' g by simp
  moreover have "policy_ok True (Some v) pn ?appp"
    by (simp add: policy_ok_def find_append_None [OF None])
  moreover have "reports m m'"
    unfolding m' create_policy_def
    by (rule reports_trans [OF reports_issue_changed reports_set_listener_policy])
  ultimately show ?thesis by blast
next
  case (Some p)
  show ?thesis
  proof (cases "pol_param p = v")
    case True
    have m': "m' = set_listener_policy n d [pn] m"
      by (simp add: m'_def set_stickiness_policy_def Some True)
    from set_listener_policy_elb [OF e, of n d "[pn]"] obtain g where
      g: "elb (set_listener_policy n d [pn] m) =
        Some (e\<lparr>elb_listeners := map (\<lambda>l. l\<lparr>api_policy_names := g l\<rparr>)
                 (elb_listeners e)\<rparr>)"
      by blast
    have "elb m' = Some (e\<lparr>elb_listeners :=
                        map (\<lambda>l. l\<lparr>api_policy_names := g l\<rparr>) (elb_listeners e),
                      app_cookie_stickiness_policies := app_cookie_stickiness_policies e,
                      lb_cookie_stickiness_policies := lb_cookie_stickiness_policies e\<rparr>)"
      unfolding m' g by simp
    moreover have "policy_ok True (Some v) pn (app_cookie_stickiness_policies e)"
      by (simp add: policy_ok_def Some True)
    moreover have "reports m m'"
      unfolding m' by (rule reports_set_listener_policy)
    ultimately show ?thesis by blast
  next
    case False
    let ?new = "\<lparr>pol_policy_name = pn, pol_param = v\<rparr>"
    let ?appp = "[p \<leftarrow> app_cookie_stickiness_policies e. pol_policy_name p \<noteq> pn] @ [?new]"
    let ?lbp = "[p \<leftarrow> lb_cookie_stickiness_policies e. pol_policy_name p \<noteq> pn]"
    let ?m0 = "set_listener_policy n d [] m"
    let ?m1 = "(update_policy n v ''create_app_cookie_stickiness_policy'' pn ?m0)
                 \<lparr>changed := True\<rparr>"
    have m': "m' = set_listener_policy n d [pn] ?m1"
      by (simp add: m'_def set_stickiness_policy_def Some False)
    from set_listener_policy_elb [OF e, of n d "[]"] obtain g0 where
      e0: "elb ?m0 = Some (e\<lparr>elb_listeners :=
                        map (\<lambda>l. l\<lparr>api_policy_names := g0 l\<rparr>) (elb_listeners e)\<rparr>)"
      by blast
    have e1: "elb ?m1 = Some (e\<lparr>elb_listeners :=
                        map (\<lambda>l. l\<lparr>api_policy_names := g0 l\<rparr>) (elb_listeners e),
                      app_cookie_stickiness_policies := ?appp,
                      lb_cookie_stickiness_policies := ?lbp\<rparr>)"
      by (simp add: update_policy_def create_policy_def delete_policy_def elb_issue e0)
    let ?e1 = "e\<lparr>elb_listeners :=
                        map (\<lambda>l. l\<lparr>api_policy_names := g0 l\<rparr>) (elb_listeners e),
                      app_cookie_stickiness_policies := ?appp,
                      lb_cookie_stickiness_policies := ?lbp\<rparr>"
    from set_listener_policy_elb [OF e1, of n d "[pn]"] obtain g1 where
      g1: "elb (set_listener_policy n d [pn] ?m1) =
        Some (?e1\<lparr>elb_listeners := map (\<lambda>l. l\<lparr>api_policy_names := g1 l\<rparr>)
                 (elb_listeners ?e1)\<rparr>)"
      by blast
    have "elb m' = Some (e\<lparr>elb_listeners :=
                        map (\<lambda>l. l\<lparr>api_policy_names := g1 (l\<lparr>api_policy_names := g0 l\<rparr>)\<rparr>)
                          (elb_listeners e),
                      app_cookie_stickiness_policies := ?appp,
                      lb_cookie_stickiness_policies := ?lbp\<rparr>)"
      unfolding m' g1 by (simp add: comp_def)
    moreover have "policy_ok True (Some v) pn ?appp"
      by (simp add: policy_ok_def find_append_None [OF find_filter_not])
    moreover have "reports m m'"
    proof -
      have "reports m ?m0" by (rule reports_set_listener_policy)
      also have "reports ?m0 (delete_policy n pn ?m0)"
        unfolding delete_policy_def by (rule reports_issue) simp
      also have "reports (delete_policy n pn ?m0) ?m1"
        unfolding update_policy_def create_policy_def by (rule reports_issue_changed)
      also have "reports ?m1 m'"
        unfolding m' by (rule reports_set_listener_policy)
      finally show ?thesis .
    qed
    ultimately show ?thesis
      by (intro exI [of _ ?appp] exI [of _ ?lbp]
            exI [of _ "\<lambda>l. g1 (l\<lparr>api_policy_names := g0 l\<rparr>)"] conjI)
  qed
qed

lemma policy_ok_filtered:
  "policy_ok False v pn [p \<leftarrow> pols. pol_policy_name p \<noteq> pn]"
proof (cases "[p \<leftarrow> pols. pol_policy_name p \<noteq> pn]")
  case Nil
  then show ?thesis by (simp add: policy_ok_def)
next
  case (Cons q qs)
  then have "q \<in> set [p \<leftarrow> pols. pol_policy_name p \<noteq> pn]" by simp
  then have "pol_policy_name q \<noteq> pn" by simp
  with Cons show ?thesis by (simp add: policy_ok_def)
qed

lemma disable_lb_stickiness_post:
  assumes e: "elb m = Some e"
  shows "\<exists>lbp appp g.
     elb (disable_lb_stickiness ev n e d m) =
       Some (e\<lparr>elb_listeners :=
                 map (\<lambda>l. l\<lparr>api_policy_names := g l\<rparr>) (elb_listeners e),
               lb_cookie_stickiness_policies := lbp,
               app_cookie_stickiness_policies := appp\<rparr>) \<and>
     policy_ok False v (policy_name ev ''LBCookieStickinessPolicyType'') lbp \<and>
     (lb_cookie_stickiness_policies e \<noteq> [] \<longrightarrow> reports m (disable_lb_stickiness ev n e d m))"
proof -
  let ?pn = "policy_name ev ''LBCookieStickinessPolicyType''"
  let ?m1 = "case lb_cookie_stickiness_policies e of
               [] \<Rightarrow> m\<lparr>changed := False\<rparr>
             | p # ps \<Rightarrow> if pol_policy_name p = ?pn then m\<lparr>changed := True\<rparr> else m"
  let ?m2 = "set_listener_policy n d [] ?m1"
  have r: "disable_lb_stickiness ev n e d m = delete_policy n ?pn ?m2"
    by (simp add: disable_lb_stickiness_def Let_def)
  have e1: "elb ?m1 = Some e"
    using e by (simp split: list.split)
  from set_listener_policy_elb [OF e1, of n d "[]"] obtain g where
    g: "elb ?m2 = Some (e\<lparr>elb_listeners :=
          map (\<lambda>l. l\<lparr>api_policy_names := g l\<rparr>) (elb_listeners e)\<rparr>)"
    by blast
  have "elb (disable_lb_stickiness ev n e d m) =
       Some (e\<lparr>elb_listeners :=
                 map (\<lambda>l. l\<lparr>api_policy_names := g l\<rparr>) (elb_listeners e),
               lb_cookie_stickiness_policies :=
                 [p \<leftarrow> lb_cookie_stickiness_policies e. pol_policy_name p \<noteq> ?pn],
               app_cookie_stickiness_policies :=
                 [p \<leftarrow> app_cookie_stickiness_policies e. pol_policy_name p \<noteq> ?pn]\<rparr>)"
    unfolding r delete_policy_def elb_issue g by simp
  moreover have "lb_cookie_stickiness_policies e \<noteq> [] \<longrightarrow>
      reports m (disable_lb_stickiness ev n e d m)"
  proof
    assume "lb_cookie_stickiness_policies e \<noteq> []"
    then have "reports m ?m1"
      by (cases "lb_cookie_stickiness_policies e")
         (simp_all add: reports_refl reports_changed)
    also have "reports ?m1 ?m2" by (rule reports_set_listener_policy)
    also have "reports ?m2 (delete_policy n ?pn ?m2)"
      unfolding delete_policy_def by (rule reports_issue) simp
    finally show "reports m (disable_lb_stickiness ev n e d m)" unfolding r .
  qed
  ultimately show ?thesis
    using policy_ok_filtered [of v ?pn "lb_cookie_stickiness_policies e"]
    by (intro exI [of _ "[p \<leftarrow> lb_cookie_stickiness_policies e. pol_policy_name p \<noteq> ?pn]"]
          exI [of _ "[p \<leftarrow> app_cookie_stickiness_policies e. pol_policy_name p \<noteq> ?pn]"]
          exI [of _ g] conjI)
qed

lemma disable_app_stickiness_post:
  assumes e: "elb m = Some e"
  shows "\<exists>lbp appp g.
     elb (disable_app_stickiness ev n e d m) =
       Some (e\<lparr>elb_listeners :=
                 map (\<lambda>l. l\<lparr>api_policy_names := g l\<rparr>) (elb_listeners e),
               lb_cookie_stickiness_policies := lbp,
               app_cookie_stickiness_policies := appp\<rparr>) \<and>
     policy_ok False v (policy_name ev ''AppCookieStickinessPolicyType'') appp \<and>
     reports m (disable_app_stickiness ev n e d m)"
proof -
  let ?pn = "policy_name ev ''AppCookieStickinessPolicyType''"
  let ?m1 = "case app_cookie_stickiness_policies e of
               [] \<Rightarrow> m
             | p # ps \<Rightarrow> if pol_policy_name p = ?pn then m\<lparr>changed := True\<rparr> else m"
  let ?m2 = "set_listener_policy n d [] ?m1"
  have r: "disable_app_stickiness ev n e d m = delete_policy n ?pn ?m2"
    by (simp add: disable_app_stickiness_def Let_def)
  have e1: "elb ?m1 = Some e"
    using e by (simp split: list.split)
  from set_listener_policy_elb [OF e1, of n d "[]"] obtain g where
    g: "elb ?m2 = Some (e\<lparr>elb_listeners :=
          map (\<lambda>l. l\<lparr>api_policy_names := g l\<rparr>) (elb_listeners e)\<rparr>)"
    by blast
  have "elb (disable_app_stickiness ev n e d m) =
       Some (e\<lparr>elb_listeners :=
                 map (\<lambda>l. l\<lparr>api_policy_names := g l\<rparr>) (elb_listeners e),
               lb_cookie_stickiness_policies :=
                 [p \<leftarrow> lb_cookie_stickiness_policies e. pol_policy_name p \<noteq> ?pn],
               app_cookie_stickiness_policies :=
                 [p \<leftarrow> app_cookie_stickiness_policies e. pol_policy_name p \<noteq> ?pn]\<rparr>)"
    unfolding r delete_policy_def elb_issue g by simp
  moreover have "reports m (disable_app_stickiness ev n e d m)"
  proof -
    have "reports m ?m1"
      by (cases "app_cookie_stickiness_policies e")
         (simp_all add: reports_refl reports_changed)
    also have "reports ?m1 ?m2" by (rule reports_set_listener_policy)
    also have "reports ?m2 (delete_policy n ?pn ?m2)"
      unfolding delete_policy_def by (rule reports_issue) simp
    finally show ?thesis unfolding r .
  qed
  ultimately show ?thesis
    using policy_ok_filtered [of v ?pn "app_cookie_stickiness_policies e"]
    by (intro exI [of _ "[p \<leftarrow> lb_cookie_stickiness_policies e. pol_policy_name p \<noteq> ?pn]"]
          exI [of _ "[p \<leftarrow> app_cookie_stickiness_policies e. pol_policy_name p \<noteq> ?pn]"]
          exI [of _ g] conjI)
qed


lemma select_stickiness_policy_post:
  assumes r: "select_stickiness_policy ev c m = Inr m'" and e: "elb m = Some e"
  shows "\<exists>lbp appp g.
     elb m' = Some (e\<lparr>elb_listeners :=
                        map (\<lambda>l. l\<lparr>api_policy_names := g l\<rparr>) (elb_listeners e),
                      lb_cookie_stickiness_policies := lbp,
                      app_cookie_stickiness_policies := appp\<rparr>) \<and>
     stickiness_ok ev c (e\<lparr>lb_cookie_stickiness_policies := lbp,
                            app_cookie_stickiness_policies := appp\<rparr>) \<and>
     (\<not> resets_changed c (lb_cookie_stickiness_policies e) \<longrightarrow> reports m m')"
proof (cases "stickiness c")
  case None
  with r have "m' = m" by (simp add: select_stickiness_policy_def)
  with e None show ?thesis
    by (intro exI [of _ "lb_cookie_stickiness_policies e"]
          exI [of _ "app_cookie_stickiness_policies e"] exI [of _ api_policy_names])
       (simp add: stickiness_ok_def reports_refl)
next
  case (Some st)
  let ?m0 = "issue (GetAllLoadBalancers (Some (elb_name e))) m"
  let ?d = "listeners_dict (elb_listeners e) []"
  let ?n = "elb_name e"
  from r Some have excl: "cookie st = None \<or> expiration st = None"
    by (auto simp: select_stickiness_policy_def split: if_splits)
  have e0: "elb ?m0 = Some e" using e by (simp add: elb_issue)
  have r0: "reports m ?m0" by (rule reports_issue) simp
  have r': "(if stickiness_type st = ''loadbalancer'' then
               (if enabled st then
                  (case expiration st of
                     None \<Rightarrow> Inl (FailJson msg_expiration_missing, ?m0)
                   | Some ex \<Rightarrow>
                       Inr (set_stickiness_policy ?n (lb_cookie_stickiness_policies e) ?d
                              (policy_name ev ''LBCookieStickinessPolicyType'')
                              ''create_lb_cookie_stickiness_policy'' ex ?m0))
                else Inr (disable_lb_stickiness ev ?n e ?d ?m0))
             else if stickiness_type st = ''application'' then
               (if enabled st then
                  (case cookie st of
                     None \<Rightarrow> Inl (FailJson msg_cookie_missing, ?m0)
                   | Some ck \<Rightarrow>
                       Inr (set_stickiness_policy ?n (app_cookie_stickiness_policies e) ?d
                              (policy_name ev ''AppCookieStickinessPolicyType'')
                              ''create_app_cookie_stickiness_policy'' ck ?m0))
                else Inr (disable_app_stickiness ev ?n e ?d ?m0))
             else Inr (set_listener_policy ?n ?d [] ?m0)) = Inr m'"
    using r Some excl e by (auto simp: select_stickiness_policy_def Let_def)
  have fin: ?thesis
    if "elb m' = Some (e\<lparr>elb_listeners :=
                        map (\<lambda>l. l\<lparr>api_policy_names := g l\<rparr>) (elb_listeners e),
                      lb_cookie_stickiness_policies := lbp,
                      app_cookie_stickiness_policies := appp\<rparr>)"
      "stickiness_ok ev c (e\<lparr>lb_cookie_stickiness_policies := lbp,
                            app_cookie_stickiness_policies := appp\<rparr>)"
      "\<not> resets_changed c (lb_cookie_stickiness_policies e) \<longrightarrow> reports ?m0 m'"
    for lbp appp g
    using that r0 by (intro exI [of _ lbp] exI [of _ appp] exI [of _ g]) (blast intro: reports_trans)
  consider (lb_on) "stickiness_type st = ''loadbalancer''" "enabled st"
    | (lb_off) "stickiness_type st = ''loadbalancer''" "\<not> enabled st"
    | (app_on) "stickiness_type st \<noteq> ''loadbalancer''" "stickiness_type st = ''application''"
        "enabled st"
    | (app_off) "stickiness_type st \<noteq> ''loadbalancer''" "stickiness_type st = ''application''"
        "\<not> enabled st"
    | (other) "stickiness_type st \<noteq> ''loadbalancer''" "stickiness_type st \<noteq> ''application''"
    by blast
  then show ?thesis
  proof cases
    case lb_on
    with r' obtain ex where ex: "expiration st = Some ex"
      "m' = set_stickiness_policy ?n (lb_cookie_stickiness_policies e) ?d
              (policy_name ev ''LBCookieStickinessPolicyType'')
              ''create_lb_cookie_stickiness_policy'' ex ?m0"
      by (cases "expiration st") auto
    from set_stickiness_policy_lb_post [OF e0, of ?n ?d
        "policy_name ev ''LBCookieStickinessPolicyType''" ex]
    obtain lbp appp g where p:
      "elb m' = Some (e\<lparr>elb_listeners :=
                        map (\<lambda>l. l\<lparr>api_policy_names := g l\<rparr>) (elb_listeners e),
                      lb_cookie_stickiness_policies := lbp,
                      app_cookie_stickiness_policies := appp\<rparr>)"
      "policy_ok True (Some ex) (policy_name ev ''LBCookieStickinessPolicyType'') lbp"
      "reports ?m0 m'"
      unfolding ex(2) by blast
    from excl ex(1) have nc: "cookie st = None" by simp
    show ?thesis
      by (rule fin [OF p(1)])
         (simp_all add: stickiness_ok_def Some nc lb_on ex(1) p(2,3))
  next
    case lb_off
    with r' have m': "m' = disable_lb_stickiness ev ?n e ?d ?m0" by simp
    from disable_lb_stickiness_post [OF e0, of ev ?n ?d "expiration st"]
    obtain lbp appp g where p:
      "elb m' = Some (e\<lparr>elb_listeners :=
                        map (\<lambda>l. l\<lparr>api_policy_names := g l\<rparr>) (elb_listeners e),
                      lb_cookie_stickiness_policies := lbp,
                      app_cookie_stickiness_policies := appp\<rparr>)"
      "policy_ok False (expiration st) (policy_name ev ''LBCookieStickinessPolicyType'') lbp"
      "lb_cookie_stickiness_policies e \<noteq> [] \<longrightarrow> reports ?m0 m'"
      unfolding m' by blast
    show ?thesis
      by (rule fin [OF p(1)])
         (use p(2,3) in \<open>simp_all add: stickiness_ok_def Some excl lb_off resets_changed_def\<close>)
  next
    case app_on
    with r' obtain ck where ck: "cookie st = Some ck"
      "m' = set_stickiness_policy ?n (app_cookie_stickiness_policies e) ?d
              (policy_name ev ''AppCookieStickinessPolicyType'')
              ''create_app_cookie_stickiness_policy'' ck ?m0"
      by (cases "cookie st") auto
    from set_stickiness_policy_app_post [OF e0, of ?n ?d
        "policy_name ev ''AppCookieStickinessPolicyType''" ck]
    obtain appp lbp g where p:
      "elb m' = Some (e\<lparr>elb_listeners :=
                        map (\<lambda>l. l\<lparr>api_policy_names := g l\<rparr>) (elb_listeners e),
                      app_cookie_stickiness_policies := appp,
                      lb_cookie_stickiness_policies := lbp\<rparr>)"
      "policy_ok True (Some ck) (policy_name ev ''AppCookieStickinessPolicyType'') appp"
      "reports ?m0 m'"
      unfolding ck(2) by blast
    from p(1) have p1: "elb m' = Some (e\<lparr>elb_listeners :=
                        map (\<lambda>l. l\<lparr>api_policy_names := g l\<rparr>) (elb_listeners e),
                      lb_cookie_stickiness_policies := lbp,
                      app_cookie_stickiness_policies := appp\<rparr>)"
      by simp
    from excl ck(1) have nc: "expiration st = None" by simp
    show ?thesis
      by (rule fin [OF p1])
         (simp_all add: stickiness_ok_def Some nc app_on ck(1) p(2,3))
  next
    case app_off
    with r' have m': "m' = disable_app_stickiness ev ?n e ?d ?m0" by simp
    from disable_app_stickiness_post [OF e0, of ev ?n ?d "cookie st"]
    obtain lbp appp g where p:
      "elb m' = Some (e\<lparr>elb_listeners :=
                        map (\<lambda>l. l\<lparr>api_policy_names := g l\<rparr>) (elb_listeners e),
                      lb_cookie_stickiness_policies := lbp,
                      app_cookie_stickiness_policies := appp\<rparr>)"
      "policy_ok False (cookie st) (policy_name ev ''AppCookieStickinessPolicyType'') appp"
      "reports ?m0 m'"
      unfolding m' by blast
    show ?thesis
      by (rule fin [OF p(1)])
         (use p(2,3) in \<open>simp_all add: stickiness_ok_def Some excl app_off\<close>)
  next
    case other
    with r' have m': "m' = set_listener_policy ?n ?d [] ?m0" by simp
    from set_listener_policy_elb [OF e0, of ?n ?d "[]"] obtain g where
      g: "elb m' = Some (e\<lparr>elb_listeners :=
          map (\<lambda>l. l\<lparr>api_policy_names := g l\<rparr>) (elb_listeners e)\<rparr>)"
      unfolding m' by blast
    then have p1: "elb m' = Some (e\<lparr>elb_listeners :=
                        map (\<lambda>l. l\<lparr>api_policy_names := g l\<rparr>) (elb_listeners e),
                      lb_cookie_stickiness_policies := lb_cookie_stickiness_policies e,
                      app_cookie_stickiness_policies := app_cookie_stickiness_policies e\<rparr>)"
      by simp
    show ?thesis
      by (rule fin [OF p1])
         (simp_all add: stickiness_ok_def Some excl other m' reports_set_listener_policy)
  qed
qed

subsection \<open>A run of \<open>ensure_ok\<close> settles the balancer\<close>

lemma and_then_InrD:
  "and_then r f = Inr y \<Longrightarrow> \<exists>x. r = Inr x \<and> f x = Inr y"
  by (cases r) (simp_all add: and_then_def)

lemma reported_is_delta: "is_reported_call k \<Longrightarrow> is_delta_call k"
  by (cases k) simp_all

lemma reports_quiet:
  assumes "calls m' = calls m @ cs" "filter is_delta_call cs = []" "changed m' = changed m"
  shows "reports m m'"
proof -
  from assms(2) have "\<forall>k\<in>set cs. \<not> is_reported_call k"
    by (auto simp: filter_empty_conv dest: reported_is_delta)
  with assms(1,3) show ?thesis by (auto simp: reports_def)
qed

lemma security_groups_ok_cong:
  "security_groups e' = security_groups e \<Longrightarrow> security_groups_ok c e' = security_groups_ok c e"
  by (simp add: security_groups_ok_def cong: option.case_cong)

lemma health_check_ok_cong:
  "elb_health_check e' = elb_health_check e \<Longrightarrow> health_check_ok ev c e' = health_check_ok ev c e"
  by (simp add: health_check_ok_def cong: option.case_cong)

lemma stickiness_ok_cong:
  "lb_cookie_stickiness_policies e' = lb_cookie_stickiness_policies e \<Longrightarrow>
   app_cookie_stickiness_policies e' = app_cookie_stickiness_policies e \<Longrightarrow>
   stickiness_ok ev c e' = stickiness_ok ev c e"
  by (simp add: stickiness_ok_def cong: option.case_cong if_cong)

lemma create_elb_post:
  assumes "elb m = None"
    and dd: "distinct (map load_balancer_port (listeners c))"
    and cert: "\<forall>l\<in>set (listeners c). ssl_certificate_id l \<noteq> Some []"
  shows "\<exists>e. elb (create_elb c m) = Some e \<and>
     members_ok (zones c) (purge_zones c) (availability_zones e) \<and>
     security_groups_ok c e \<and> listeners_ok c (elb_listeners e) \<and>
     members_ok (subnets c) (purge_subnets c) (elb_subnets e) \<and>
     elb_health_check e = None \<and>
     lb_cookie_stickiness_policies e = [] \<and> reports m (create_elb c m)"
proof -
  let ?k = "CreateLoadBalancer (name c) (zones c) (security_group_ids c)
      (map listener_as_tuple (listeners c)) (subnets c) (scheme c)"
  have m': "create_elb c m = (issue ?k m)\<lparr>changed := True, status := ''created''\<rparr>"
    by (simp add: create_elb_def Let_def elb_issue)
  have lo: "listeners_ok c (map created_listener (listeners c))"
    unfolding listeners_ok_def
    using found_created [OF dd] cert by (auto simp: created_listener_tuple)
  have "reports m (create_elb c m)"
    unfolding m' by (simp add: reports_def calls_issue)
  then show ?thesis
    unfolding m' using lo
    by (simp add: elb_issue map_filter_created members_ok_def security_groups_ok_def
        the_list_def split: option.split)
qed

lemma first_steps_post:
  assumes r: "and_then (set_zones ev c m) (\<lambda>m.
             and_then (set_security_groups c m) (\<lambda>m.
             and_then (set_elb_listeners c m) (\<lambda>m.
             set_subnets c m))) = Inr m'"
    and e: "elb m = Some e"
    and dl: "distinct (map api_load_balancer_port (elb_listeners e))"
    and dd: "distinct (map load_balancer_port (listeners c))"
    and cert: "\<forall>l\<in>set (listeners c). ssl_certificate_id l \<noteq> Some []"
  shows "\<exists>e'. elb m' = Some e' \<and>
     members_ok (zones c) (purge_zones c) (availability_zones e') \<and>
     security_groups_ok c e' \<and> listeners_ok c (elb_listeners e') \<and>
     members_ok (subnets c) (purge_subnets c) (elb_subnets e') \<and>
     elb_health_check e' = elb_health_check e \<and>
     lb_cookie_stickiness_policies e' = lb_cookie_stickiness_policies e \<and> reports m m'"
proof -
  from and_then_InrD [OF r] obtain m1 where m1: "set_zones ev c m = Inr m1"
    and r1: "and_then (set_security_groups c m1) (\<lambda>m.
             and_then (set_elb_listeners c m) (\<lambda>m. set_subnets c m)) = Inr m'"
    by blast
  from and_then_InrD [OF r1] obtain m2 where m2: "set_security_groups c m1 = Inr m2"
    and r2: "and_then (set_elb_listeners c m2) (\<lambda>m. set_subnets c m) = Inr m'"
    by blast
  from and_then_InrD [OF r2] obtain m3 where m3: "set_elb_listeners c m2 = Inr m3"
    and m4: "set_subnets c m3 = Inr m'"
    by blast
  from set_zones_post [OF m1 e] obtain az cs1 where p1:
    "elb m1 = Some (e\<lparr>availability_zones := az\<rparr>)"
    "members_ok (zones c) (purge_zones c) az" and q1: "reports m m1"
    unfolding reports_def by blast
  from set_security_groups_post [OF m2 p1(1)] obtain sg cs2 where p2:
    "elb m2 = Some (e\<lparr>availability_zones := az, security_groups := sg\<rparr>)"
    "security_groups_ok c (e\<lparr>availability_zones := az, security_groups := sg\<rparr>)"
    and q2: "reports m1 m2"
    unfolding reports_def by blast
  have dl2: "distinct (map api_load_balancer_port
      (elb_listeners (e\<lparr>availability_zones := az, security_groups := sg\<rparr>)))"
    using dl by simp
  from set_elb_listeners_post [OF m3 p2(1) dl2 dd cert] obtain ls cs3 where p3:
    "elb m3 = Some (e\<lparr>availability_zones := az, security_groups := sg, elb_listeners := ls\<rparr>)"
    "listeners_ok c ls" and q3: "reports m2 m3"
    unfolding reports_def by blast
  from set_subnets_post [OF m4 p3(1)] obtain sn cs4 where p4:
    "elb m' = Some (e\<lparr>availability_zones := az, security_groups := sg, elb_listeners := ls,
                      elb_subnets := sn\<rparr>)"
    "members_ok (subnets c) (purge_subnets c) sn" and q4: "reports m3 m'"
    unfolding reports_def by blast
  have "reports m m'"
    using q1 q2 q3 q4 by (blast intro: reports_trans)
  moreover from p2(2) have "security_groups_ok c
      (e\<lparr>availability_zones := az, security_groups := sg, elb_listeners := ls,
          elb_subnets := sn\<rparr>)"
    by (subst security_groups_ok_cong
          [of _ "e\<lparr>availability_zones := az, security_groups := sg\<rparr>"]) simp_all
  ultimately show ?thesis
    using p4 p1(2) p3(2) by simp
qed


lemma last_steps_post:
  assumes r: "and_then (set_health_check ev c m) (\<lambda>m.
            and_then (if check_attribute_support ev ''connection_draining''
                      then set_connection_draining_timeout c m else Inr m) (\<lambda>m.
            and_then (if check_attribute_support ev ''cross_zone_load_balancing''
                      then set_cross_az_load_balancing c m else Inr m)
              (select_stickiness_policy ev c))) = Inr m'"
    and e: "elb m = Some e"
    and ok: "members_ok (zones c) (purge_zones c) (availability_zones e)"
      "security_groups_ok c e" "listeners_ok c (elb_listeners e)"
      "members_ok (subnets c) (purge_subnets c) (elb_subnets e)"
  shows "\<exists>e'. elb m' = Some e' \<and> settled ev c e' \<and>
     (\<not> resets_changed c (lb_cookie_stickiness_policies e) \<longrightarrow> reports m m')"
proof -
  from and_then_InrD [OF r] obtain m5 where m5: "set_health_check ev c m = Inr m5"
    and r5: "and_then (if check_attribute_support ev ''connection_draining''
                      then set_connection_draining_timeout c m5 else Inr m5) (\<lambda>m.
            and_then (if check_attribute_support ev ''cross_zone_load_balancing''
                      then set_cross_az_load_balancing c m else Inr m)
              (select_stickiness_policy ev c)) = Inr m'"
    by blast
  from set_health_check_post [OF m5 e] obtain h where p5:
    "elb m5 = Some (e\<lparr>elb_health_check := h\<rparr>)"
    "health_check_ok ev c (e\<lparr>elb_health_check := h\<rparr>)" and q5: "reports m m5"
    unfolding reports_def by blast
  from attribute_steps [OF p5(1), of ev c "select_stickiness_policy ev c"]
  obtain m7 cd cz cs where m7:
    "and_then (if check_attribute_support ev ''connection_draining''
                      then set_connection_draining_timeout c m5 else Inr m5) (\<lambda>m.
            and_then (if check_attribute_support ev ''cross_zone_load_balancing''
                      then set_cross_az_load_balancing c m else Inr m)
              (select_stickiness_policy ev c)) = select_stickiness_policy ev c m7"
    "elb m7 = Some (e\<lparr>elb_health_check := h, connection_draining := cd,
                       cross_zone_load_balancing := cz\<rparr>)"
    "changed m7 = changed m5" "calls m7 = calls m5 @ cs" "filter is_delta_call cs = []"
    by auto
  have q7: "reports m5 m7"
    using m7(4,5,3) by (rule reports_quiet)
  let ?e7 = "e\<lparr>elb_health_check := h, connection_draining := cd,
                cross_zone_load_balancing := cz\<rparr>"
  from r5 m7(1) have m8: "select_stickiness_policy ev c m7 = Inr m'" by simp
  from select_stickiness_policy_post [OF m8 m7(2)] obtain lbp appp g where p8:
    "elb m' = Some (?e7\<lparr>elb_listeners :=
                        map (\<lambda>l. l\<lparr>api_policy_names := g l\<rparr>) (elb_listeners ?e7),
                      lb_cookie_stickiness_policies := lbp,
                      app_cookie_stickiness_policies := appp\<rparr>)"
    "stickiness_ok ev c (?e7\<lparr>lb_cookie_stickiness_policies := lbp,
                            app_cookie_stickiness_policies := appp\<rparr>)"
    "\<not> resets_changed c (lb_cookie_stickiness_policies ?e7) \<longrightarrow> reports m7 m'"
    by blast
  let ?e8 = "?e7\<lparr>elb_listeners :=
                        map (\<lambda>l. l\<lparr>api_policy_names := g l\<rparr>) (elb_listeners ?e7),
                      lb_cookie_stickiness_policies := lbp,
                      app_cookie_stickiness_policies := appp\<rparr>"
  have s1: "members_ok (zones c) (purge_zones c) (availability_zones ?e8)"
    using ok(1) by simp
  have s2: "security_groups_ok c ?e8"
    using ok(2) by (subst security_groups_ok_cong [of _ e]) simp_all
  have s3: "listeners_ok c (elb_listeners ?e8)"
    using ok(3) by (simp add: listeners_ok_policy_names)
  have s4: "members_ok (subnets c) (purge_subnets c) (elb_subnets ?e8)"
    using ok(4) by simp
  have s5: "health_check_ok ev c ?e8"
    using p5(2) by (subst health_check_ok_cong [of _ "e\<lparr>elb_health_check := h\<rparr>"]) simp_all
  have s6: "stickiness_ok ev c ?e8"
    using p8(2)
    by (subst stickiness_ok_cong [of _ "?e7\<lparr>lb_cookie_stickiness_policies := lbp,
                            app_cookie_stickiness_policies := appp\<rparr>"]) simp_all
  have st: "settled ev c ?e8"
    unfolding settled_def using s1 s2 s3 s4 s5 s6 by blast
  have "\<not> resets_changed c (lb_cookie_stickiness_policies e) \<longrightarrow> reports m m'"
  proof
    assume "\<not> resets_changed c (lb_cookie_stickiness_policies e)"
    with p8(3) have "reports m7 m'" by simp
    with q5 q7 show "reports m m'" by (blast intro: reports_trans)
  qed
  with p8(1) st show ?thesis by blast
qed

lemma ensure_ok_post:
  assumes r: "ensure_ok ev c m = Inr m'"
    and dl: "\<forall>e. elb m = Some e \<longrightarrow> distinct (map api_load_balancer_port (elb_listeners e))"
    and dd: "distinct (map load_balancer_port (listeners c))"
    and cert: "\<forall>l\<in>set (listeners c). ssl_certificate_id l \<noteq> Some []"
  shows "\<exists>e'. elb m' = Some e' \<and> settled ev c e' \<and>
     (\<not> resets_changed c
          (case elb m of None \<Rightarrow> [] | Some e \<Rightarrow> lb_cookie_stickiness_policies e) \<longrightarrow>
      reports m m')"
proof -
  from r [unfolded ensure_ok_def] obtain m4 where
    m4: "(if elb m = None then Inr (create_elb c m)
          else and_then (set_zones ev c m) (\<lambda>m.
               and_then (set_security_groups c m) (\<lambda>m.
               and_then (set_elb_listeners c m) (\<lambda>m.
               set_subnets c m)))) = Inr m4"
    and r4: "and_then (set_health_check ev c m4) (\<lambda>m.
            and_then (if check_attribute_support ev ''connection_draining''
                      then set_connection_draining_timeout c m else Inr m) (\<lambda>m.
            and_then (if check_attribute_support ev ''cross_zone_load_balancing''
                      then set_cross_az_load_balancing c m else Inr m)
              (select_stickiness_policy ev c))) = Inr m'"
    by (blast dest: and_then_InrD)
  have "\<exists>e4. elb m4 = Some e4 \<and>
     members_ok (zones c) (purge_zones c) (availability_zones e4) \<and>
     security_groups_ok c e4 \<and> listeners_ok c (elb_listeners e4) \<and>
     members_ok (subnets c) (purge_subnets c) (elb_subnets e4) \<and>
     lb_cookie_stickiness_policies e4
       = (case elb m of None \<Rightarrow> [] | Some e \<Rightarrow> lb_cookie_stickiness_policies e) \<and>
     reports m m4"
  proof (cases "elb m")
    case None
    with m4 have "m4 = create_elb c m" by simp
    with create_elb_post [OF None dd cert] None show ?thesis by auto
  next
    case (Some e)
    with m4 have "and_then (set_zones ev c m) (\<lambda>m.
               and_then (set_security_groups c m) (\<lambda>m.
               and_then (set_elb_listeners c m) (\<lambda>m.
               set_subnets c m))) = Inr m4"
      by simp
    from first_steps_post [OF this Some _ dd cert] dl Some show ?thesis by auto
  qed
  then obtain e4 where e4: "elb m4 = Some e4"
    and ok: "members_ok (zones c) (purge_zones c) (availability_zones e4)"
     "security_groups_ok c e4" "listeners_ok c (elb_listeners e4)"
     "members_ok (subnets c) (purge_subnets c) (elb_subnets e4)"
    and lb: "lb_cookie_stickiness_policies e4
       = (case elb m of None \<Rightarrow> [] | Some e \<Rightarrow> lb_cookie_stickiness_policies e)"
    and q4: "reports m m4"
    by blast
  from last_steps_post [OF r4 e4 ok] obtain e' where
    "elb m' = Some e'" "settled ev c e'"
    "\<not> resets_changed c (lb_cookie_stickiness_policies e4) \<longrightarrow> reports m4 m'"
    by blast
  with q4 lb show ?thesis by (auto intro: reports_trans)
qed


subsection \<open>Running \<open>ensure_ok\<close> twice\<close>

lemma failure_NoneD: "failure r = None \<Longrightarrow> r = Inr (final r)"
  by (cases r) (auto simp: failure_def final_def)

lemmas ex_eval =
  ensure_ok_def init_def ex_config_def ex_elb_def ex_env_def
  and_then_def set_zones_def enable_zones_def disable_zones_def to_enable_def to_disable_def
  set_diff_def truthy_list_def the_list_def set_security_groups_def
  set_elb_listeners_def listeners_to_add_def listeners_to_remove_def
  ex_ports ex_tuples truthy_tuple_def
  set_subnets_def set_health_check_def check_attribute_support_def
  set_connection_draining_timeout_def set_cross_az_load_balancing_def truthy_bool_def
  select_stickiness_policy_def issue_def failure_def final_def Let_def

lemma ex_drain_first:
  "ensure_ok ex_env ex_config_drain (init (Some ex_elb)) =
     Inr \<lparr>changed = False, Changed = None, status = ''ok'',
          elb = Some (ex_elb\<lparr>connection_draining := \<lparr>cd_enabled = True, cd_timeout = 60\<rparr>\<rparr>),
          calls = [GetAllLoadBalancers None, GetAttributes,
                   ModifyLbAttribute ''web'' ''ConnectionDraining''
                     (Draining \<lparr>cd_enabled = True, cd_timeout = 60\<rparr>),
                   GetAttributes,
                   ModifyLbAttribute ''web'' ''CrossZoneLoadBalancing'' (CrossZone False)]\<rparr>"
  by (simp add: ex_config_drain_def ex_eval)

lemma ex_drain_second:
  "ensure_ok ex_env ex_config_drain
     (init (Some (ex_elb\<lparr>connection_draining := \<lparr>cd_enabled = True, cd_timeout = 60\<rparr>\<rparr>))) =
     Inr \<lparr>changed = False, Changed = None, status = ''ok'',
          elb = Some (ex_elb\<lparr>connection_draining := \<lparr>cd_enabled = True, cd_timeout = 60\<rparr>\<rparr>),
          calls = [GetAllLoadBalancers None, GetAttributes,
                   ModifyLbAttribute ''web'' ''ConnectionDraining''
                     (Draining \<lparr>cd_enabled = True, cd_timeout = 60\<rparr>),
                   GetAttributes,
                   ModifyLbAttribute ''web'' ''CrossZoneLoadBalancing'' (CrossZone False)]\<rparr>"
  by (simp add: ex_config_drain_def ex_eval)

text \<open>
  Claim C2, as stated, fails. Only the connection-draining timeout differs from the live
  balancer: the first run enables draining with the timeout, a change of the live
  resource, and reports \<open>changed = False\<close>; the second run, on the state the first
  left, has nothing left to do and still issues the two attribute calls.
\<close>

theorem ensure_ok_twice_draining:
  "connection_draining ex_elb = \<lparr>cd_enabled = False, cd_timeout = 300\<rparr> \<and>
   failure (ensure_ok ex_env ex_config_drain (init (Some ex_elb))) = None \<and>
   map_option connection_draining
     (elb (final (ensure_ok ex_env ex_config_drain (init (Some ex_elb)))))
     = Some \<lparr>cd_enabled = True, cd_timeout = 60\<rparr> \<and>
   \<not> changed (final (ensure_ok ex_env ex_config_drain (init (Some ex_elb)))) \<and>
   filter is_mutation
     (calls (final (ensure_ok ex_env ex_config_drain
        (init (elb (final (ensure_ok ex_env ex_config_drain (init (Some ex_elb)))))))))
     = [ModifyLbAttribute ''web'' ''ConnectionDraining''
          (Draining \<lparr>cd_enabled = True, cd_timeout = 60\<rparr>),
        ModifyLbAttribute ''web'' ''CrossZoneLoadBalancing'' (CrossZone False)] \<and>
   elb (final (ensure_ok ex_env ex_config_drain
        (init (elb (final (ensure_ok ex_env ex_config_drain (init (Some ex_elb))))))))
     = elb (final (ensure_ok ex_env ex_config_drain (init (Some ex_elb))))"
  unfolding ex_drain_first
  by (simp add: final_def failure_def ex_drain_second) (simp add: ex_elb_def)

text \<open>
  Claim C2, amended. Let the desired listeners have distinct ports and no empty
  certificate id, let the live listeners have distinct ports, and let a first
  \<open>ensure_ok\<close> return. Then a second \<open>ensure_ok\<close> with the same configuration, on the
  balancer the first one left, returns with \<open>changed = False\<close> and issues no delta
  call: no creation, no zone, subnet, security-group, listener or health-check call and
  no policy creation (it issues only the calls the steps issue untested). The first run
  reports \<open>changed = True\<close> whenever it issued a reported call (a delta call other than
  the security-group one), except when lines 774-775 reset the flag.
\<close>

theorem ensure_ok_twice:
  assumes "distinct (map load_balancer_port (listeners c))"
    and "\<forall>l\<in>set (listeners c). ssl_certificate_id l \<noteq> Some []"
    and "\<forall>e. live = Some e \<longrightarrow> distinct (map api_load_balancer_port (elb_listeners e))"
    and "ensure_ok ev c (init live) = Inr m1"
  shows "(\<exists>m2. ensure_ok ev c (init (elb m1)) = Inr m2 \<and> \<not> changed m2 \<and>
               filter is_delta_call (calls m2) = []) \<and>
         (\<not> resets_changed c
              (case live of None \<Rightarrow> [] | Some e \<Rightarrow> lb_cookie_stickiness_policies e) \<and>
          (\<exists>k\<in>set (calls m1). is_reported_call k) \<longrightarrow> changed m1)"
proof -
  have l: "elb (init live) = live" by (simp add: init_def)
  from ensure_ok_post [OF assms(4) _ assms(1,2)] assms(3) obtain e1 where
    e1: "elb m1 = Some e1" and st: "settled ev c e1"
    and rp: "\<not> resets_changed c
          (case live of None \<Rightarrow> [] | Some e \<Rightarrow> lb_cookie_stickiness_policies e) \<longrightarrow>
      reports (init live) m1"
    unfolding l by blast
  have "elb (init (Some e1)) = Some e1" "\<not> changed (init (Some e1))"
    by (simp_all add: init_def)
  from settled_run [OF st this] obtain m2 where
    "ensure_ok ev c (init (Some e1)) = Inr m2" "\<not> changed m2"
    "filter is_delta_call (calls m2) = filter is_delta_call (calls (init (Some e1)))"
    by blast
  then have second: "\<exists>m2. ensure_ok ev c (init (elb m1)) = Inr m2 \<and> \<not> changed m2 \<and>
               filter is_delta_call (calls m2) = []"
    unfolding e1 by (simp add: init_def)
  have first: "\<not> resets_changed c
              (case live of None \<Rightarrow> [] | Some e \<Rightarrow> lb_cookie_stickiness_policies e) \<and>
          (\<exists>k\<in>set (calls m1). is_reported_call k) \<longrightarrow> changed m1"
  proof (intro impI, elim conjE)
    assume "\<not> resets_changed c
        (case live of None \<Rightarrow> [] | Some e \<Rightarrow> lb_cookie_stickiness_policies e)"
      and k: "\<exists>k\<in>set (calls m1). is_reported_call k"
    with rp obtain cs where cs: "calls m1 = calls (init live) @ cs"
      "changed (init live) \<or> (\<exists>k\<in>set cs. is_reported_call k) \<longrightarrow> changed m1"
      unfolding reports_def by blast
    from k cs(1) have "\<exists>k\<in>set cs. is_reported_call k"
      by (auto simp: init_def)
    with cs(2) show "changed m1" by blast
  qed
  from second first show ?thesis by (rule conjI)
qed


lemma ex_zones_first:
  "failure (ensure_ok ex_env ex_config_zones (init (Some ex_elb))) = None"
  "calls (final (ensure_ok ex_env ex_config_zones (init (Some ex_elb)))) =
     [GetAllLoadBalancers None, EnableZones [''us-east-1d'', ''us-east-1e''],
      DisableZones [''us-east-1a''], GetAttributes,
      ModifyLbAttribute ''web'' ''ConnectionDraining''
        (Draining \<lparr>cd_enabled = False, cd_timeout = 300\<rparr>),
      GetAttributes,
      ModifyLbAttribute ''web'' ''CrossZoneLoadBalancing'' (CrossZone False)]"
  by (simp_all add: ex_config_zones_def ex_eval)

theorem ensure_ok_twice_witness:
  "distinct (map load_balancer_port (listeners ex_config_zones)) \<and>
   listeners ex_config_zones = [ex_listener] \<and> ssl_certificate_id ex_listener \<noteq> Some [] \<and>
   distinct (map api_load_balancer_port (elb_listeners ex_elb)) \<and>
   failure (ensure_ok ex_env ex_config_zones (init (Some ex_elb))) = None \<and>
   EnableZones [''us-east-1d'', ''us-east-1e'']
     \<in> set (calls (final (ensure_ok ex_env ex_config_zones (init (Some ex_elb))))) \<and>
   changed (final (ensure_ok ex_env ex_config_zones (init (Some ex_elb)))) \<and>
   (\<exists>m2. ensure_ok ex_env ex_config_zones
            (init (elb (final (ensure_ok ex_env ex_config_zones (init (Some ex_elb))))))
            = Inr m2 \<and>
         \<not> changed m2 \<and> filter is_delta_call (calls m2) = [])"
proof -
  have ls: "listeners ex_config_zones = [ex_listener]"
    by (simp add: ex_config_zones_def ex_config_def)
  have h1: "distinct (map load_balancer_port (listeners ex_config_zones))"
    unfolding ls by simp
  have h2': "ssl_certificate_id ex_listener \<noteq> Some []"
    by (simp add: ex_listener_def)
  then have h2: "\<forall>l\<in>set (listeners ex_config_zones). ssl_certificate_id l \<noteq> Some []"
    unfolding ls by simp
  have h3': "distinct (map api_load_balancer_port (elb_listeners ex_elb))"
    by (simp add: ex_elb_def)
  then have h3: "\<forall>e. Some ex_elb = Some e \<longrightarrow>
      distinct (map api_load_balancer_port (elb_listeners e))"
    by simp
  have f: "failure (ensure_ok ex_env ex_config_zones (init (Some ex_elb))) = None"
    by (rule ex_zones_first(1))
  then have h4: "ensure_ok ex_env ex_config_zones (init (Some ex_elb))
      = Inr (final (ensure_ok ex_env ex_config_zones (init (Some ex_elb))))"
    by (rule failure_NoneD)
  note t = ensure_ok_twice [OF h1 h2 h3 h4]
  have k: "EnableZones [''us-east-1d'', ''us-east-1e'']
     \<in> set (calls (final (ensure_ok ex_env ex_config_zones (init (Some ex_elb)))))"
    unfolding ex_zones_first(2) by simp
  have "is_reported_call (EnableZones [''us-east-1d'', ''us-east-1e''])"
    by simp
  with k have k': "\<exists>k\<in>set (calls (final (ensure_ok ex_env ex_config_zones
      (init (Some ex_elb))))). is_reported_call k"
    by blast
  have nr: "\<not> resets_changed ex_config_zones
      (case Some ex_elb of None \<Rightarrow> [] | Some e \<Rightarrow> lb_cookie_stickiness_policies e)"
    by (simp add: resets_changed_def ex_config_zones_def ex_config_def)
  from t have "\<not> resets_changed ex_config_zones
      (case Some ex_elb of None \<Rightarrow> [] | Some e \<Rightarrow> lb_cookie_stickiness_policies e) \<and>
      (\<exists>k\<in>set (calls (final (ensure_ok ex_env ex_config_zones
      (init (Some ex_elb))))). is_reported_call k) \<longrightarrow>
      changed (final (ensure_ok ex_env ex_config_zones (init (Some ex_elb))))"
    by (elim conjE)
  with nr k' have c1: "changed (final (ensure_ok ex_env ex_config_zones (init (Some ex_elb))))"
    by blast
  from t have c2: "\<exists>m2. ensure_ok ex_env ex_config_zones
            (init (elb (final (ensure_ok ex_env ex_config_zones (init (Some ex_elb))))))
            = Inr m2 \<and>
         \<not> changed m2 \<and> filter is_delta_call (calls m2) = []"
    by (elim conjE)
  show ?thesis
    by (rule conjI [OF h1 conjI [OF ls conjI [OF h2' conjI [OF h3' conjI [OF f
          conjI [OF k conjI [OF c1 c2]]]]]]])
qed

end
